(* ===== verification/Go_Prelude.thy ===== *)
theory Go_Prelude
  imports Main "HOL-Library.Word" "HOL-Library.AList" "HOL-Library.Sublist"
begin

text \<open>
  What the components share: Go's fixed-width integers as \<open>int\<close> with the wrap-around
  written out, durations and points in time in nanoseconds, byte strings with the functions of
  \<open>strings\<close> and \<open>strconv\<close> the sources call, and Go's \<open>error\<close> values with the
  tree walk of \<open>errors.Is\<close> and \<open>errors.As\<close>.

  A Go string is a sequence of bytes, and so is a \<^typ>\<open>string\<close> here (a \<^typ>\<open>char\<close>
  has eight bits). \<open>TrimSpace\<close> and \<open>ToLower\<close> are given for ASCII text: the
  non-ASCII white space and letters of Unicode are left as they are.
\<close>

section \<open>Collections of rules\<close>

named_theorems cfg_defs "the definitions of defaults and configuration records"
named_theorems go_result "case analysis of results and error values"

section \<open>Machine integers\<close>

definition wrap32 :: "int \<Rightarrow> int" where
  "wrap32 n = (n + 2 ^ 31) mod 2 ^ 32 - 2 ^ 31"

definition wrap64 :: "int \<Rightarrow> int" where
  "wrap64 n = (n + 2 ^ 63) mod 2 ^ 64 - 2 ^ 63"

definition in_i32 :: "int \<Rightarrow> bool" where
  "in_i32 n \<longleftrightarrow> - (2 ^ 31) \<le> n \<and> n < 2 ^ 31"

definition in_i64 :: "int \<Rightarrow> bool" where
  "in_i64 n \<longleftrightarrow> - (2 ^ 63) \<le> n \<and> n < 2 ^ 63"

lemma wrap32_range [simp]: "in_i32 (wrap32 n)"
  by (simp add: in_i32_def wrap32_def)

lemma wrap64_range [simp]: "in_i64 (wrap64 n)"
  by (simp add: in_i64_def wrap64_def)

lemma wrap32_id [simp]: "in_i32 n \<Longrightarrow> wrap32 n = n"
  by (simp add: in_i32_def wrap32_def)

lemma wrap64_id [simp]: "in_i64 n \<Longrightarrow> wrap64 n = n"
  by (simp add: in_i64_def wrap64_def)

text \<open>The written-out wrap-around is two's complement at the width of the type.\<close>

lemma wrap32_sint: "wrap32 n = sint (word_of_int n :: 32 word)"
  by (simp add: wrap32_def int_word_sint)

lemma wrap64_sint: "wrap64 n = sint (word_of_int n :: 64 word)"
  by (simp add: wrap64_def int_word_sint)

section \<open>Durations\<close>

type_synonym duration = int \<comment> \<open>time.Duration: nanoseconds in an int64\<close>
type_synonym timestamp = int \<comment> \<open>time.Time, as nanoseconds since the epoch\<close>

abbreviation Millisecond :: duration where "Millisecond \<equiv> 1000000"
abbreviation Second :: duration where "Second \<equiv> 1000000000"
abbreviation Minute :: duration where "Minute \<equiv> 60000000000"

text \<open>
  The capped doubling loop the retry policies share:
  \<open>for range n { backoff *= 2; if backoff >= maximum { return maximum } }; return backoff\<close>.
\<close>

fun backoff_loop :: "nat \<Rightarrow> duration \<Rightarrow> duration \<Rightarrow> duration" where
  "backoff_loop 0 backoff maximum = backoff"
| "backoff_loop (Suc n) backoff maximum =
     (let backoff = wrap64 (backoff * 2) in
      if backoff \<ge> maximum then maximum else backoff_loop n backoff maximum)"

lemma backoff_loop_closed:
  assumes "0 \<le> b" "b < 2 ^ 62" "m \<le> 2 ^ 62"
  shows "backoff_loop (Suc n) b m = min m (b * 2 ^ Suc n)"
  using assms
proof (induction n arbitrary: b)
  case 0
  then show ?case by (simp add: in_i64_def min_def)
next
  case (Suc n)
  have double: "wrap64 (b * 2) = 2 * b" using Suc.prems by (simp add: in_i64_def)
  show ?case
  proof (cases "m \<le> 2 * b")
    case True
    have "2 * b * 1 \<le> 2 * b * 2 ^ Suc n"
      by (rule mult_left_mono) (use Suc.prems(1) one_le_power [of "2::int" "Suc n"] in simp_all)
    with True double show ?thesis by (simp add: min_def algebra_simps)
  next
    case False
    then have "backoff_loop (Suc n) (2 * b) m = min m (2 * b * 2 ^ Suc n)"
      using Suc.prems by (intro Suc.IH) simp_all
    then show ?thesis using False by (subst backoff_loop.simps) (simp add: double algebra_simps)
  qed
qed

lemma backoff_loop_attempts:
  assumes "2 \<le> a" "a < 2 ^ 31" "0 \<le> i" "i < 2 ^ 62" "m \<le> 2 ^ 62"
  shows "backoff_loop (nat (wrap32 (a - 1))) i m = min m (i * 2 ^ nat (a - 1))"
proof -
  obtain n where "nat (a - 1) = Suc n" using assms(1) by (cases "nat (a - 1)") auto
  moreover have "wrap32 (a - 1) = a - 1" using assms by (simp add: in_i32_def)
  ultimately show ?thesis using assms backoff_loop_closed [of i m n] by simp
qed

section \<open>Byte strings\<close>

type_synonym bytes = string

definition HasPrefix :: "string \<Rightarrow> string \<Rightarrow> bool" where
  "HasPrefix s p = (take (length p) s = p)"

definition HasSuffix :: "string \<Rightarrow> string \<Rightarrow> bool" where
  "HasSuffix s p = (length p \<le> length s \<and> drop (length s - length p) s = p)"

definition CutPrefix :: "string \<Rightarrow> string \<Rightarrow> string option" where
  "CutPrefix s p = (if HasPrefix s p then Some (drop (length p) s) else None)"

definition is_space :: "char \<Rightarrow> bool" where
  "is_space c = (c \<in> {CHR 0x20, CHR 0x09, CHR 0x0A, CHR 0x0B, CHR 0x0C, CHR 0x0D})"

definition TrimSpace :: "string \<Rightarrow> string" where
  "TrimSpace s = rev (dropWhile is_space (rev (dropWhile is_space s)))"

definition lower_char :: "char \<Rightarrow> char" where
  "lower_char c = (if 65 \<le> (of_char c :: nat) \<and> (of_char c :: nat) \<le> 90
     then char_of ((of_char c :: nat) + 32) else c)"

definition ToLower :: "string \<Rightarrow> string" where
  "ToLower s = map lower_char s"

fun Join :: "string list \<Rightarrow> string \<Rightarrow> string" where
  "Join [] sep = []"
| "Join [s] sep = s"
| "Join (s # t # ss) sep = s @ sep @ Join (t # ss) sep"

fun digits10 :: "nat \<Rightarrow> string" where
  "digits10 n = (if n < 10 then [char_of (48 + n)] else digits10 (n div 10) @ [char_of (48 + n mod 10)])"

declare digits10.simps [simp del]

definition Itoa :: "int \<Rightarrow> string" where
  "Itoa n = (if n < 0 then CHR ''-'' # digits10 (nat (- n)) else digits10 (nat n))"

text \<open>
  The verb \<open>%q\<close>: a double-quoted Go literal. Bytes of multi-byte characters are kept as
  \<open>%q\<close> keeps a printable character.
\<close>

definition hex_digit :: "nat \<Rightarrow> char" where
  "hex_digit n = char_of (if n < 10 then 48 + n else 87 + n)"

definition quote_char :: "char \<Rightarrow> string" where
  "quote_char c =
     (if c = CHR 0x22 \<or> c = CHR 0x5C then [CHR 0x5C, c]
      else if c = CHR 0x07 then [CHR 0x5C, CHR ''a''] else if c = CHR 0x08 then [CHR 0x5C, CHR ''b'']
      else if c = CHR 0x0C then [CHR 0x5C, CHR ''f''] else if c = CHR 0x0A then [CHR 0x5C, CHR ''n'']
      else if c = CHR 0x0D then [CHR 0x5C, CHR ''r''] else if c = CHR 0x09 then [CHR 0x5C, CHR ''t'']
      else if c = CHR 0x0B then [CHR 0x5C, CHR ''v'']
      else if (of_char c :: nat) < 32 \<or> c = CHR 0x7F
      then [CHR 0x5C, CHR ''x'', hex_digit (of_char c div 16), hex_digit (of_char c mod 16)]
      else [c])"

definition quote :: "string \<Rightarrow> string" where
  "quote s = [CHR 0x22] @ concat (map quote_char s) @ [CHR 0x22]"

lemma HasPrefix_append [simp]: "HasPrefix (p @ s) p"
  by (simp add: HasPrefix_def)

lemma HasPrefix_prefix: "HasPrefix s p \<longleftrightarrow> prefix p s"
  by (auto simp: HasPrefix_def prefix_def) (metis append_take_drop_id)

lemma CutPrefix_append [simp]: "CutPrefix (p @ s) p = Some s"
  by (simp add: CutPrefix_def)

lemma CutPrefix_Some: "CutPrefix s p = Some r \<longleftrightarrow> s = p @ r"
  by (auto simp: CutPrefix_def HasPrefix_prefix prefix_def)

lemma Join_Cons: "Join (s # ss) sep = (if ss = [] then s else s @ sep @ Join ss sep)"
  by (cases ss) simp_all

text \<open>Where the first occurrence of a byte can be in a concatenation.\<close>

lemma append_shorter: "a @ b = c @ d \<Longrightarrow> length a \<le> length c \<Longrightarrow> \<exists>e. c = a @ e \<and> b = e @ d"
  by (auto simp: append_eq_append_conv2)

lemma append_split_notin: "c \<notin> set p \<Longrightarrow> p @ q = x @ c # y \<Longrightarrow> \<exists>z. x = p @ z \<and> q = z @ c # y"
proof (induction p arbitrary: x)
  case (Cons d p)
  then show ?case by (cases x) auto
qed simp

lemma append_two_notin: "a \<noteq> b \<Longrightarrow> a \<notin> set s \<Longrightarrow> b \<notin> set y \<Longrightarrow> y @ a # t \<noteq> s @ b # r"
  using append_split_notin [of b y "a # t" s r] by (auto simp: Cons_eq_append_conv)

section \<open>gRPC status values\<close>

datatype grpc_code =
    CodeOK | CodeCanceled | CodeUnknown | CodeInvalidArgument | CodeDeadlineExceeded
  | CodeNotFound | CodeAlreadyExists | CodePermissionDenied | CodeResourceExhausted
  | CodeFailedPrecondition | CodeAborted | CodeOutOfRange | CodeUnimplemented
  | CodeInternal | CodeUnavailable | CodeDataLoss | CodeUnauthenticated
  | CodeOther nat

type_synonym metadata = "(string \<times> string) list" \<comment> \<open>map[string]string\<close>

record error_info =
  info_reason :: string
  info_domain :: string
  info_metadata :: metadata

record grpc_status =
  st_code :: grpc_code
  st_message :: string
  st_details :: "error_info list"

section \<open>Error values\<close>

text \<open>
  A Go error value: a sentinel made by \<open>errors.New\<close> (known by its text, which is
  unique in the program), one made by \<open>fmt.Errorf\<close> with the errors its \<open>%w\<close>
  verbs wrap, the domain error of \<open>pkg/errors\<close>, or a gRPC status error.
\<close>

datatype domain_error =
    DomainError (Code: grpc_code) (Reason: string) (Message: string)
      (Metadata: metadata) (Cause: "go_error option")
and go_error =
    Sentinel string
  | Wrapped string "go_error list"
  | DomainErr domain_error
  | StatusErr grpc_status

abbreviation ctx_Canceled :: go_error where
  "ctx_Canceled \<equiv> Sentinel ''context canceled''"

abbreviation ctx_DeadlineExceeded :: go_error where
  "ctx_DeadlineExceeded \<equiv> Sentinel ''context deadline exceeded''"

definition Error_Is :: "domain_error \<Rightarrow> domain_error option \<Rightarrow> bool" where
  "Error_Is e target = (case target of None \<Rightarrow> False | Some other \<Rightarrow> Reason e = Reason other)"

text \<open>
  \<open>errors.As\<close> for \<open>*errors.Error\<close>: the first domain error of the tree in
  depth-first order. A domain error is found before its cause is looked at.
\<close>

fun as_domain :: "go_error \<Rightarrow> domain_error option"
and as_domain_list :: "go_error list \<Rightarrow> domain_error option" where
  "as_domain (Sentinel s) = None"
| "as_domain (Wrapped t es) = as_domain_list es"
| "as_domain (DomainErr e) = Some e"
| "as_domain (StatusErr st) = None"
| "as_domain_list [] = None"
| "as_domain_list (e # es) = (case as_domain e of None \<Rightarrow> as_domain_list es | Some d \<Rightarrow> Some d)"

text \<open>
  \<open>errors.Is\<close>: some error of the tree equals the target, or has an \<open>Is\<close>
  method (the domain error has one) that accepts it.
\<close>

fun errors_Is :: "go_error \<Rightarrow> go_error \<Rightarrow> bool" where
  "errors_Is (Sentinel s) target = (target = Sentinel s)"
| "errors_Is (Wrapped t es) target = (target = Wrapped t es \<or> (\<exists>e\<in>set es. errors_Is e target))"
| "errors_Is (DomainErr (DomainError c r m md ca)) target =
     (target = DomainErr (DomainError c r m md ca)
      \<or> Error_Is (DomainError c r m md ca) (as_domain target)
      \<or> (case ca of None \<Rightarrow> False | Some e \<Rightarrow> errors_Is e target))"
| "errors_Is (StatusErr st) target = (target = StatusErr st)"

text \<open>The names of the gRPC codes, as \<open>codes.Code.String\<close> prints them.\<close>

fun code_String :: "grpc_code \<Rightarrow> string" where
  "code_String CodeOK = ''OK''"
| "code_String CodeCanceled = ''Canceled''"
| "code_String CodeUnknown = ''Unknown''"
| "code_String CodeInvalidArgument = ''InvalidArgument''"
| "code_String CodeDeadlineExceeded = ''DeadlineExceeded''"
| "code_String CodeNotFound = ''NotFound''"
| "code_String CodeAlreadyExists = ''AlreadyExists''"
| "code_String CodePermissionDenied = ''PermissionDenied''"
| "code_String CodeResourceExhausted = ''ResourceExhausted''"
| "code_String CodeFailedPrecondition = ''FailedPrecondition''"
| "code_String CodeAborted = ''Aborted''"
| "code_String CodeOutOfRange = ''OutOfRange''"
| "code_String CodeUnimplemented = ''Unimplemented''"
| "code_String CodeInternal = ''Internal''"
| "code_String CodeUnavailable = ''Unavailable''"
| "code_String CodeDataLoss = ''DataLoss''"
| "code_String CodeUnauthenticated = ''Unauthenticated''"
| "code_String (CodeOther n) = ''Code('' @ digits10 n @ '')''"

fun Error_Error :: "domain_error \<Rightarrow> string"
and err_text :: "go_error \<Rightarrow> string" where
  "Error_Error (DomainError c r m md ca) =
     (case ca of None \<Rightarrow> r @ '': '' @ m | Some e \<Rightarrow> r @ '': '' @ m @ '': '' @ err_text e)"
| "err_text (Sentinel s) = s"
| "err_text (Wrapped t es) = t"
| "err_text (DomainErr e) = Error_Error e"
| "err_text (StatusErr st) = ''rpc error: code = '' @ code_String (st_code st) @ '' desc = '' @ st_message st"

text \<open>\<open>fmt.Errorf("context: %w", err)\<close>.\<close>

definition Errorf :: "string \<Rightarrow> go_error \<Rightarrow> go_error" where
  "Errorf context e = Wrapped (context @ '': '' @ err_text e) [e]"

lemma as_domain_Errorf [simp]: "as_domain (Errorf c e) = as_domain e"
  by (simp add: Errorf_def split: option.split)

lemma errors_Is_refl [simp]: "errors_Is e e"
proof (cases e)
  case (DomainErr d)
  then show ?thesis by (cases d) simp
qed simp_all

lemma errors_Is_Errorf [simp]:
  "errors_Is (Errorf c e) (Sentinel s) = errors_Is e (Sentinel s)"
  by (simp add: Errorf_def)

lemma err_text_Errorf [simp]: "err_text (Errorf c e) = c @ '': '' @ err_text e"
  by (simp add: Errorf_def)

lemma as_domain_list_None: "as_domain_list es = None \<longleftrightarrow> (\<forall>e\<in>set es. as_domain e = None)"
  by (induction es) (auto split: option.split)

end
