(* ===== verification/Logging.thy ===== *)
theory Logging
  imports Go_Prelude
begin

text \<open>
  \<open>pkg/logger\<close>: the level of a logger, the context that carries it and the trace of the
  active span, and the construction of the root logger. What a call writes is the list of log
  lines it emits, each with the fields the logger and the call attach.
\<close>

section \<open>Levels\<close>

datatype level =
    TraceLevel | DebugLevel | InfoLevel | WarnLevel | ErrorLevel
  | FatalLevel | PanicLevel | NoLevel | Disabled

fun level_rank :: "level \<Rightarrow> nat" where
  "level_rank TraceLevel = 0"
| "level_rank DebugLevel = 1"
| "level_rank InfoLevel = 2"
| "level_rank WarnLevel = 3"
| "level_rank ErrorLevel = 4"
| "level_rank FatalLevel = 5"
| "level_rank PanicLevel = 6"
| "level_rank NoLevel = 7"
| "level_rank Disabled = 8"

lemma level_rank_inj [simp]: "level_rank a = level_rank b \<longleftrightarrow> a = b"
  by (cases a; cases b) simp_all

instantiation level :: linorder
begin

definition less_eq_level :: "level \<Rightarrow> level \<Rightarrow> bool" where
  "less_eq_level a b \<longleftrightarrow> level_rank a \<le> level_rank b"

definition less_level :: "level \<Rightarrow> level \<Rightarrow> bool" where
  "less_level a b \<longleftrightarrow> level_rank a < level_rank b"

instance
  by standard (auto simp: less_eq_level_def less_level_def)

end

section \<open>Loggers and contexts\<close>

type_synonym writer = string \<comment> \<open>a destination, by name\<close>

datatype sink = RawSink writer | ConsoleSink writer

record log_line =
  line_level :: level
  line_fields :: "(string \<times> string) list"
  line_err :: "go_error option"
  line_msg :: string

record logger =
  lg_level :: level
  lg_sinks :: "sink list"
  lg_fields :: "(string \<times> string) list"

record span_context =
  span_trace_id :: string
  span_span_id :: string
  span_valid :: bool

record go_ctx =
  ctx_logger :: "logger option" \<comment> \<open>the value stored under contextKey\<close>
  ctx_span :: span_context
  ctx_md :: "(string \<times> string list) list option" \<comment> \<open>incoming gRPC metadata\<close>
  ctx_peer :: "string option" \<comment> \<open>the address of the caller, if the transport exposes one\<close>

definition FieldService :: string where "FieldService = ''service''"
definition FieldVersion :: string where "FieldVersion = ''version''"
definition FieldTraceID :: string where "FieldTraceID = ''trace_id''"
definition FieldSpanID :: string where "FieldSpanID = ''span_id''"
definition FieldMethod :: string where "FieldMethod = ''method''"

definition background :: go_ctx where
  "background = \<lparr>ctx_logger = None,
     ctx_span = \<lparr>span_trace_id = [], span_span_id = [], span_valid = False\<rparr>, ctx_md = None, ctx_peer = None\<rparr>"

definition Nop :: logger where
  "Nop = \<lparr>lg_level = Disabled, lg_sinks = [], lg_fields = []\<rparr>"

definition WithContext :: "go_ctx \<Rightarrow> logger \<Rightarrow> go_ctx" where
  "WithContext ctx lg = ctx\<lparr>ctx_logger := Some lg\<rparr>"

definition FromContext :: "go_ctx \<Rightarrow> logger" where
  "FromContext ctx = (case ctx_logger ctx of None \<Rightarrow> Nop | Some lg \<Rightarrow> lg)"

definition Ctx :: "go_ctx \<Rightarrow> logger" where
  "Ctx ctx = (let lg = FromContext ctx in
     if \<not> span_valid (ctx_span ctx) then lg
     else lg\<lparr>lg_fields := lg_fields lg @
       [(FieldTraceID, span_trace_id (ctx_span ctx)), (FieldSpanID, span_span_id (ctx_span ctx))]\<rparr>)"

definition TraceID :: "go_ctx \<Rightarrow> string" where
  "TraceID ctx = (if \<not> span_valid (ctx_span ctx) then '''' else span_trace_id (ctx_span ctx))"

text \<open>
  \<open>logger.WithLevel(l)...Msg(m)\<close>: zerolog drops an event below the logger's level.
\<close>

definition emit :: "logger \<Rightarrow> level \<Rightarrow> (string \<times> string) list \<Rightarrow> go_error option \<Rightarrow> string \<Rightarrow> log_line list" where
  "emit lg l fs err msg =
     (if l < lg_level lg then []
      else [\<lparr>line_level = l, line_fields = lg_fields lg @ fs, line_err = err, line_msg = msg\<rparr>])"

section \<open>Building the root logger\<close>

record log_options =
  opt_ServiceName :: string
  opt_Level :: string
  opt_Pretty :: bool
  opt_Output :: "writer option"
  opt_Extra :: "writer option list"

fun nonNil :: "writer option list \<Rightarrow> writer list" where
  "nonNil [] = []"
| "nonNil (w # ws) = (case w of None \<Rightarrow> nonNil ws | Some x \<Rightarrow> x # nonNil ws)"

text \<open>\<open>zparse\<close> is \<open>zerolog.ParseLevel\<close>, \<open>None\<close> standing for its error.\<close>

definition ParseLevel :: "(string \<Rightarrow> level option) \<Rightarrow> string \<Rightarrow> level" where
  "ParseLevel zparse name =
     (case zparse (ToLower (TrimSpace name)) of
        None \<Rightarrow> InfoLevel
      | Some l \<Rightarrow> if l = NoLevel then InfoLevel else l)"

definition logger_New :: "(string \<Rightarrow> level option) \<Rightarrow> string \<Rightarrow> log_options \<Rightarrow> logger" where
  "logger_New zparse version opts =
     (let out = (case opt_Output opts of None \<Rightarrow> ''stdout'' | Some w \<Rightarrow> w);
          first = (if opt_Pretty opts then ConsoleSink out else RawSink out);
          sinks = first # map RawSink (nonNil (opt_Extra opts));
          base = [(FieldVersion, version)]
      in \<lparr>lg_level = ParseLevel zparse (opt_Level opts), lg_sinks = sinks,
          lg_fields = base @ (if opt_ServiceName opts \<noteq> '''' then [(FieldService, opt_ServiceName opts)] else [])\<rparr>)"

section \<open>Lemmas\<close>

lemma emit_Nop [simp]: "l < Disabled \<Longrightarrow> emit Nop l fs e m = []"
  by (simp add: emit_def Nop_def)

lemma FromContext_WithContext [simp]: "FromContext (WithContext ctx lg) = lg"
  by (simp add: FromContext_def WithContext_def)

lemma ctx_span_WithContext [simp]: "ctx_span (WithContext ctx lg) = ctx_span ctx"
  by (simp add: WithContext_def)

lemma lg_level_Ctx [simp]: "lg_level (Ctx ctx) = lg_level (FromContext ctx)"
  by (simp add: Ctx_def Let_def)

lemma Ctx_trace:
  "span_valid (ctx_span ctx) \<Longrightarrow> (FieldTraceID, TraceID ctx) \<in> set (lg_fields (Ctx ctx))"
  by (simp add: Ctx_def TraceID_def Let_def)

lemma set_nonNil: "set (nonNil ws) = {w. Some w \<in> set ws}"
  by (induction ws) (auto split: option.splits)

lemma ParseLevel_not_NoLevel [simp]: "ParseLevel z n \<noteq> NoLevel"
  by (simp add: ParseLevel_def split: option.split)

end
