(* ===== verification/Dizen_Errors.thy ===== *)
theory Dizen_Errors
  imports Logging
begin

text \<open>
  \<open>pkg/errors\<close>: domain errors, their builders, and the mapping of any error a handler
  returns to the gRPC status the client receives. The \<open>status\<close> package of gRPC is not
  part of the repository; \<open>status_lib\<close> holds the two functions of it the code calls, and
  \<open>status_lib_doc\<close> is their documented behaviour.
\<close>

section \<open>Reasons and constructors\<close>

definition Domain :: string where "Domain = ''dizen.io''"

definition ReasonInternal :: string where "ReasonInternal = ''INTERNAL_ERROR''"
definition ReasonClientTooOld :: string where "ReasonClientTooOld = ''CLIENT_TOO_OLD''"

text \<open>
  The vocabulary clients decide on: the reasons shared by every service, those of identity, and
  those of tours and booking.
\<close>

definition shared_reasons :: "string list" where
  "shared_reasons = [ReasonInternal, ''INVALID_ARGUMENT'', ''NOT_FOUND'', ''ALREADY_EXISTS'', ''PERMISSION_DENIED'', ''UNAUTHENTICATED'',
     ''RATE_LIMITED'', ''UNAVAILABLE'', ReasonClientTooOld]"

definition identity_reasons :: "string list" where
  "identity_reasons = [''SESSION_REVOKED'', ''TOKEN_EXPIRED'', ''USER_BLOCKED'', ''MUST_CHANGE_PASSWORD'']"

definition tour_reasons :: "string list" where
  "tour_reasons = [''TOUR_NOT_ENTITLED'', ''SLOT_FULL'']"

text \<open>No two reasons share a name, so a client can tell them apart, and none is empty.\<close>

lemma reasons_distinct:
  "distinct (shared_reasons @ identity_reasons @ tour_reasons) \<and> [] \<notin> set (shared_reasons @ identity_reasons @ tour_reasons)"
  by code_simp

definition internalMessage :: string where "internalMessage = ''internal error''"

definition New :: "grpc_code \<Rightarrow> string \<Rightarrow> string \<Rightarrow> domain_error" where
  "New code reason message = DomainError code reason message [] None"

definition WithCause :: "domain_error \<Rightarrow> go_error \<Rightarrow> domain_error" where
  "WithCause e cause = DomainError (Code e) (Reason e) (Message e) (Metadata e) (Some cause)"

definition WithMetadata :: "domain_error \<Rightarrow> string \<Rightarrow> string \<Rightarrow> domain_error" where
  "WithMetadata e key value =
     DomainError (Code e) (Reason e) (Message e) (AList.update key value (Metadata e)) (Cause e)"

definition WithMessage :: "domain_error \<Rightarrow> string \<Rightarrow> domain_error" where
  "WithMessage e message = DomainError (Code e) (Reason e) message (Metadata e) (Cause e)"

definition NotFound :: "string \<Rightarrow> string \<Rightarrow> domain_error" where
  "NotFound reason message = New CodeNotFound reason message"

definition InvalidArgument :: "string \<Rightarrow> string \<Rightarrow> domain_error" where
  "InvalidArgument reason message = New CodeInvalidArgument reason message"

definition AlreadyExists :: "string \<Rightarrow> string \<Rightarrow> domain_error" where
  "AlreadyExists reason message = New CodeAlreadyExists reason message"

definition PermissionDenied :: "string \<Rightarrow> string \<Rightarrow> domain_error" where
  "PermissionDenied reason message = New CodePermissionDenied reason message"

definition Unauthenticated :: "string \<Rightarrow> string \<Rightarrow> domain_error" where
  "Unauthenticated reason message = New CodeUnauthenticated reason message"

definition FailedPrecondition :: "string \<Rightarrow> string \<Rightarrow> domain_error" where
  "FailedPrecondition reason message = New CodeFailedPrecondition reason message"

definition ResourceExhausted :: "string \<Rightarrow> string \<Rightarrow> domain_error" where
  "ResourceExhausted reason message = New CodeResourceExhausted reason message"

definition Unavailable :: "string \<Rightarrow> string \<Rightarrow> domain_error" where
  "Unavailable reason message = New CodeUnavailable reason message"

definition Internal :: "go_error \<Rightarrow> domain_error" where
  "Internal cause = WithCause (DomainError CodeInternal ReasonInternal internalMessage [] None) cause"

section \<open>The gRPC status package\<close>

text \<open>
  \<open>SL_WithDetails st info\<close> is \<open>st.WithDetails(info)\<close>, \<open>None\<close> standing for
  its error; \<open>SL_FromError err\<close> is \<open>status.FromError(err)\<close>, \<open>None\<close> standing
  for \<open>ok = false\<close>.
\<close>

record status_lib =
  SL_WithDetails :: "grpc_status \<Rightarrow> error_info \<Rightarrow> grpc_status option"
  SL_FromError :: "go_error \<Rightarrow> grpc_status option"

fun carries_status :: "go_error \<Rightarrow> bool" where
  "carries_status (Sentinel s) = False"
| "carries_status (Wrapped t es) = (\<exists>e\<in>set es. carries_status e)"
| "carries_status (DomainErr e) = True"
| "carries_status (StatusErr st) = True"

definition status_lib_doc :: "status_lib \<Rightarrow> bool" where
  "status_lib_doc L \<longleftrightarrow>
     (\<forall>st info st'. SL_WithDetails L st info = Some st' \<longrightarrow> st' = st\<lparr>st_details := st_details st @ [info]\<rparr>)
     \<and> (\<forall>st. SL_FromError L (StatusErr st) = Some st)
     \<and> (\<forall>err. carries_status err \<longrightarrow> SL_FromError L err \<noteq> None)"

section \<open>From an error to a status\<close>

definition status_New :: "grpc_code \<Rightarrow> string \<Rightarrow> grpc_status" where
  "status_New code message = \<lparr>st_code = code, st_message = message, st_details = []\<rparr>"

text \<open>\<open>Status.Err\<close>: the error of a status, nil for the code OK.\<close>

definition status_Err :: "grpc_status \<Rightarrow> go_error option" where
  "status_Err st = (if st_code st = CodeOK then None else Some (StatusErr st))"

definition levelFor :: "grpc_code \<Rightarrow> level" where
  "levelFor code =
     (if code \<in> {CodeInternal, CodeUnknown, CodeDataLoss, CodeUnavailable} then ErrorLevel
      else if code = CodeResourceExhausted then WarnLevel
      else DebugLevel)"

definition Error_status :: "status_lib \<Rightarrow> domain_error \<Rightarrow> grpc_status" where
  "Error_status L e =
     (let st = status_New (Code e) (Message e);
          info = \<lparr>info_reason = Reason e, info_domain = Domain, info_metadata = Metadata e\<rparr>
      in case SL_WithDetails L st info of None \<Rightarrow> st | Some withDetails \<Rightarrow> withDetails)"

definition isStatusError :: "go_error \<Rightarrow> bool" where
  "isStatusError err = carries_status err"

definition unexpected :: "status_lib \<Rightarrow> go_ctx \<Rightarrow> go_error \<Rightarrow> log_line list \<times> go_error option" where
  "unexpected L ctx err =
     (let lines = emit (Ctx ctx) ErrorLevel [(''reason'', ReasonInternal)] (Some err)
                    ''unexpected error in a handler'';
          st = status_New CodeInternal internalMessage;
          info = \<lparr>info_reason = ReasonInternal, info_domain = Domain, info_metadata = []\<rparr>
      in (lines, case SL_WithDetails L st info of None \<Rightarrow> status_Err st | Some wd \<Rightarrow> status_Err wd))"

definition logDomainError :: "go_ctx \<Rightarrow> domain_error \<Rightarrow> log_line list" where
  "logDomainError ctx e =
     emit (Ctx ctx) (levelFor (Code e))
       [(''reason'', Reason e), (''code'', code_String (Code e))] (Cause e) (Message e)"

definition ToStatus :: "status_lib \<Rightarrow> go_ctx \<Rightarrow> go_error option \<Rightarrow> log_line list \<times> go_error option" where
  "ToStatus L ctx err0 =
     (case err0 of
        None \<Rightarrow> ([], None)
      | Some err \<Rightarrow>
          (case as_domain err of
             Some e \<Rightarrow> (logDomainError ctx e, status_Err (Error_status L e))
           | None \<Rightarrow>
               if errors_Is err ctx_Canceled
               then ([], status_Err (status_New CodeCanceled ''the call was canceled''))
               else if errors_Is err ctx_DeadlineExceeded
               then ([], status_Err (status_New CodeDeadlineExceeded ''the call exceeded its deadline''))
               else if SL_FromError L err \<noteq> None \<and> isStatusError err
               then ([], Some err)
               else unexpected L ctx err))"

fun first_reason :: "error_info list \<Rightarrow> string" where
  "first_reason [] = ''''"
| "first_reason (i # is) = info_reason i"

definition ReasonOf :: "status_lib \<Rightarrow> go_error option \<Rightarrow> string" where
  "ReasonOf L err0 =
     (case err0 of
        None \<Rightarrow> ''''
      | Some err \<Rightarrow>
          (case as_domain err of
             Some e \<Rightarrow> Reason e
           | None \<Rightarrow> (case SL_FromError L err of None \<Rightarrow> '''' | Some st \<Rightarrow> first_reason (st_details st))))"

section \<open>Lemmas\<close>

lemma status_Err_New [simp]:
  "c \<noteq> CodeOK \<Longrightarrow> status_Err (status_New c m) = Some (StatusErr (status_New c m))"
  by (simp add: status_Err_def status_New_def)

lemma status_lib_docD:
  assumes "status_lib_doc L"
  shows "SL_WithDetails L st info = Some st' \<Longrightarrow> st' = st\<lparr>st_details := st_details st @ [info]\<rparr>"
    and "SL_FromError L (StatusErr st) = Some st"
    and "carries_status err \<Longrightarrow> \<exists>st. SL_FromError L err = Some st"
  using assms by (auto simp: status_lib_doc_def)

lemma Error_status_code:
  assumes "status_lib_doc L"
  shows "st_code (Error_status L e) = Code e" and "st_message (Error_status L e) = Message e"
  using status_lib_docD(1) [OF assms]
  by (force simp: Error_status_def status_New_def Let_def split: option.split)+

lemma with_simps [simp]:
  "Code (WithCause e c) = Code e" "Reason (WithCause e c) = Reason e"
  "Message (WithCause e c) = Message e" "Metadata (WithCause e c) = Metadata e"
  "Cause (WithCause e c) = Some c"
  "Code (WithMetadata e k v) = Code e" "Reason (WithMetadata e k v) = Reason e"
  "Message (WithMetadata e k v) = Message e" "Cause (WithMetadata e k v) = Cause e"
  "Metadata (WithMetadata e k v) = AList.update k v (Metadata e)"
  "Code (WithMessage e m) = Code e" "Reason (WithMessage e m) = Reason e"
  "Message (WithMessage e m) = m" "Metadata (WithMessage e m) = Metadata e"
  "Cause (WithMessage e m) = Cause e"
  by (simp_all add: WithCause_def WithMetadata_def WithMessage_def)

lemma Error_status_cong:
  "Code e = Code e' \<Longrightarrow> Reason e = Reason e' \<Longrightarrow> Message e = Message e' \<Longrightarrow> Metadata e = Metadata e'
   \<Longrightarrow> Error_status L e = Error_status L e'"
  by (simp add: Error_status_def)

section \<open>Properties\<close>

text \<open>What no handler meant to tell the client: neither a domain error, nor a context error, nor a gRPC status.\<close>

definition unplanned :: "go_error \<Rightarrow> bool" where
  "unplanned err \<longleftrightarrow> as_domain err = None \<and> \<not> errors_Is err ctx_Canceled
     \<and> \<not> errors_Is err ctx_DeadlineExceeded \<and> \<not> isStatusError err"

text \<open>
  C8. Nothing of an unexpected error reaches the client: the status \<open>ToStatus\<close> answers with
  is the same for every such error, it has code Internal and the fixed message, and its only
  possible detail names the reason INTERNAL_ERROR. The error itself is in the server's log, at
  error level, with the trace id of the call.
\<close>

theorem unexpected_error_hidden:
  assumes "status_lib_doc L" "unplanned err" "unplanned err'"
  shows "snd (ToStatus L ctx (Some err)) = snd (ToStatus L ctx' (Some err'))
     \<and> (\<exists>st. snd (ToStatus L ctx (Some err)) = Some (StatusErr st) \<and> st_code st = CodeInternal
          \<and> st_message st = internalMessage
          \<and> set (st_details st) \<subseteq> {\<lparr>info_reason = ReasonInternal, info_domain = Domain, info_metadata = []\<rparr>})
     \<and> fst (ToStatus L ctx (Some err)) = emit (Ctx ctx) ErrorLevel [(''reason'', ReasonInternal)] (Some err) ''unexpected error in a handler''"
  using assms status_lib_docD(1) [OF assms(1)]
  by (fastforce simp: ToStatus_def unplanned_def unexpected_def Let_def status_New_def status_Err_def split: option.splits)

text \<open>
  The cause of a domain error stays on the server: two errors whose first domain errors
  agree on code, reason, message and metadata get the same status, whatever their causes and
  whatever they are wrapped in; the cause goes to the log line of the call.
\<close>

theorem domain_cause_hidden:
  assumes "as_domain err = Some e" "as_domain err' = Some e'"
    and "Code e = Code e'" "Reason e = Reason e'" "Message e = Message e'" "Metadata e = Metadata e'"
  shows "snd (ToStatus L ctx (Some err)) = snd (ToStatus L ctx' (Some err'))
     \<and> fst (ToStatus L ctx (Some err)) = emit (Ctx ctx) (levelFor (Code e))
         [(''reason'', Reason e), (''code'', code_String (Code e))] (Cause e) (Message e)"
  using assms Error_status_cong [of e e' L] by (simp add: ToStatus_def logDomainError_def)

text \<open>
  The reason survives the wire: for a domain error, wrapped or not, the client reads from
  the status (with \<open>ReasonOf\<close>) the reason the service set, and code and message are the
  error's own. (Unless attaching the detail failed, or the code is OK.)
\<close>

theorem reason_roundtrip:
  assumes "status_lib_doc L" "as_domain err = Some e" "Code e \<noteq> CodeOK" "\<And>st info. SL_WithDetails L st info \<noteq> None"
  shows "\<exists>st. snd (ToStatus L ctx (Some err)) = Some (StatusErr st) \<and> st_code st = Code e \<and> st_message st = Message e
     \<and> ReasonOf L (Some (StatusErr st)) = Reason e \<and> ReasonOf L (Some err) = Reason e"
proof -
  let ?st = "Error_status L e"
  have "first_reason (st_details ?st) = Reason e"
  proof -
    let ?new = "status_New (Code e) (Message e)"
    let ?info = "\<lparr>info_reason = Reason e, info_domain = Domain, info_metadata = Metadata e\<rparr>"
    obtain st where "SL_WithDetails L ?new ?info = Some st" using assms(4) by blast
    with status_lib_docD(1) [OF assms(1) this] show ?thesis by (simp add: Error_status_def Let_def status_New_def)
  qed
  with assms Error_status_code [OF assms(1), of e] show ?thesis
    by (auto simp: ToStatus_def ReasonOf_def status_Err_def status_lib_docD(2))
qed

text \<open>
  A failed call is never reported as a success: the status error is nil only if the handler
  returned nil, or a domain error built with the code OK.
\<close>

theorem error_stays_error:
  assumes "status_lib_doc L"
  shows "snd (ToStatus L ctx err0) = None \<longleftrightarrow>
     err0 = None \<or> (\<exists>err e. err0 = Some err \<and> as_domain err = Some e \<and> Code e = CodeOK)"
proof -
  have "snd (unexpected L ctx err) \<noteq> None" for err
    by (auto simp: unexpected_def Let_def status_Err_def status_New_def dest!: status_lib_docD(1) [OF assms] split: option.split)
  then show ?thesis
    using Error_status_code(1) [OF assms] by (auto simp: ToStatus_def status_Err_def status_New_def split: option.splits)
qed

section \<open>Witnesses\<close>

definition plain_status_lib :: status_lib where
  "plain_status_lib =
     \<lparr>SL_WithDetails = \<lambda>st info. Some (st\<lparr>st_details := st_details st @ [info]\<rparr>),
      SL_FromError = \<lambda>err. (case err of
         StatusErr st \<Rightarrow> Some st
       | DomainErr e \<Rightarrow> Some (status_New (Code e) (Message e))
       | Sentinel s \<Rightarrow> None
       | Wrapped t es \<Rightarrow> if carries_status (Wrapped t es) then Some (status_New CodeUnknown t) else None)\<rparr>"

lemma plain_status_lib_doc: "status_lib_doc plain_status_lib"
  by (auto simp: status_lib_doc_def plain_status_lib_def split: go_error.split)

theorem unexpected_error_hidden_witness:
  "snd (ToStatus plain_status_lib background (Some (Sentinel ''pq: password authentication failed''))) =
   snd (ToStatus plain_status_lib background (Some (Errorf ''reading the user'' (Sentinel ''timeout''))))"
  using unexpected_error_hidden [OF plain_status_lib_doc, of "Sentinel ''pq: password authentication failed''"
      "Errorf ''reading the user'' (Sentinel ''timeout'')" background background]
  by (simp add: unplanned_def isStatusError_def Errorf_def)

theorem domain_cause_hidden_witness:
  "snd (ToStatus plain_status_lib background (Some (DomainErr (WithCause (NotFound ''USER_NOT_FOUND'' ''no such user'') (Sentinel ''sql: no rows''))))) =
   snd (ToStatus plain_status_lib background (Some (Errorf ''handling'' (DomainErr (NotFound ''USER_NOT_FOUND'' ''no such user'')))))"
  using domain_cause_hidden [of "DomainErr (WithCause (NotFound ''USER_NOT_FOUND'' ''no such user'') (Sentinel ''sql: no rows''))" _
      "Errorf ''handling'' (DomainErr (NotFound ''USER_NOT_FOUND'' ''no such user''))" _ plain_status_lib background background]
  by simp

theorem reason_roundtrip_witness:
  "\<exists>st. snd (ToStatus plain_status_lib background (Some (DomainErr (NotFound ''USER_NOT_FOUND'' ''no such user'')))) = Some (StatusErr st)
     \<and> ReasonOf plain_status_lib (Some (StatusErr st)) = ''USER_NOT_FOUND''"
proof -
  have "SL_WithDetails plain_status_lib st info \<noteq> None" for st info by (simp add: plain_status_lib_def)
  from reason_roundtrip [OF plain_status_lib_doc _ _ this, of "DomainErr (NotFound ''USER_NOT_FOUND'' ''no such user'')" _ background]
  show ?thesis by (auto simp: NotFound_def New_def)
qed

theorem error_stays_error_witness:
  "snd (ToStatus plain_status_lib background (Some (Sentinel ''boom''))) \<noteq> None"
  using error_stays_error [OF plain_status_lib_doc, of background "Some (Sentinel ''boom'')"] by simp

end
