(* ===== verification/Outbox.thy ===== *)
theory Outbox
  imports Dizen_Errors
begin

text \<open>
  \<open>pkg/outbox\<close>: recording an event on a transaction, and the worker that publishes the
  pending events and marks them sent. The package declares what it needs as interfaces
  (\<open>Store\<close>, \<open>Inserter\<close>, \<open>Publisher\<close>); here they are records of functions on a
  world \<open>'w\<close>, which holds whatever the implementations keep. The contracts the worker
  relies on are the locales at the end, where its guarantees are proved once; the services'
  repository and the AMQP publisher interpret them.
\<close>

section \<open>Events and interfaces\<close>

definition RoutingKeyUserRegistered :: string where
  "RoutingKeyUserRegistered = ''user.registered''"

record event =
  ev_ID :: int
  ev_Aggregate :: string
  ev_AggregateID :: string
  ev_RoutingKey :: string
  ev_Payload :: bytes
  ev_Attempts :: int
  ev_LastError :: string
  ev_AvailableAt :: timestamp
  ev_CreatedAt :: timestamp

record new_event =
  ne_Aggregate :: string
  ne_AggregateID :: string
  ne_RoutingKey :: string
  ne_Payload :: bytes

record 'w store =
  st_ClaimPending :: "int \<Rightarrow> 'w \<Rightarrow> (go_error + event list) \<times> 'w"
  st_MarkPublished :: "int \<Rightarrow> 'w \<Rightarrow> go_error option \<times> 'w"
  st_Reschedule :: "int \<Rightarrow> string \<Rightarrow> timestamp \<Rightarrow> 'w \<Rightarrow> go_error option \<times> 'w"
  st_CountPending :: "'w \<Rightarrow> (go_error + int) \<times> 'w"

record 'w inserter =
  in_Insert :: "new_event \<Rightarrow> 'w \<Rightarrow> (go_error + event) \<times> 'w"

record 'w publisher =
  pub_Publish :: "string \<Rightarrow> bytes \<Rightarrow> 'w \<Rightarrow> go_error option \<times> 'w"

section \<open>Recording an event\<close>

definition ErrEmptyRoutingKey :: go_error where
  "ErrEmptyRoutingKey = Sentinel ''outbox: the routing key is empty''"

text \<open>A payload is raw JSON or a value that \<open>json.Marshal\<close> (the argument \<open>jm\<close>) serializes.\<close>

datatype 'a payload = RawMessage bytes | Value 'a

fun marshal :: "('a \<Rightarrow> go_error + bytes) \<Rightarrow> 'a payload \<Rightarrow> go_error + bytes" where
  "marshal jm (RawMessage raw) = Inr raw"
| "marshal jm (Value v) =
     (case jm v of Inl err \<Rightarrow> Inl (Errorf ''serializing the outbox payload'' err) | Inr raw \<Rightarrow> Inr raw)"

definition PublishFor ::
  "('a \<Rightarrow> go_error + bytes) \<Rightarrow> 'w inserter \<Rightarrow> string \<Rightarrow> string \<Rightarrow> string \<Rightarrow> 'a payload \<Rightarrow> 'w \<Rightarrow> go_error option \<times> 'w" where
  "PublishFor jm ins aggregate aggregateID routingKey payload w =
     (if routingKey = '''' then (Some ErrEmptyRoutingKey, w)
      else (case marshal jm payload of
              Inl err \<Rightarrow> (Some err, w)
            | Inr raw \<Rightarrow>
                (case in_Insert ins \<lparr>ne_Aggregate = aggregate, ne_AggregateID = aggregateID,
                                     ne_RoutingKey = routingKey, ne_Payload = raw\<rparr> w of
                   (Inl err, w') \<Rightarrow> (Some (Errorf (''recording the outbox event '' @ quote routingKey) err), w')
                 | (Inr _, w') \<Rightarrow> (None, w'))))"

definition Publish ::
  "('a \<Rightarrow> go_error + bytes) \<Rightarrow> 'w inserter \<Rightarrow> string \<Rightarrow> 'a payload \<Rightarrow> 'w \<Rightarrow> go_error option \<times> 'w" where
  "Publish jm ins routingKey payload w = PublishFor jm ins '''' '''' routingKey payload w"

section \<open>The worker\<close>

record worker_config =
  wc_PollInterval :: duration
  wc_BatchSize :: int
  wc_InitialBackoff :: duration
  wc_MaxBackoff :: duration

definition wc_withDefaults :: "worker_config \<Rightarrow> worker_config" where
  "wc_withDefaults c =
     (let c = (if wc_PollInterval c \<le> 0 then c\<lparr>wc_PollInterval := 1 * Second\<rparr> else c);
          c = (if wc_BatchSize c \<le> 0 then c\<lparr>wc_BatchSize := 100\<rparr> else c);
          c = (if wc_InitialBackoff c \<le> 0 then c\<lparr>wc_InitialBackoff := 5 * Second\<rparr> else c);
          c = (if wc_MaxBackoff c \<le> 0 then c\<lparr>wc_MaxBackoff := 5 * Minute\<rparr> else c)
      in c)"

record 'w worker =
  wk_store :: "'w store"
  wk_publisher :: "'w publisher"
  wk_cfg :: worker_config
  wk_now :: "'w \<Rightarrow> timestamp"

definition NewWorker :: "'w store \<Rightarrow> 'w publisher \<Rightarrow> worker_config \<Rightarrow> ('w \<Rightarrow> timestamp) \<Rightarrow> 'w worker" where
  "NewWorker s p cfg now =
     \<lparr>wk_store = s, wk_publisher = p, wk_cfg = wc_withDefaults cfg, wk_now = now\<rparr>"

text \<open>
  The context and the timer: \<open>env_Err\<close> is \<open>ctx.Err()\<close>, \<open>env_wait d\<close> what
  happens while the loop waits for the poll interval or the cancellation.
\<close>

record 'w env =
  env_Err :: "'w \<Rightarrow> go_error option"
  env_wait :: "duration \<Rightarrow> 'w \<Rightarrow> 'w"

definition outbox_backoffFor :: "int \<Rightarrow> duration \<Rightarrow> duration \<Rightarrow> duration" where
  "outbox_backoffFor attempt initial maximum =
     (if attempt \<le> 1 then initial
      else backoff_loop (nat (wrap32 (attempt - 1))) initial maximum)"

definition reschedule :: "'w worker \<Rightarrow> event \<Rightarrow> go_error \<Rightarrow> 'w \<Rightarrow> 'w" where
  "reschedule wk e cause w =
     (let delay = outbox_backoffFor (wrap32 (ev_Attempts e + 1))
                    (wc_InitialBackoff (wk_cfg wk)) (wc_MaxBackoff (wk_cfg wk));
          retryAt = wk_now wk w + delay
      in snd (st_Reschedule (wk_store wk) (ev_ID e) (err_text cause) retryAt w))"

definition publishOne :: "'w worker \<Rightarrow> event \<Rightarrow> 'w \<Rightarrow> bool \<times> 'w" where
  "publishOne wk e w =
     (case pub_Publish (wk_publisher wk) (ev_RoutingKey e) (ev_Payload e) w of
        (Some err, w1) \<Rightarrow> (False, reschedule wk e err w1)
      | (None, w1) \<Rightarrow> (True, snd (st_MarkPublished (wk_store wk) (ev_ID e) w1)))"

fun process_events :: "'w worker \<Rightarrow> 'w env \<Rightarrow> event list \<Rightarrow> nat \<Rightarrow> 'w \<Rightarrow> (nat \<times> go_error option) \<times> 'w" where
  "process_events wk env [] published w = ((published, None), w)"
| "process_events wk env (e # es) published w =
     (case env_Err env w of
        Some err \<Rightarrow> ((published, Some err), w)
      | None \<Rightarrow>
          (case publishOne wk e w of
             (ok, w') \<Rightarrow> process_events wk env es (if ok then published + 1 else published) w'))"

definition ProcessBatch :: "'w worker \<Rightarrow> 'w env \<Rightarrow> 'w \<Rightarrow> (nat \<times> go_error option) \<times> 'w" where
  "ProcessBatch wk env w =
     (case st_ClaimPending (wk_store wk) (wc_BatchSize (wk_cfg wk)) w of
        (Inl err, w') \<Rightarrow> ((0, Some err), w')
      | (Inr events, w') \<Rightarrow> process_events wk env events 0 w')"

text \<open>
  \<open>Run\<close>: the loop, with a bound on the rounds; \<open>None\<close> when the bound is reached
  before the context is canceled, \<open>Some\<close> of the world it leaves when it returns (nil).
\<close>

fun Run :: "nat \<Rightarrow> 'w worker \<Rightarrow> 'w env \<Rightarrow> 'w \<Rightarrow> 'w option" where
  "Run 0 wk env w = None"
| "Run (Suc n) wk env w =
     (if env_Err env w \<noteq> None then Some w
      else (case ProcessBatch wk env w of
              ((published, err), w1) \<Rightarrow>
                if published > 0 then Run n wk env w1
                else (let w2 = env_wait env (wc_PollInterval (wk_cfg wk)) w1 in
                      if env_Err env w2 \<noteq> None then Some w2 else Run n wk env w2)))"

definition LogBacklog :: "'w worker \<Rightarrow> go_ctx \<Rightarrow> 'w \<Rightarrow> log_line list \<times> 'w" where
  "LogBacklog wk ctx w =
     (case st_CountPending (wk_store wk) w of
        (Inl err, w') \<Rightarrow> (emit (Ctx ctx) WarnLevel [] (Some err) ''could not read the outbox backlog'', w')
      | (Inr pending, w') \<Rightarrow> (emit (Ctx ctx) InfoLevel [(''pending'', Itoa pending)] None ''outbox backlog'', w'))"

section \<open>Lemmas\<close>

lemma wc_withDefaults_pos:
  "0 < wc_PollInterval (wc_withDefaults c)" "0 < wc_BatchSize (wc_withDefaults c)"
  "0 < wc_InitialBackoff (wc_withDefaults c)" "0 < wc_MaxBackoff (wc_withDefaults c)"
  by (simp_all add: wc_withDefaults_def Let_def)

lemma NewWorker_sel [simp]:
  "wk_store (NewWorker s p c now) = s" "wk_publisher (NewWorker s p c now) = p"
  "wk_cfg (NewWorker s p c now) = wc_withDefaults c" "wk_now (NewWorker s p c now) = now"
  by (simp_all add: NewWorker_def)

lemma outbox_backoffFor_closed:
  assumes "2 \<le> a" "a < 2 ^ 31" "0 \<le> i" "i < 2 ^ 62" "m \<le> 2 ^ 62"
  shows "outbox_backoffFor a i m = min m (i * 2 ^ nat (a - 1))"
  using backoff_loop_attempts [OF assms] assms(1) by (simp add: outbox_backoffFor_def)

section \<open>What the worker relies on\<close>

text \<open>
  \<open>inv\<close> is what the implementations keep of their own state, \<open>content w i\<close> the routing
  key and payload of the stored event \<open>i\<close>, \<open>marked w i\<close> whether it is recorded as
  published, \<open>taken w\<close> the messages the broker has taken responsibility for.
\<close>

locale outbox_parts =
  fixes s :: "'w store" and p :: "'w publisher"
    and inv :: "'w \<Rightarrow> bool"
    and content :: "'w \<Rightarrow> int \<Rightarrow> (string \<times> bytes) option"
    and marked :: "'w \<Rightarrow> int \<Rightarrow> bool"
    and taken :: "'w \<Rightarrow> (string \<times> bytes) set"
  assumes claim_inv: "inv w \<Longrightarrow> inv (snd (st_ClaimPending s n w))"
    and claim_frame: "inv w \<Longrightarrow> content (snd (st_ClaimPending s n w)) = content w"
      "inv w \<Longrightarrow> marked (snd (st_ClaimPending s n w)) = marked w"
      "inv w \<Longrightarrow> taken (snd (st_ClaimPending s n w)) = taken w"
    and claim_stored: "inv w \<Longrightarrow> st_ClaimPending s n w = (Inr es, w') \<Longrightarrow> e \<in> set es \<Longrightarrow>
      content w (ev_ID e) = Some (ev_RoutingKey e, ev_Payload e) \<and> \<not> marked w (ev_ID e)"
    and mark_inv: "inv w \<Longrightarrow> inv (snd (st_MarkPublished s i w))"
    and mark_frame: "inv w \<Longrightarrow> content (snd (st_MarkPublished s i w)) = content w"
      "inv w \<Longrightarrow> taken (snd (st_MarkPublished s i w)) = taken w"
    and mark_only: "inv w \<Longrightarrow> marked (snd (st_MarkPublished s i w)) j \<Longrightarrow> marked w j \<or> j = i"
    and resched_inv: "inv w \<Longrightarrow> inv (snd (st_Reschedule s i r t w))"
    and resched_frame: "inv w \<Longrightarrow> content (snd (st_Reschedule s i r t w)) = content w"
      "inv w \<Longrightarrow> marked (snd (st_Reschedule s i r t w)) = marked w"
      "inv w \<Longrightarrow> taken (snd (st_Reschedule s i r t w)) = taken w"
    and publish_inv: "inv w \<Longrightarrow> inv (snd (pub_Publish p k b w))"
    and publish_frame: "inv w \<Longrightarrow> content (snd (pub_Publish p k b w)) = content w"
      "inv w \<Longrightarrow> marked (snd (pub_Publish p k b w)) = marked w"
      "inv w \<Longrightarrow> taken w \<subseteq> taken (snd (pub_Publish p k b w))"
    and publish_nil: "inv w \<Longrightarrow> fst (pub_Publish p k b w) = None \<Longrightarrow> (k, b) \<in> taken (snd (pub_Publish p k b w))"
begin

text \<open>Every event recorded as published is one the broker has.\<close>

definition safe :: "'w \<Rightarrow> bool" where
  "safe w \<longleftrightarrow> inv w \<and> (\<forall>i. marked w i \<longrightarrow> (\<exists>m. content w i = Some m \<and> m \<in> taken w))"

lemmas part_frames = claim_frame mark_frame resched_frame publish_frame
lemmas part_invs = claim_inv mark_inv resched_inv publish_inv

lemma publishOne_safe:
  assumes "safe w" "wk_store wk = s" "wk_publisher wk = p"
    and "content w (ev_ID e) = Some (ev_RoutingKey e, ev_Payload e)"
  shows "safe (snd (publishOne wk e w)) \<and> content (snd (publishOne wk e w)) = content w"
proof -
  obtain r w1 where pub: "pub_Publish p (ev_RoutingKey e) (ev_Payload e) w = (r, w1)" by force
  have w: "inv w" "\<forall>i. marked w i \<longrightarrow> (\<exists>m. content w i = Some m \<and> m \<in> taken w)"
    using assms(1) by (auto simp: safe_def)
  have w1: "inv w1" "content w1 = content w" "marked w1 = marked w" "taken w \<subseteq> taken w1"
    "r = None \<Longrightarrow> (ev_RoutingKey e, ev_Payload e) \<in> taken w1"
    using publish_inv [OF w(1)] publish_frame [OF w(1)] publish_nil [OF w(1)] pub
    by (metis snd_conv fst_conv)+
  show ?thesis
  proof (cases r)
    case (Some err)
    with pub w w1 assms(2-) show ?thesis
      by (auto simp: publishOne_def reschedule_def safe_def Let_def resched_inv resched_frame; blast)
  next
    case None
    have "\<exists>m. content w i = Some m \<and> m \<in> taken w1"
      if "marked (snd (st_MarkPublished s (ev_ID e) w1)) i" for i
      using mark_only [OF w1(1) that] w(2) w1(3-5) assms(4) None by (metis subsetD)
    with pub w1 assms(2-) None show ?thesis
      by (simp add: publishOne_def safe_def mark_inv mark_frame)
  qed
qed

lemma process_events_safe:
  assumes "wk_store wk = s" "wk_publisher wk = p"
    and "safe w" "\<forall>e\<in>set es. content w (ev_ID e) = Some (ev_RoutingKey e, ev_Payload e)"
  shows "safe (snd (process_events wk env es n w)) \<and> content (snd (process_events wk env es n w)) = content w"
  using assms(3,4)
proof (induction es arbitrary: n w)
  case (Cons e es)
  obtain ok w' where one: "publishOne wk e w = (ok, w')" by force
  with publishOne_safe [OF Cons.prems(1) assms(1,2), of e] Cons.prems(2)
  have "safe w'" "content w' = content w" by auto
  with one Cons.IH [of w'] Cons.prems show ?case by (auto split: option.split)
qed simp

lemma ProcessBatch_safe:
  assumes "wk_store wk = s" "wk_publisher wk = p" "safe w"
  shows "safe (snd (ProcessBatch wk env w)) \<and> content (snd (ProcessBatch wk env w)) = content w"
proof -
  obtain r w' where claim: "st_ClaimPending s (wc_BatchSize (wk_cfg wk)) w = (r, w')" by force
  have inv: "inv w" using assms(3) by (simp add: safe_def)
  have w': "content w' = content w" "safe w'"
    using claim_inv [OF inv] claim_frame [OF inv] claim assms(3) by (metis snd_conv safe_def)+
  show ?thesis
  proof (cases r)
    case (Inl err)
    with claim w' assms(1) show ?thesis by (simp add: ProcessBatch_def)
  next
    case (Inr es)
    then have "\<forall>e\<in>set es. content w' (ev_ID e) = Some (ev_RoutingKey e, ev_Payload e)"
      using claim_stored [OF inv] claim w'(1) by auto
    with claim Inr w' process_events_safe [OF assms(1,2) w'(2)] assms(1) show ?thesis
      by (simp add: ProcessBatch_def)
  qed
qed

end

text \<open>The loop also needs the wait to leave the parts as they are.\<close>

locale outbox_loop = outbox_parts +
  fixes env :: "'a env"
  assumes wait_inv: "inv w \<Longrightarrow> inv (env_wait env d w)"
    and wait_frame: "content (env_wait env d w) = content w"
      "marked (env_wait env d w) = marked w" "taken (env_wait env d w) = taken w"
begin

lemma Run_safe:
  assumes "wk_store wk = s" "wk_publisher wk = p"
  shows "safe w \<Longrightarrow> Run n wk env w = Some w' \<Longrightarrow> safe w' \<and> content w' = content w"
proof (induction n arbitrary: w)
  case (Suc n)
  obtain k err w1 where batch: "ProcessBatch wk env w = ((k, err), w1)" by (metis prod.collapse)
  have w1: "safe w1" "content w1 = content w"
    using ProcessBatch_safe [OF assms Suc.prems(1), of env] by (auto simp: batch)
  let ?w2 = "env_wait env (wc_PollInterval (wk_cfg wk)) w1"
  have w2: "safe ?w2" "content ?w2 = content w"
    using w1 by (auto simp: safe_def wait_inv wait_frame)
  show ?case
    using Suc.prems w1 w2 Suc.IH [of w1] Suc.IH [of ?w2] by (auto simp: batch Let_def split: if_splits)
qed simp

end

end
