(* ===== verification/Database.thy ===== *)
theory Database
  imports Go_Prelude
begin

text \<open>
  \<open>pkg/database\<close>: the pool configuration, the start-up connection loop with its
  exponential backoff, the migrations, and the transaction helper \<open>WithTx\<close>.

  The pgx driver and golang-migrate are not part of the repository. A connection attempt, the
  cancellation of a wait and the steps of the migrator are arguments of the definitions; a
  transaction is the durable state, the working copy of the open transaction, and a script of
  what the server answers to each \<open>Begin\<close>, \<open>Commit\<close> and \<open>Rollback\<close>.
\<close>

section \<open>Configuration\<close>

record db_config =
  db_URL :: string
  db_MaxConns :: int
  db_MinConns :: int
  db_MaxConnLifetime :: duration
  db_MaxConnIdleTime :: duration
  db_HealthCheckPeriod :: duration
  db_ConnectTimeout :: duration
  db_MaxRetries :: int
  db_InitialBackoff :: duration
  db_MaxBackoff :: duration
  db_RunMigrations :: bool

definition db_ErrInvalidConfig :: go_error where
  "db_ErrInvalidConfig = Sentinel ''invalid database configuration''"

definition db_ErrUnreachable :: go_error where
  "db_ErrUnreachable = Sentinel ''the database did not answer''"

definition db_withDefaults :: "db_config \<Rightarrow> db_config" where
  "db_withDefaults c =
     (let c = (if db_MaxConns c \<le> 0 then c\<lparr>db_MaxConns := 10\<rparr> else c);
          c = (if db_MinConns c < 0 then c\<lparr>db_MinConns := 2\<rparr> else c);
          c = (if db_MaxConnLifetime c \<le> 0 then c\<lparr>db_MaxConnLifetime := 30 * Minute\<rparr> else c);
          c = (if db_MaxConnIdleTime c \<le> 0 then c\<lparr>db_MaxConnIdleTime := 5 * Minute\<rparr> else c);
          c = (if db_HealthCheckPeriod c \<le> 0 then c\<lparr>db_HealthCheckPeriod := 1 * Minute\<rparr> else c);
          c = (if db_ConnectTimeout c \<le> 0 then c\<lparr>db_ConnectTimeout := 5 * Second\<rparr> else c);
          c = (if db_MaxRetries c \<le> 0 then c\<lparr>db_MaxRetries := 10\<rparr> else c);
          c = (if db_InitialBackoff c \<le> 0 then c\<lparr>db_InitialBackoff := 500 * Millisecond\<rparr> else c);
          c = (if db_MaxBackoff c \<le> 0 then c\<lparr>db_MaxBackoff := 30 * Second\<rparr> else c)
      in c)"

definition db_Validate :: "db_config \<Rightarrow> go_error option" where
  "db_Validate c =
     (if db_URL c = '''' then Some (Wrapped (err_text db_ErrInvalidConfig @ '': DATABASE_URL is empty'') [db_ErrInvalidConfig])
      else if db_MinConns c > db_MaxConns c
      then Some (Wrapped (err_text db_ErrInvalidConfig @ '': DATABASE_MIN_CONNS ('' @ Itoa (db_MinConns c)
                 @ '') is above DATABASE_MAX_CONNS ('' @ Itoa (db_MaxConns c) @ '')'') [db_ErrInvalidConfig])
      else None)"

section \<open>Connecting\<close>

record pool_config =
  pc_MaxConns :: int
  pc_MinConns :: int
  pc_MaxConnLifetime :: duration
  pc_MaxConnIdleTime :: duration
  pc_HealthCheckPeriod :: duration
  pc_ConnectTimeout :: duration

text \<open>
  What the driver does: \<open>dr_ParseConfig\<close> the error of parsing a URL, \<open>dr_NewPool n\<close>
  and \<open>dr_Ping n\<close> the outcome of building and pinging the pool at attempt \<open>n\<close>, and
  \<open>dr_canceled n\<close> the context error when the wait after attempt \<open>n\<close> is cut short.
\<close>

record 'p driver =
  dr_ParseConfig :: "string \<Rightarrow> go_error option"
  dr_NewPool :: "int \<Rightarrow> pool_config \<Rightarrow> duration \<Rightarrow> go_error + 'p"
  dr_Ping :: "int \<Rightarrow> 'p \<Rightarrow> go_error option"
  dr_canceled :: "int \<Rightarrow> go_error option"

text \<open>
  What an attempt does that can be observed: the dial itself, a pool closed again, a wait, and
  the two log lines of the loop (attempt and \<open>max_conns\<close>; the error, attempt,
  \<open>max_attempts\<close> and \<open>retry_in\<close>).
\<close>

datatype db_event = Tried int | ClosedPool int | Slept duration
  | LogConnected int int | LogRetrying go_error int int duration

definition nextBackoff :: "duration \<Rightarrow> duration \<Rightarrow> duration" where
  "nextBackoff current maximum =
     (let next = wrap64 (current * 2) in if next > maximum then maximum else next)"

definition poolConfig :: "'p driver \<Rightarrow> db_config \<Rightarrow> go_error + pool_config" where
  "poolConfig d c =
     (case dr_ParseConfig d (db_URL c) of
        Some err \<Rightarrow> Inl (Wrapped (err_text db_ErrInvalidConfig @ '': DATABASE_URL could not be parsed: ''
                          @ err_text err) [db_ErrInvalidConfig, err])
      | None \<Rightarrow> Inr \<lparr>pc_MaxConns = db_MaxConns c, pc_MinConns = db_MinConns c,
                 pc_MaxConnLifetime = db_MaxConnLifetime c, pc_MaxConnIdleTime = db_MaxConnIdleTime c,
                 pc_HealthCheckPeriod = db_HealthCheckPeriod c, pc_ConnectTimeout = db_ConnectTimeout c\<rparr>)"

definition tryConnect :: "'p driver \<Rightarrow> int \<Rightarrow> pool_config \<Rightarrow> duration \<Rightarrow> (go_error + 'p) \<times> db_event list" where
  "tryConnect d attempt pc timeout =
     (case dr_NewPool d attempt pc timeout of
        Inl err \<Rightarrow> (Inl (Errorf ''building the pool'' err), [Tried attempt])
      | Inr pool \<Rightarrow>
          (case dr_Ping d attempt pool of
             Some err \<Rightarrow> (Inl (Errorf ''pinging the database'' err), [Tried attempt, ClosedPool attempt])
           | None \<Rightarrow> (Inr pool, [Tried attempt])))"

definition sleep :: "'p driver \<Rightarrow> int \<Rightarrow> duration \<Rightarrow> go_error option \<times> db_event list" where
  "sleep d attempt dur =
     (case dr_canceled d attempt of Some err \<Rightarrow> (Some err, []) | None \<Rightarrow> (None, [Slept dur]))"

definition unreachable :: "int \<Rightarrow> go_error \<Rightarrow> go_error" where
  "unreachable retries lastErr =
     Wrapped (err_text db_ErrUnreachable @ '' after '' @ Itoa retries @ '' attempts: '' @ err_text lastErr)
       [db_ErrUnreachable, lastErr]"

text \<open>
  The loop \<open>for attempt := 1; attempt <= cfg.MaxRetries; attempt++\<close>. Go's final error
  formats \<open>lastErr\<close>, which is nil only if the loop body never ran.
\<close>

function connect_loop ::
  "'p driver \<Rightarrow> db_config \<Rightarrow> pool_config \<Rightarrow> int \<Rightarrow> duration \<Rightarrow> go_error \<Rightarrow> (go_error + 'p) \<times> db_event list" where
  "connect_loop d c pc attempt backoff lastErr =
     (if attempt > db_MaxRetries c then (Inl (unreachable (db_MaxRetries c) lastErr), [])
      else (case tryConnect d attempt pc (db_ConnectTimeout c) of
              (Inr pool, evs) \<Rightarrow> (Inr pool, evs @ [LogConnected attempt (db_MaxConns c)])
            | (Inl err, evs0) \<Rightarrow>
                (let evs = evs0 @ [LogRetrying err attempt (db_MaxRetries c) backoff] in
                 if attempt = db_MaxRetries c then (Inl (unreachable (db_MaxRetries c) err), evs)
                 else (case sleep d attempt backoff of
                         (Some cerr, evs2) \<Rightarrow> (Inl cerr, evs @ evs2)
                       | (None, evs2) \<Rightarrow>
                           (case connect_loop d c pc (attempt + 1) (nextBackoff backoff (db_MaxBackoff c)) err of
                              (r, evs3) \<Rightarrow> (r, evs @ evs2 @ evs3))))))"
  by pat_completeness auto
termination
  by (relation "measure (\<lambda>(d, c, pc, attempt, backoff, lastErr). nat (db_MaxRetries c + 1 - attempt))") auto

declare connect_loop.simps [simp del]

definition db_Connect :: "'p driver \<Rightarrow> db_config \<Rightarrow> (go_error + 'p) \<times> db_event list" where
  "db_Connect d cfg =
     (let c = db_withDefaults cfg in
      case db_Validate c of
        Some err \<Rightarrow> (Inl err, [])
      | None \<Rightarrow>
          (case poolConfig d c of
             Inl err \<Rightarrow> (Inl err, [])
           | Inr pc \<Rightarrow> connect_loop d c pc 1 (db_InitialBackoff c) (Sentinel ''<nil>'')))"

section \<open>Migrations\<close>

definition ErrMigration :: go_error where "ErrMigration = Sentinel ''migration failed''"
definition ErrNilVersion :: go_error where "ErrNilVersion = Sentinel ''no migration''"
definition ErrNoChange :: go_error where "ErrNoChange = Sentinel ''no change''"

text \<open>
  \<open>mg_source\<close> is the error of reading the embedded files under a path, \<open>mg_open\<close>
  the error of building the migrator for a connection string,
  \<open>mg_Version\<close> the version, the dirty flag and the error, \<open>mg_Up\<close> and
  \<open>mg_Steps\<close> the schema after migrating and the error, \<open>mg_Close\<close> the errors of
  closing the source and the connection. The events are the log lines and the close itself.
\<close>

record 's migrator =
  mg_source :: "string \<Rightarrow> go_error option"
  mg_open :: "string \<Rightarrow> go_error option"
  mg_Version :: "'s \<Rightarrow> nat \<times> bool \<times> go_error option"
  mg_Up :: "'s \<Rightarrow> go_error option \<times> 's"
  mg_Steps :: "int \<Rightarrow> 's \<Rightarrow> go_error option \<times> 's"
  mg_Close :: "go_error option \<times> go_error option"

datatype mg_event = MigratorClosed | WarnSource go_error | WarnConn go_error
  | LogUpToDate nat | LogApplied nat nat

definition migration_error :: "string \<Rightarrow> go_error \<Rightarrow> go_error" where
  "migration_error context err =
     Wrapped (err_text ErrMigration @ '': '' @ context @ '': '' @ err_text err) [ErrMigration, err]"

fun cut_schemes :: "string \<Rightarrow> string list \<Rightarrow> string option" where
  "cut_schemes dsn [] = None"
| "cut_schemes dsn (scheme # schemes) =
     (case CutPrefix dsn scheme of Some after \<Rightarrow> Some after | None \<Rightarrow> cut_schemes dsn schemes)"

definition migrateDSN :: "string \<Rightarrow> string" where
  "migrateDSN dsn =
     (case cut_schemes dsn [''postgres://'', ''postgresql://''] of
        Some after \<Rightarrow> ''pgx5'' @ ''://'' @ after
      | None \<Rightarrow> dsn)"

definition newMigrator :: "'s migrator \<Rightarrow> string \<Rightarrow> string \<Rightarrow> go_error option" where
  "newMigrator mg dsn path =
     (case mg_source mg path of
        Some err \<Rightarrow> Some (migration_error (''reading the embedded migrations at '' @ quote path) err)
      | None \<Rightarrow> map_option (migration_error ''building the migrator'') (mg_open mg (migrateDSN dsn)))"

definition closeMigrator :: "'s migrator \<Rightarrow> mg_event list" where
  "closeMigrator mg =
     (case mg_Close mg of (sourceErr, dbErr) \<Rightarrow>
        [MigratorClosed]
        @ (case sourceErr of Some e \<Rightarrow> [WarnSource e] | None \<Rightarrow> [])
        @ (case dbErr of Some e \<Rightarrow> [WarnConn e] | None \<Rightarrow> []))"

definition migrate_up :: "'s migrator \<Rightarrow> 's \<Rightarrow> go_error option \<times> 's \<times> mg_event list" where
  "migrate_up mg s =
     (case mg_Version mg s of (before, dirty, verr) \<Rightarrow>
        if (case verr of None \<Rightarrow> False | Some e \<Rightarrow> \<not> errors_Is e ErrNilVersion)
        then (map_option (migration_error ''reading the current version'') verr, s, [])
        else if dirty
        then (Some (Wrapped (err_text ErrMigration @ '': the schema is marked dirty at version ''
                @ Itoa (int before) @ '' and needs manual repair'') [ErrMigration]), s, [])
        else (case mg_Up mg s of
                (Some e, s') \<Rightarrow>
                  if errors_Is e ErrNoChange then (None, s', [LogUpToDate before])
                  else (Some (migration_error ''applying migrations'' e), s', [])
              | (None, s') \<Rightarrow>
                  (case mg_Version mg s' of
                     (after, _, Some e) \<Rightarrow> (Some (migration_error ''reading the resulting version'' e), s', [])
                   | (after, _, None) \<Rightarrow> (None, s', [LogApplied before after]))))"

definition Migrate :: "'s migrator \<Rightarrow> string \<Rightarrow> string \<Rightarrow> 's \<Rightarrow> go_error option \<times> 's \<times> mg_event list" where
  "Migrate mg dsn path s =
     (case newMigrator mg dsn path of
        Some err \<Rightarrow> (Some err, s, [])
      | None \<Rightarrow> (case migrate_up mg s of (r, s', evs) \<Rightarrow> (r, s', evs @ closeMigrator mg)))"

definition MigrateDown :: "'s migrator \<Rightarrow> string \<Rightarrow> string \<Rightarrow> int \<Rightarrow> 's \<Rightarrow> go_error option \<times> 's \<times> mg_event list" where
  "MigrateDown mg dsn path steps s =
     (case newMigrator mg dsn path of
        Some err \<Rightarrow> (Some err, s, [])
      | None \<Rightarrow>
          (case mg_Steps mg (- steps) s of
             (Some e, s') \<Rightarrow>
               if errors_Is e ErrNoChange then (None, s', closeMigrator mg)
               else (Some (migration_error (''rolling back '' @ Itoa steps @ '' steps'') e), s', closeMigrator mg)
           | (None, s') \<Rightarrow> (None, s', closeMigrator mg)))"

section \<open>Transactions\<close>

definition ErrTxClosed :: go_error where "ErrTxClosed = Sentinel ''tx is closed''"

text \<open>
  What the server answers: success, a failure with nothing done, or a failure reported after
  the work was done (the reply was lost).
\<close>

datatype reply = Ok | Fail go_error | FailApplied go_error

record 'd txdb =
  durable :: 'd
  working :: "'d option"
  tx_script :: "reply list"

definition next_reply :: "'d txdb \<Rightarrow> reply \<times> 'd txdb" where
  "next_reply t =
     (case tx_script t of [] \<Rightarrow> (Ok, t) | r # rs \<Rightarrow> (r, t\<lparr>tx_script := rs\<rparr>))"

definition tx_Begin :: "'d txdb \<Rightarrow> go_error option \<times> 'd txdb" where
  "tx_Begin t =
     (case next_reply t of
        (Ok, t') \<Rightarrow> (None, t'\<lparr>working := Some (durable t')\<rparr>)
      | (Fail e, t') \<Rightarrow> (Some e, t')
      | (FailApplied e, t') \<Rightarrow> (Some e, t'))"

definition tx_Commit :: "'d txdb \<Rightarrow> go_error option \<times> 'd txdb" where
  "tx_Commit t =
     (case working t of
        None \<Rightarrow> (Some ErrTxClosed, t)
      | Some d \<Rightarrow>
          (case next_reply t of
             (Ok, t') \<Rightarrow> (None, t'\<lparr>durable := d, working := None\<rparr>)
           | (Fail e, t') \<Rightarrow> (Some e, t'\<lparr>working := None\<rparr>)
           | (FailApplied e, t') \<Rightarrow> (Some e, t'\<lparr>durable := d, working := None\<rparr>)))"

definition tx_Rollback :: "'d txdb \<Rightarrow> go_error option \<times> 'd txdb" where
  "tx_Rollback t =
     (case working t of
        None \<Rightarrow> (Some ErrTxClosed, t)
      | Some d \<Rightarrow>
          (case next_reply t of
             (Ok, t') \<Rightarrow> (None, t'\<lparr>working := None\<rparr>)
           | (Fail e, t') \<Rightarrow> (Some e, t'\<lparr>working := None\<rparr>)
           | (FailApplied e, t') \<Rightarrow> (Some e, t'\<lparr>working := None\<rparr>)))"

datatype fn_out = FnNil | FnErr go_error | FnPanic string

datatype tx_result = Returned "go_error option" | Panicked string

text \<open>The deferred function of \<open>WithTx\<close> for a non-nil \<open>err\<close>.\<close>

definition tx_deferred :: "go_error \<Rightarrow> 'd txdb \<Rightarrow> tx_result \<times> 'd txdb" where
  "tx_deferred err t =
     (case tx_Rollback t of
        (None, t') \<Rightarrow> (Returned (Some err), t')
      | (Some re, t') \<Rightarrow>
          (Returned (Some (if errors_Is re ErrTxClosed then err
             else Wrapped (err_text err @ '' (rollback also failed: '' @ err_text re @ '')'') [err, re])), t'))"

definition WithTx :: "('d \<Rightarrow> fn_out \<times> 'd) \<Rightarrow> 'd txdb \<Rightarrow> tx_result \<times> 'd txdb" where
  "WithTx fn t =
     (case tx_Begin t of
        (Some e, t1) \<Rightarrow> (Returned (Some (Errorf ''beginning the transaction'' e)), t1)
      | (None, t1) \<Rightarrow>
          (case fn (case working t1 of None \<Rightarrow> durable t1 | Some d \<Rightarrow> d) of
             (out, d') \<Rightarrow>
               (let t2 = t1\<lparr>working := Some d'\<rparr> in
                case out of
                  FnPanic r \<Rightarrow> (Panicked r, snd (tx_Rollback t2))
                | FnErr e \<Rightarrow> tx_deferred e t2
                | FnNil \<Rightarrow>
                    (case tx_Commit t2 of
                       (None, t3) \<Rightarrow> (Returned None, t3)
                     | (Some e, t3) \<Rightarrow> tx_deferred (Errorf ''committing the transaction'' e) t3))))"

section \<open>Lemmas: the connection loop\<close>

fun sleeps :: "db_event list \<Rightarrow> duration list" where
  "sleeps [] = []"
| "sleeps (Slept t # es) = t # sleeps es"
| "sleeps (_ # es) = sleeps es"

fun tries :: "db_event list \<Rightarrow> int list" where
  "tries [] = []"
| "tries (Tried a # es) = a # tries es"
| "tries (_ # es) = tries es"

lemma sleeps_append [simp]: "sleeps (xs @ ys) = sleeps xs @ sleeps ys"
  by (induction xs rule: sleeps.induct) simp_all

lemma tries_append [simp]: "tries (xs @ ys) = tries xs @ tries ys"
  by (induction xs rule: tries.induct) simp_all

definition dialled :: "'p driver \<Rightarrow> db_config \<Rightarrow> pool_config \<Rightarrow> int \<Rightarrow> go_error + 'p" where
  "dialled d c pc n = fst (tryConnect d n pc (db_ConnectTimeout c))"

lemma tryConnect_events:
  "tries (snd (tryConnect d n pc t)) = [n]" "sleeps (snd (tryConnect d n pc t)) = []"
  by (auto simp: tryConnect_def split: sum.split option.split)

lemma nextBackoff_eq:
  "0 \<le> b \<Longrightarrow> b < 2 ^ 62 \<Longrightarrow> nextBackoff b m = min m (2 * b)"
  by (simp add: nextBackoff_def in_i64_def Let_def)

lemma nextBackoff_iterate:
  assumes "0 < b" "b < 2 ^ 62" "0 < m" "m < 2 ^ 62"
  shows "((\<lambda>b. nextBackoff b m) ^^ i) b = (if i = 0 then b else min m (b * 2 ^ i))"
proof (induction i)
  case 0
  then show ?case by simp
next
  case (Suc i)
  let ?x = "((\<lambda>b. nextBackoff b m) ^^ i) b"
  have x: "0 < ?x" "?x < 2 ^ 62" using Suc.IH assms by auto
  then have "((\<lambda>b. nextBackoff b m) ^^ Suc i) b = min m (2 * ?x)" by (simp add: nextBackoff_eq)
  also have "\<dots> = min m (b * 2 ^ Suc i)" using Suc.IH assms by (cases "i = 0") (auto simp: min_def)
  finally show ?case by simp
qed

text \<open>The loop unfolded once, by what the attempt and the wait after it give.\<close>

lemma connect_loop_unfold:
  assumes "a \<le> db_MaxRetries c"
  shows "dialled d c pc a = Inr p \<Longrightarrow>
      \<exists>evs. connect_loop d c pc a b le = (Inr p, evs) \<and> tries evs = [a] \<and> sleeps evs = []"
    and "dialled d c pc a = Inl e \<Longrightarrow> a = db_MaxRetries c \<Longrightarrow>
      \<exists>evs. connect_loop d c pc a b le = (Inl (unreachable a e), evs) \<and> tries evs = [a] \<and> sleeps evs = []"
    and "dialled d c pc a = Inl e \<Longrightarrow> a < db_MaxRetries c \<Longrightarrow> dr_canceled d a = Some ce \<Longrightarrow>
      \<exists>evs. connect_loop d c pc a b le = (Inl ce, evs) \<and> tries evs = [a] \<and> sleeps evs = []"
    and "dialled d c pc a = Inl e \<Longrightarrow> a < db_MaxRetries c \<Longrightarrow> dr_canceled d a = None \<Longrightarrow>
      \<exists>evs. connect_loop d c pc a b le =
          (fst (connect_loop d c pc (a + 1) (nextBackoff b (db_MaxBackoff c)) e),
           evs @ snd (connect_loop d c pc (a + 1) (nextBackoff b (db_MaxBackoff c)) e))
        \<and> tries evs = [a] \<and> sleeps evs = [b]"
proof -
  obtain evs where "tryConnect d a pc (db_ConnectTimeout c) = (dialled d c pc a, evs)"
    "tries evs = [a]" "sleeps evs = []"
    by (metis dialled_def prod.collapse tryConnect_events)
  note unfold = connect_loop.simps [of d c pc a b le] this assms leD [OF assms]
  show "dialled d c pc a = Inr p \<Longrightarrow>
      \<exists>evs. connect_loop d c pc a b le = (Inr p, evs) \<and> tries evs = [a] \<and> sleeps evs = []"
    by (simp add: unfold)
  show "dialled d c pc a = Inl e \<Longrightarrow> a = db_MaxRetries c \<Longrightarrow>
      \<exists>evs. connect_loop d c pc a b le = (Inl (unreachable a e), evs) \<and> tries evs = [a] \<and> sleeps evs = []"
    by (subst unfold(1)) (use unfold(2-) in auto)
  show "dialled d c pc a = Inl e \<Longrightarrow> a < db_MaxRetries c \<Longrightarrow> dr_canceled d a = Some ce \<Longrightarrow>
      \<exists>evs. connect_loop d c pc a b le = (Inl ce, evs) \<and> tries evs = [a] \<and> sleeps evs = []"
    by (simp add: unfold sleep_def)
  show "dialled d c pc a = Inl e \<Longrightarrow> a < db_MaxRetries c \<Longrightarrow> dr_canceled d a = None \<Longrightarrow>
      \<exists>evs. connect_loop d c pc a b le =
          (fst (connect_loop d c pc (a + 1) (nextBackoff b (db_MaxBackoff c)) e),
           evs @ snd (connect_loop d c pc (a + 1) (nextBackoff b (db_MaxBackoff c)) e))
        \<and> tries evs = [a] \<and> sleeps evs = [b]"
    by (rule exI [of _ "evs @ [LogRetrying e a (db_MaxRetries c) b, Slept b]"])
      (simp add: unfold sleep_def split: prod.split)
qed

text \<open>
  \<open>ends_at d c pc a k\<close>: the loop that starts with attempt \<open>a\<close> makes attempt \<open>k\<close> its last.
  Everything before it failed and was waited for; it succeeds, it is the last one allowed, or the
  wait after it is canceled.
\<close>

definition ends_at :: "'p driver \<Rightarrow> db_config \<Rightarrow> pool_config \<Rightarrow> int \<Rightarrow> int \<Rightarrow> bool" where
  "ends_at d c pc a k \<longleftrightarrow> a \<le> k \<and> k \<le> db_MaxRetries c
     \<and> (\<forall>i. a \<le> i \<and> i < k \<longrightarrow> (\<exists>e. dialled d c pc i = Inl e) \<and> dr_canceled d i = None)
     \<and> ((\<exists>p. dialled d c pc k = Inr p) \<or> k = db_MaxRetries c \<or> dr_canceled d k \<noteq> None)"

definition ending :: "'p driver \<Rightarrow> db_config \<Rightarrow> pool_config \<Rightarrow> int \<Rightarrow> go_error + 'p" where
  "ending d c pc k = (case dialled d c pc k of
       Inr p \<Rightarrow> Inr p
     | Inl e \<Rightarrow> if k = db_MaxRetries c then Inl (unreachable k e) else Inl (the (dr_canceled d k)))"

lemma ends_here:
  "a \<le> db_MaxRetries c \<Longrightarrow> (\<exists>p. dialled d c pc a = Inr p) \<or> a = db_MaxRetries c \<or> dr_canceled d a \<noteq> None \<Longrightarrow> ends_at d c pc a a"
  by (auto simp: ends_at_def)

lemma ends_later:
  "dialled d c pc a = Inl e \<Longrightarrow> dr_canceled d a = None \<Longrightarrow> ends_at d c pc (a + 1) k \<Longrightarrow> ends_at d c pc a k"
  unfolding ends_at_def by (smt (verit, best))

lemma connect_loop_ends:
  "a \<le> db_MaxRetries c \<Longrightarrow>
   \<exists>k evs. ends_at d c pc a k \<and> connect_loop d c pc a b le = (ending d c pc k, evs) \<and> tries evs = [a..k]
     \<and> sleeps evs = map (\<lambda>i. ((\<lambda>b. nextBackoff b (db_MaxBackoff c)) ^^ i) b) [0..<nat (k - a)]"
proof (induction d c pc a b le rule: connect_loop.induct)
  case (1 d c pc a b le)
  note unfold = connect_loop_unfold [OF "1.prems", of d pc]
  consider (up) p where "dialled d c pc a = Inr p" | (last) e where "dialled d c pc a = Inl e" "a = db_MaxRetries c"
    | (canceled) e ce where "dialled d c pc a = Inl e" "a < db_MaxRetries c" "dr_canceled d a = Some ce"
    | (again) e where "dialled d c pc a = Inl e" "a < db_MaxRetries c" "dr_canceled d a = None"
    using "1.prems" by (cases "dialled d c pc a"; cases "dr_canceled d a") force+
  then show ?case
  proof cases
    case up
    then show ?thesis using unfold(1) [OF up, of b le] ends_here [OF "1.prems", of d pc] by (auto intro!: exI [of _ a] simp: ending_def)
  next
    case last
    then show ?thesis using unfold(2) [OF last, of b le] ends_here [OF "1.prems", of d pc] by (auto intro!: exI [of _ a] simp: ending_def)
  next
    case canceled
    then show ?thesis using unfold(3) [OF canceled, of b le] ends_here [OF "1.prems", of d pc] by (auto intro!: exI [of _ a] simp: ending_def)
  next
    case again
    let ?b = "nextBackoff b (db_MaxBackoff c)"
    obtain evs0 where dial: "tryConnect d a pc (db_ConnectTimeout c) = (Inl e, evs0)"
      using again(1) by (metis dialled_def prod.collapse)
    have "\<exists>k evs. ends_at d c pc (a + 1) k \<and> connect_loop d c pc (a + 1) ?b e = (ending d c pc k, evs) \<and> tries evs = [a + 1..k]
        \<and> sleeps evs = map (\<lambda>i. ((\<lambda>b. nextBackoff b (db_MaxBackoff c)) ^^ i) ?b) [0..<nat (k - (a + 1))]"
      using "1.IH" [OF _ dial [symmetric]] again by (simp add: sleep_def)
    then obtain k evs where k: "ends_at d c pc (a + 1) k" "connect_loop d c pc (a + 1) ?b e = (ending d c pc k, evs)" "tries evs = [a + 1..k]"
      "sleeps evs = map (\<lambda>i. ((\<lambda>b. nextBackoff b (db_MaxBackoff c)) ^^ i) ?b) [0..<nat (k - (a + 1))]"
      by blast
    obtain evs1 where run: "connect_loop d c pc a b le = (ending d c pc k, evs1 @ evs)" "tries evs1 = [a]" "sleeps evs1 = [b]"
      using unfold(4) [OF again, of b le] k(2) by auto
    have "a < k" using k(1) by (simp add: ends_at_def)
    then have "nat (k - a) = Suc (nat (k - (a + 1)))" by simp
    then have "sleeps (evs1 @ evs) = map (\<lambda>i. ((\<lambda>b. nextBackoff b (db_MaxBackoff c)) ^^ i) b) [0..<nat (k - a)]"
      using k(4) run(3) by (simp add: map_upt_Suc funpow_Suc_right del: upt_Suc funpow.simps)
    moreover have "tries (evs1 @ evs) = [a..k]" using k(3) run(2) \<open>a < k\<close> by (simp add: upto.simps [of a k])
    ultimately show ?thesis using run(1) ends_later [OF again(1,3) k(1)] by blast
  qed
qed

section \<open>Lemmas: defaults\<close>

lemmas db_withDefaults_simps = db_withDefaults_def Let_def

lemma db_withDefaults_pos:
  "0 < db_MaxConns (db_withDefaults c)" "0 \<le> db_MinConns (db_withDefaults c)"
  "0 < db_MaxConnLifetime (db_withDefaults c)" "0 < db_MaxConnIdleTime (db_withDefaults c)"
  "0 < db_HealthCheckPeriod (db_withDefaults c)" "0 < db_ConnectTimeout (db_withDefaults c)"
  "0 < db_MaxRetries (db_withDefaults c)" "0 < db_InitialBackoff (db_withDefaults c)"
  "0 < db_MaxBackoff (db_withDefaults c)"
  by (simp_all add: db_withDefaults_simps)

lemma db_withDefaults_id:
  "0 < db_MaxConns c \<Longrightarrow> 0 \<le> db_MinConns c \<Longrightarrow> 0 < db_MaxConnLifetime c \<Longrightarrow> 0 < db_MaxConnIdleTime c
   \<Longrightarrow> 0 < db_HealthCheckPeriod c \<Longrightarrow> 0 < db_ConnectTimeout c \<Longrightarrow> 0 < db_MaxRetries c
   \<Longrightarrow> 0 < db_InitialBackoff c \<Longrightarrow> 0 < db_MaxBackoff c \<Longrightarrow> db_withDefaults c = c"
  by (simp add: db_withDefaults_simps)

lemma db_withDefaults_keeps:
  "db_URL (db_withDefaults c) = db_URL c"
  "0 < db_MaxRetries c \<Longrightarrow> db_MaxRetries (db_withDefaults c) = db_MaxRetries c"
  "0 < db_MaxConns c \<Longrightarrow> db_MaxConns (db_withDefaults c) = db_MaxConns c"
  by (simp_all add: db_withDefaults_simps)

section \<open>Lemmas: transactions\<close>

lemma next_reply_frame [simp]:
  "durable (snd (next_reply t)) = durable t" "working (snd (next_reply t)) = working t"
  by (simp_all add: next_reply_def split: list.split)

lemma next_reply_cases [go_result]:
  "next_reply t = (r, t') \<Longrightarrow> durable t' = durable t \<and> working t' = working t"
  using next_reply_frame [of t] by simp

lemma tx_Rollback_frame:
  "durable (snd (tx_Rollback t)) = durable t" "working (snd (tx_Rollback t)) = None"
  by (auto simp: tx_Rollback_def dest!: go_result split: option.split prod.split reply.split)

lemma tx_deferred_returns:
  "\<exists>e t'. tx_deferred err t = (Returned (Some e), t') \<and> durable t' = durable t \<and> working t' = None
     \<and> (e = err \<or> (\<exists>text re. e = Wrapped text [err, re]))"
  using tx_Rollback_frame [of t] by (auto simp: tx_deferred_def split: option.split prod.split)

lemma tx_Commit_cases:
  assumes "working t = Some d"
  obtains (committed) t' where "tx_Commit t = (None, t')" "durable t' = d" "working t' = None"
    | (failed) e t' where "tx_Commit t = (Some e, t')" "durable t' = durable t" "working t' = None"
    | (lost) e t' where "tx_Commit t = (Some e, t')" "durable t' = d" "working t' = None"
        "FailApplied e \<in> set (tx_script t)"
proof -
  obtain r t' where r: "next_reply t = (r, t')" by force
  then have "durable t' = durable t" "r = FailApplied e \<Longrightarrow> FailApplied e \<in> set (tx_script t)" for e
    using next_reply_cases [OF r] by (auto simp: next_reply_def split: list.splits)
  then show thesis
    using assms r that by (cases r) (auto simp: tx_Commit_def)
qed

lemma WithTx_Begin_fails:
  "fst (tx_Begin t) = Some e \<Longrightarrow>
   WithTx fn t = (Returned (Some (Errorf ''beginning the transaction'' e)), snd (tx_Begin t))
   \<and> durable (snd (tx_Begin t)) = durable t \<and> working (snd (tx_Begin t)) = working t"
  by (auto simp: WithTx_def tx_Begin_def dest!: go_result split: prod.splits reply.splits)

text \<open>Once begun, the run is the function on the durable state and then one of three ends.\<close>

lemma WithTx_begun:
  assumes "fst (tx_Begin t) = None"
  obtains t2 where "durable t2 = durable t" "working t2 = Some (snd (fn (durable t)))"
    "set (tx_script t2) \<subseteq> set (tx_script t)"
    "WithTx fn t = (case fst (fn (durable t)) of
        FnPanic r \<Rightarrow> (Panicked r, snd (tx_Rollback t2))
      | FnErr e \<Rightarrow> tx_deferred e t2
      | FnNil \<Rightarrow> (case tx_Commit t2 of
                    (None, t3) \<Rightarrow> (Returned None, t3)
                  | (Some e, t3) \<Rightarrow> tx_deferred (Errorf ''committing the transaction'' e) t3))"
proof -
  obtain r t1 where r: "next_reply t = (r, t1)" by force
  then have "set (tx_script t1) \<subseteq> set (tx_script t)" by (auto simp: next_reply_def split: list.splits)
  moreover obtain out d' where "fn (durable t) = (out, d')" by force
  ultimately show thesis
    using r next_reply_cases [OF r] assms that [of "t1\<lparr>working := Some (durable t), working := Some d'\<rparr>"]
    by (cases r) (auto simp: WithTx_def tx_Begin_def Let_def)
qed

lemma WithTx_panics:
  assumes "fst (tx_Begin t) = None" "fst (fn (durable t)) = FnPanic r"
  shows "\<exists>t'. WithTx fn t = (Panicked r, t') \<and> durable t' = durable t \<and> working t' = None"
  by (rule WithTx_begun [OF assms(1), of fn]) (simp add: assms(2) tx_Rollback_frame)

lemma WithTx_errs:
  assumes "fst (tx_Begin t) = None" "fst (fn (durable t)) = FnErr e"
  shows "\<exists>e' t'. WithTx fn t = (Returned (Some e'), t') \<and> durable t' = durable t \<and> working t' = None
     \<and> (e' = e \<or> (\<exists>text re. e' = Wrapped text [e, re]))"
proof (rule WithTx_begun [OF assms(1), of fn])
  fix t2
  assume "durable t2 = durable t" and "WithTx fn t = (case fst (fn (durable t)) of
        FnPanic r \<Rightarrow> (Panicked r, snd (tx_Rollback t2))
      | FnErr e \<Rightarrow> tx_deferred e t2
      | FnNil \<Rightarrow> (case tx_Commit t2 of
                    (None, t3) \<Rightarrow> (Returned None, t3)
                  | (Some e, t3) \<Rightarrow> tx_deferred (Errorf ''committing the transaction'' e) t3))"
  then show ?thesis using tx_deferred_returns [of e t2] assms(2) by auto
qed

lemma WithTx_commits:
  assumes "fst (tx_Begin t) = None" "fst (fn (durable t)) = FnNil"
  shows "\<exists>r t'. WithTx fn t = (r, t') \<and> working t' = None \<and>
     (r = Returned None \<and> durable t' = snd (fn (durable t))
      \<or> (\<exists>e. r = Returned (Some e)) \<and> durable t' = durable t
      \<or> (\<exists>e. r = Returned (Some e)) \<and> durable t' = snd (fn (durable t))
         \<and> (\<exists>e. FailApplied e \<in> set (tx_script t)))"
proof -
  obtain t2 where t2: "durable t2 = durable t" "working t2 = Some (snd (fn (durable t)))"
    "set (tx_script t2) \<subseteq> set (tx_script t)"
    and run: "WithTx fn t = (case tx_Commit t2 of
        (None, t3) \<Rightarrow> (Returned None, t3)
      | (Some e, t3) \<Rightarrow> tx_deferred (Errorf ''committing the transaction'' e) t3)"
    by (rule WithTx_begun [OF assms(1), of fn]) (simp add: assms(2))
  note deferred = tx_deferred_returns [of "Errorf ''committing the transaction'' e" for e]
  from t2(2) show ?thesis
  proof (cases rule: tx_Commit_cases)
    case (committed t3)
    then show ?thesis by (simp add: run)
  next
    case (failed e t3)
    then show ?thesis using deferred [of e t3] t2(1) by (auto simp: run)
  next
    case (lost e t3)
    then show ?thesis using deferred [of e t3] t2(3) by (auto simp: run)
  qed
qed

section \<open>The contract of a transaction runner\<close>

text \<open>
  What the repositories rely on: a run leaves either the state it found or the one its
  function made, the latter only if the function returned nil, and always if the run did.
\<close>

locale tx_runner =
  fixes run :: "('d \<Rightarrow> fn_out \<times> 'd) \<Rightarrow> 'db \<Rightarrow> tx_result \<times> 'db"
    and committed :: "'db \<Rightarrow> 'd"
    and idle :: "'db \<Rightarrow> bool"
  assumes idle_kept: "idle t \<Longrightarrow> idle (snd (run fn t))"
    and returned_nil: "idle t \<Longrightarrow> fst (run fn t) = Returned None \<Longrightarrow>
      fst (fn (committed t)) = FnNil \<and> committed (snd (run fn t)) = snd (fn (committed t))"
    and either_state: "idle t \<Longrightarrow> committed (snd (run fn t)) = committed t
      \<or> fst (fn (committed t)) = FnNil \<and> committed (snd (run fn t)) = snd (fn (committed t))"
begin

fun run_all :: "('d \<Rightarrow> fn_out \<times> 'd) list \<Rightarrow> 'db \<Rightarrow> 'db" where
  "run_all [] t = t"
| "run_all (fn # fns) t = run_all fns (snd (run fn t))"

lemma inv_kept:
  assumes "idle t" and "I (committed t)"
    and "\<And>d d'. fn d = (FnNil, d') \<Longrightarrow> I d \<Longrightarrow> I d'"
  shows "I (committed (snd (run fn t)))"
  using either_state [OF assms(1), of fn] assms(2,3) by (metis prod.collapse)

lemma run_all_inv:
  assumes "idle t" and "I (committed t)"
    and "\<And>fn d d'. fn \<in> set fns \<Longrightarrow> fn d = (FnNil, d') \<Longrightarrow> I d \<Longrightarrow> I d'"
  shows "I (committed (run_all fns t))"
  using assms
proof (induction fns arbitrary: t)
  case (Cons fn fns)
  have "I (committed (snd (run fn t)))"
    by (rule inv_kept) (use Cons.prems in auto)
  then have "I (committed (run_all fns (snd (run fn t))))"
    by (intro Cons.IH idle_kept Cons.prems(1)) (use Cons.prems(3) in auto)
  then show ?case by simp
qed simp

end

interpretation with_tx: tx_runner WithTx durable "\<lambda>t. working t = None"
proof
  fix t :: "'d txdb" and fn :: "'d \<Rightarrow> fn_out \<times> 'd"
  assume idle: "working t = None"
  have all: "working (snd (WithTx fn t)) = None
    \<and> (fst (WithTx fn t) = Returned None \<longrightarrow>
         fst (fn (durable t)) = FnNil \<and> durable (snd (WithTx fn t)) = snd (fn (durable t)))
    \<and> (durable (snd (WithTx fn t)) = durable t
         \<or> fst (fn (durable t)) = FnNil \<and> durable (snd (WithTx fn t)) = snd (fn (durable t)))"
  proof (cases "fst (tx_Begin t)")
    case None
    then show ?thesis
      using WithTx_panics [OF None, of fn] WithTx_errs [OF None, of fn] WithTx_commits [OF None, of fn]
      by (cases "fst (fn (durable t))") fastforce+
  next
    case (Some e)
    then show ?thesis using WithTx_Begin_fails [OF Some, of fn] idle by simp
  qed
  then show "working (snd (WithTx fn t)) = None" by blast
  from all show "durable (snd (WithTx fn t)) = durable t
      \<or> fst (fn (durable t)) = FnNil \<and> durable (snd (WithTx fn t)) = snd (fn (durable t))" by blast
  assume "fst (WithTx fn t) = Returned None"
  with all show "fst (fn (durable t)) = FnNil \<and> durable (snd (WithTx fn t)) = snd (fn (durable t))" by blast
qed

section \<open>Properties\<close>

text \<open>
  C5. A transaction is atomic: after \<open>WithTx\<close>, whatever the server answers to the begin, the
  commit and the rollback, no transaction is left open and the database holds either what it
  held before or everything the function wrote; the latter only if the function returned nil,
  and certainly if \<open>WithTx\<close> returned nil. An error or a panic of the function leaves the
  database unchanged.
\<close>

theorem WithTx_atomic:
  assumes "working t = None" "WithTx fn t = (res, t')"
  shows "working t' = None
     \<and> (durable t' = durable t \<or> durable t' = snd (fn (durable t)))
     \<and> (res = Returned None \<longrightarrow> fst (fn (durable t)) = FnNil \<and> durable t' = snd (fn (durable t)))
     \<and> (fst (fn (durable t)) \<noteq> FnNil \<longrightarrow> durable t' = durable t)"
  using with_tx.idle_kept [OF assms(1), of fn] with_tx.returned_nil [OF assms(1), of fn] with_tx.either_state [OF assms(1), of fn]
  by (auto simp: assms(2))

text \<open>
  \<open>WithTx\<close> hides no failure of the function: once the transaction has begun, an error of
  the function comes back as itself or wrapped together with the rollback's error, so that
  \<open>errors.Is\<close> still finds what it found, and a panic comes back as the same panic.
\<close>

theorem WithTx_reports_failure:
  assumes "fst (tx_Begin t) = None"
  shows "(\<forall>e. fst (fn (durable t)) = FnErr e \<longrightarrow>
            (\<exists>e'. fst (WithTx fn t) = Returned (Some e') \<and> (\<forall>s. errors_Is e (Sentinel s) \<longrightarrow> errors_Is e' (Sentinel s))))
     \<and> (\<forall>r. fst (fn (durable t)) = FnPanic r \<longrightarrow> fst (WithTx fn t) = Panicked r)"
  using WithTx_errs [OF assms, of fn] WithTx_panics [OF assms, of fn] by (fastforce simp del: not_None_eq)

text \<open>
  C23. Connecting is bounded: with a valid configuration \<open>Connect\<close> makes attempts 1 to \<open>k\<close>
  for some \<open>k\<close> up to \<open>MaxRetries\<close>, every one before the last a failure, with waits between
  them that start at \<open>InitialBackoff\<close> and double up to \<open>MaxBackoff\<close>. It returns the pool of
  attempt \<open>k\<close> if that one succeeded; otherwise either \<open>k\<close> is \<open>MaxRetries\<close> and the error is
  \<open>ErrUnreachable\<close> with the last failure, or the wait after attempt \<open>k\<close> was canceled and the
  error is the context's.
\<close>

theorem Connect_bounded:
  assumes "db_Validate (db_withDefaults cfg) = None" "poolConfig d (db_withDefaults cfg) = Inr pc" "c = db_withDefaults cfg"
  shows "\<exists>k. 1 \<le> k \<and> k \<le> db_MaxRetries c \<and> tries (snd (db_Connect d cfg)) = [1..k]
     \<and> sleeps (snd (db_Connect d cfg)) = map (\<lambda>i. ((\<lambda>b. nextBackoff b (db_MaxBackoff c)) ^^ i) (db_InitialBackoff c)) [0..<nat (k - 1)]
     \<and> (\<forall>i. 1 \<le> i \<and> i < k \<longrightarrow> (\<exists>e. dialled d c pc i = Inl e) \<and> dr_canceled d i = None)
     \<and> (case dialled d c pc k of
          Inr p \<Rightarrow> fst (db_Connect d cfg) = Inr p
        | Inl e \<Rightarrow> (\<exists>err. fst (db_Connect d cfg) = Inl err
            \<and> (if k = db_MaxRetries c then errors_Is err db_ErrUnreachable \<and> errors_Is err e else dr_canceled d k = Some err)))"
proof -
  have "1 \<le> db_MaxRetries c" using db_withDefaults_pos(7) [of cfg] assms(3) by simp
  from connect_loop_ends [OF this, of d pc "db_InitialBackoff c" "Sentinel ''<nil>''"]
  obtain k evs where k: "ends_at d c pc 1 k" "db_Connect d cfg = (ending d c pc k, evs)" "tries evs = [1..k]"
    "sleeps evs = map (\<lambda>i. ((\<lambda>b. nextBackoff b (db_MaxBackoff c)) ^^ i) (db_InitialBackoff c)) [0..<nat (k - 1)]"
    using assms by (auto simp: db_Connect_def Let_def)
  have "case dialled d c pc k of
          Inr p \<Rightarrow> ending d c pc k = Inr p
        | Inl e \<Rightarrow> (\<exists>err. ending d c pc k = Inl err
            \<and> (if k = db_MaxRetries c then errors_Is err db_ErrUnreachable \<and> errors_Is err e else dr_canceled d k = Some err))"
    using k(1) by (cases "k = db_MaxRetries c") (auto simp: ends_at_def ending_def unreachable_def split: sum.split)
  then show ?thesis using k(1,3,4) unfolding k(2) fst_conv snd_conv ends_at_def by blast
qed

text \<open>
  The defaults of the database configuration: afterwards every limit, lifetime, timeout and
  retry parameter is positive, a second application changes nothing, and a value the operator
  set is kept.
\<close>

theorem db_defaults:
  "db_withDefaults (db_withDefaults c) = db_withDefaults c
   \<and> 0 < db_MaxConns (db_withDefaults c) \<and> 0 \<le> db_MinConns (db_withDefaults c)
   \<and> 0 < db_ConnectTimeout (db_withDefaults c) \<and> 0 < db_MaxRetries (db_withDefaults c)
   \<and> 0 < db_InitialBackoff (db_withDefaults c) \<and> 0 < db_MaxBackoff (db_withDefaults c)
   \<and> db_URL (db_withDefaults c) = db_URL c
   \<and> (0 < db_MaxRetries c \<longrightarrow> db_MaxRetries (db_withDefaults c) = db_MaxRetries c)
   \<and> (0 < db_MaxConns c \<longrightarrow> db_MaxConns (db_withDefaults c) = db_MaxConns c)"
proof -
  have "db_withDefaults (db_withDefaults c) = db_withDefaults c"
    using db_withDefaults_pos [of c] by (intro db_withDefaults_id)
  then show ?thesis using db_withDefaults_pos [of c] by (simp add: db_withDefaults_keeps)
qed

text \<open>
  A schema that a failed migration left dirty is never touched: \<open>Migrate\<close> returns an error
  that is \<open>ErrMigration\<close> and the schema stays as it is.
\<close>

theorem Migrate_refuses_dirty:
  assumes "mg_Version mg s = (v, True, None)"
  shows "\<exists>e evs. Migrate mg dsn path s = (Some e, s, evs) \<and> errors_Is e ErrMigration
     \<and> evs = (if newMigrator mg dsn path = None then closeMigrator mg else [])"
  using assms
  by (auto simp: Migrate_def migrate_up_def newMigrator_def migration_error_def ErrMigration_def split: option.split)

text \<open>
  Whatever happens in between, a migrator that was opened is closed exactly once and one that
  was not opened is never closed, by \<open>Migrate\<close> and by \<open>MigrateDown\<close>; the close
  decides nothing, its failures are warnings after the outcome.
\<close>

lemma count_closeMigrator: "count_list (closeMigrator mg) MigratorClosed = 1"
  by (simp add: closeMigrator_def split: prod.split option.split)

lemma migrate_up_closes_nothing: "migrate_up mg s = (r, s', evs) \<Longrightarrow> MigratorClosed \<notin> set evs"
  by (auto simp: migrate_up_def split: prod.splits option.splits if_splits)

theorem migrator_closed_once:
  "count_list (snd (snd (Migrate mg dsn path s))) MigratorClosed = (if newMigrator mg dsn path = None then 1 else 0)
   \<and> count_list (snd (snd (MigrateDown mg dsn path n s))) MigratorClosed = (if newMigrator mg dsn path = None then 1 else 0)"
  using migrate_up_closes_nothing [of mg s]
  by (auto simp: Migrate_def MigrateDown_def count_closeMigrator split: option.split prod.split)

section \<open>Witnesses\<close>

definition demo_tx :: "reply list \<Rightarrow> int txdb" where
  "demo_tx replies = \<lparr>durable = 1, working = None, tx_script = replies\<rparr>"

theorem WithTx_atomic_witness:
  "durable (snd (WithTx (\<lambda>d. (FnErr ctx_Canceled, d + 41)) (demo_tx []))) = 1
   \<and> durable (snd (WithTx (\<lambda>d. (FnNil, d + 41)) (demo_tx []))) = 42"
proof -
  have "fst (WithTx (\<lambda>d. (FnNil, d + 41)) (demo_tx [])) = Returned None"
    by (simp add: WithTx_def tx_Begin_def tx_Commit_def next_reply_def demo_tx_def Let_def)
  then show ?thesis
    using WithTx_atomic [of "demo_tx []", OF _ prod.collapse [symmetric], of "\<lambda>d. (FnErr ctx_Canceled, d + 41)"]
      WithTx_atomic [of "demo_tx []", OF _ prod.collapse [symmetric], of "\<lambda>d. (FnNil, d + 41)"]
    by (simp add: demo_tx_def)
qed

theorem WithTx_reports_failure_witness:
  "\<exists>e'. fst (WithTx (\<lambda>d. (FnErr ctx_Canceled, d)) (demo_tx [Ok, Fail ErrTxClosed])) = Returned (Some e') \<and> errors_Is e' ctx_Canceled"
  using WithTx_reports_failure [of "demo_tx [Ok, Fail ErrTxClosed]" "\<lambda>d. (FnErr ctx_Canceled, d)"]
  by (auto simp: tx_Begin_def next_reply_def demo_tx_def)

definition demo_driver :: "int \<Rightarrow> int driver" where
  "demo_driver up = \<lparr>dr_ParseConfig = \<lambda>_. None, dr_NewPool = \<lambda>n pc t. Inr n,
     dr_Ping = \<lambda>n p. if n < up then Some ctx_DeadlineExceeded else None, dr_canceled = \<lambda>_. None\<rparr>"

definition demo_dbcfg :: db_config where
  "demo_dbcfg = \<lparr>db_URL = ''postgres://localhost/dizen'', db_MaxConns = 0, db_MinConns = 0, db_MaxConnLifetime = 0,
     db_MaxConnIdleTime = 0, db_HealthCheckPeriod = 0, db_ConnectTimeout = 0, db_MaxRetries = 3, db_InitialBackoff = 0,
     db_MaxBackoff = 0, db_RunMigrations = False\<rparr>"

definition demo_pool :: pool_config where
  "demo_pool = \<lparr>pc_MaxConns = 10, pc_MinConns = 0, pc_MaxConnLifetime = 30 * Minute, pc_MaxConnIdleTime = 5 * Minute,
     pc_HealthCheckPeriod = Minute, pc_ConnectTimeout = 5 * Second\<rparr>"

lemma demo_connects:
  "db_Validate (db_withDefaults demo_dbcfg) = None" "poolConfig (demo_driver up) (db_withDefaults demo_dbcfg) = Inr demo_pool"
  "db_MaxRetries (db_withDefaults demo_dbcfg) = 3"
  by (simp_all add: db_Validate_def poolConfig_def db_withDefaults_def Let_def demo_dbcfg_def demo_driver_def demo_pool_def)

definition demo_down :: "int driver" where
  "demo_down = (demo_driver 0)\<lparr>dr_Ping := \<lambda>n p. Some ctx_DeadlineExceeded\<rparr>"

theorem Connect_bounded_witness:
  "tries (snd (db_Connect demo_down demo_dbcfg)) = [1, 2, 3]
   \<and> sleeps (snd (db_Connect demo_down demo_dbcfg)) = [500 * Millisecond, 1000 * Millisecond]
   \<and> (\<exists>e. fst (db_Connect demo_down demo_dbcfg) = Inl e \<and> errors_Is e db_ErrUnreachable)"
proof -
  let ?c = "db_withDefaults demo_dbcfg"
  have pool: "poolConfig demo_down ?c = Inr demo_pool"
    using demo_connects(2) [of 0] by (simp add: poolConfig_def demo_driver_def demo_down_def)
  have down: "dialled demo_down ?c demo_pool i = Inl (Errorf ''pinging the database'' ctx_DeadlineExceeded)" "dr_canceled demo_down i = None" for i
    by (simp_all add: dialled_def tryConnect_def demo_driver_def demo_down_def)
  have waits: "db_InitialBackoff ?c = 500 * Millisecond" "db_MaxBackoff ?c = 30 * Second"
    by (simp_all add: db_withDefaults_def Let_def demo_dbcfg_def)
  obtain k where k: "tries (snd (db_Connect demo_down demo_dbcfg)) = [1..k]" "k = 3"
      "sleeps (snd (db_Connect demo_down demo_dbcfg)) = map (\<lambda>i. ((\<lambda>b. nextBackoff b (30 * Second)) ^^ i) (500 * Millisecond)) [0..<nat (k - 1)]"
      "\<exists>e. fst (db_Connect demo_down demo_dbcfg) = Inl e \<and> errors_Is e db_ErrUnreachable"
    using Connect_bounded [OF demo_connects(1) pool refl] by (auto simp: down demo_connects waits split: if_splits)
  have "[1..3::int] = [1, 2, 3]" by code_simp
  then show ?thesis using k by (simp add: numeral_2_eq_2 nextBackoff_def in_i64_def)
qed

theorem db_defaults_witness:
  "db_MaxRetries (db_withDefaults demo_dbcfg) = 3 \<and> 0 < db_MaxConns (db_withDefaults demo_dbcfg)"
  using db_defaults [of demo_dbcfg] by (simp add: demo_dbcfg_def)

definition demo_dirty :: "nat migrator" where
  "demo_dirty = \<lparr>mg_source = \<lambda>_. None, mg_open = \<lambda>_. None, mg_Version = \<lambda>s. (s, True, None), mg_Up = \<lambda>s. (None, s + 1),
     mg_Steps = \<lambda>n s. (None, s), mg_Close = (None, Some ctx_Canceled)\<rparr>"

theorem Migrate_refuses_dirty_witness:
  "\<exists>e. Migrate demo_dirty ''postgres://localhost/dizen'' ''.'' 3 = (Some e, 3, [MigratorClosed, WarnConn ctx_Canceled])"
  using Migrate_refuses_dirty [of demo_dirty 3 3 "''postgres://localhost/dizen''" "''.''"]
  by (auto simp: demo_dirty_def newMigrator_def closeMigrator_def)

end
