(* ===== verification/Outbox_Repository.thy ===== *)
theory Outbox_Repository
  imports Outbox Database
begin

text \<open>
  The outbox table of a service and the three layers over it: the queries sqlc generated
  (\<open>internal/db/sqlc\<close>), the repository with its domain type
  (\<open>internal/repository/outbox.go\<close>) and the adapter to the interfaces of
  \<open>pkg/outbox\<close> (\<open>outbox_store.go\<close>). The five services hold the same files; the
  identity service's are the ones named here.

  Postgres is modelled as far as the queries and the migration use it: the rows of the table,
  its identity column, the clock behind \<open>now()\<close>, the rows that other sessions hold
  locked, the \<open>jsonb\<close> input function, and a script of how long each statement takes and
  what the server answers.
\<close>

section \<open>The table\<close>

record outbox_row =
  row_ID :: int
  row_Aggregate :: string
  row_AggregateID :: "string option"
  row_RoutingKey :: string
  row_Payload :: bytes
  row_PublishedAt :: "timestamp option"
  row_Attempts :: int
  row_LastError :: "string option"
  row_AvailableAt :: timestamp
  row_CreatedAt :: timestamp

record pg =
  pg_rows :: "outbox_row list"
  pg_next_id :: int
  pg_now :: timestamp
  pg_locks :: "int list" \<comment> \<open>ids of the rows other sessions hold locked\<close>
  pg_jsonb :: "bytes \<Rightarrow> bytes option" \<comment> \<open>what a jsonb column reads back, None for invalid JSON\<close>
  pg_script :: "(duration \<times> reply) list"

text \<open>One statement: the clock advances and the server answers.\<close>

definition pg_call :: "pg \<Rightarrow> reply \<times> pg" where
  "pg_call db = (case pg_script db of
     [] \<Rightarrow> (Ok, db)
   | (d, r) # rest \<Rightarrow> (r, db\<lparr>pg_now := pg_now db + max 0 d, pg_script := rest\<rparr>))"

definition pg_OutOfRange :: go_error where "pg_OutOfRange = Sentinel ''integer out of range''"
definition pg_BadLimit :: go_error where "pg_BadLimit = Sentinel ''LIMIT must not be negative''"
definition pg_BadJSON :: go_error where "pg_BadJSON = Sentinel ''invalid input syntax for type json''"

text \<open>
  A statement that changes the table: \<open>stmt\<close> computes its result on the table, or the error it
  is refused with. A statement whose reply is lost after it ran fails for the caller only.
\<close>

definition pg_write :: "(pg \<Rightarrow> go_error + 'r \<times> pg) \<Rightarrow> pg \<Rightarrow> (go_error + 'r) \<times> pg" where
  "pg_write stmt db =
     (case pg_call db of (r, db1) \<Rightarrow>
        (case r of
           Fail e \<Rightarrow> (Inl e, db1)
         | Ok \<Rightarrow> (case stmt db1 of Inl e \<Rightarrow> (Inl e, db1) | Inr (v, db2) \<Rightarrow> (Inr v, db2))
         | FailApplied e \<Rightarrow> (case stmt db1 of Inl _ \<Rightarrow> (Inl e, db1) | Inr (_, db2) \<Rightarrow> (Inl e, db2))))"

definition err_of :: "(go_error + 'a) \<times> pg \<Rightarrow> go_error option \<times> pg" where
  "err_of r = (case r of (Inl e, db) \<Rightarrow> (Some e, db) | (Inr _, db) \<Rightarrow> (None, db))"

section \<open>The generated queries\<close>

definition row_due :: "pg \<Rightarrow> outbox_row \<Rightarrow> bool" where
  "row_due db r \<longleftrightarrow> row_PublishedAt r = None \<and> row_AvailableAt r \<le> pg_now db"

definition claimable :: "pg \<Rightarrow> outbox_row list" where
  "claimable db = sort_key row_ID (filter (\<lambda>r. row_due db r \<and> row_ID r \<notin> set (pg_locks db)) (pg_rows db))"

definition ClaimPendingOutboxEvents :: "int \<Rightarrow> pg \<Rightarrow> (go_error + outbox_row list) \<times> pg" where
  "ClaimPendingOutboxEvents limit db =
     (case pg_call db of (r, db1) \<Rightarrow>
        (case r of
           Ok \<Rightarrow> if limit < 0 then (Inl pg_BadLimit, db1) else (Inr (take (nat limit) (claimable db1)), db1)
         | Fail e \<Rightarrow> (Inl e, db1)
         | FailApplied e \<Rightarrow> (Inl e, db1)))"

definition CountPendingOutboxEvents :: "pg \<Rightarrow> (go_error + int) \<times> pg" where
  "CountPendingOutboxEvents db =
     (case pg_call db of (r, db1) \<Rightarrow>
        (case r of
           Ok \<Rightarrow> (Inr (int (length (filter (\<lambda>r. row_PublishedAt r = None) (pg_rows db1)))), db1)
         | Fail e \<Rightarrow> (Inl e, db1)
         | FailApplied e \<Rightarrow> (Inl e, db1)))"

definition prunable :: "timestamp \<Rightarrow> outbox_row \<Rightarrow> bool" where
  "prunable before r = (case row_PublishedAt r of None \<Rightarrow> False | Some at \<Rightarrow> at < before)"

definition DeletePublishedOutboxEventsBefore :: "timestamp \<Rightarrow> pg \<Rightarrow> (go_error + int) \<times> pg" where
  "DeletePublishedOutboxEventsBefore before =
     pg_write (\<lambda>db. Inr (int (length (filter (prunable before) (pg_rows db))),
                         db\<lparr>pg_rows := filter (\<lambda>r. \<not> prunable before r) (pg_rows db)\<rparr>))"

record insert_params =
  ip_Aggregate :: string
  ip_AggregateID :: "string option"
  ip_RoutingKey :: string
  ip_Payload :: bytes

definition new_row :: "insert_params \<Rightarrow> bytes \<Rightarrow> pg \<Rightarrow> outbox_row" where
  "new_row arg json db =
     \<lparr>row_ID = pg_next_id db, row_Aggregate = ip_Aggregate arg, row_AggregateID = ip_AggregateID arg,
      row_RoutingKey = ip_RoutingKey arg, row_Payload = json, row_PublishedAt = None,
      row_Attempts = 0, row_LastError = None, row_AvailableAt = pg_now db, row_CreatedAt = pg_now db\<rparr>"

definition InsertOutboxEvent :: "insert_params \<Rightarrow> pg \<Rightarrow> (go_error + outbox_row) \<times> pg" where
  "InsertOutboxEvent arg =
     pg_write (\<lambda>db. case pg_jsonb db (ip_Payload arg) of
       None \<Rightarrow> Inl pg_BadJSON
     | Some json \<Rightarrow> (let row = new_row arg json db in
         Inr (row, db\<lparr>pg_rows := pg_rows db @ [row], pg_next_id := pg_next_id db + 1\<rparr>)))"

definition update_rows :: "int \<Rightarrow> (outbox_row \<Rightarrow> outbox_row) \<Rightarrow> outbox_row list \<Rightarrow> outbox_row list" where
  "update_rows i f rs = map (\<lambda>r. if row_ID r = i then f r else r) rs"

definition MarkOutboxEventPublished :: "int \<Rightarrow> pg \<Rightarrow> go_error option \<times> pg" where
  "MarkOutboxEventPublished i db0 =
     err_of (pg_write (\<lambda>db. Inr ((), db\<lparr>pg_rows :=
       update_rows i (\<lambda>r. r\<lparr>row_PublishedAt := Some (pg_now db)\<rparr>) (pg_rows db)\<rparr>)) db0)"

record resched_params =
  rp_ID :: int
  rp_LastError :: "string option"
  rp_AvailableAt :: timestamp

definition RescheduleOutboxEvent :: "resched_params \<Rightarrow> pg \<Rightarrow> go_error option \<times> pg" where
  "RescheduleOutboxEvent arg db0 =
     err_of (pg_write (\<lambda>db.
       if \<exists>r\<in>set (pg_rows db). row_ID r = rp_ID arg \<and> \<not> in_i32 (row_Attempts r + 1) then Inl pg_OutOfRange
       else Inr ((), db\<lparr>pg_rows := update_rows (rp_ID arg)
              (\<lambda>r. r\<lparr>row_Attempts := row_Attempts r + 1, row_LastError := rp_LastError arg,
                    row_AvailableAt := rp_AvailableAt arg\<rparr>) (pg_rows db)\<rparr>)) db0)"

section \<open>The repository\<close>

record outbox_event =
  oe_ID :: int
  oe_Aggregate :: string
  oe_AggregateID :: string
  oe_RoutingKey :: string
  oe_Payload :: bytes
  oe_Attempts :: int
  oe_LastError :: string
  oe_AvailableAt :: timestamp
  oe_CreatedAt :: timestamp
  oe_PublishedAt :: "timestamp option"

record new_outbox_event =
  noe_Aggregate :: string
  noe_AggregateID :: string
  noe_RoutingKey :: string
  noe_Payload :: bytes

definition Published :: "outbox_event \<Rightarrow> bool" where
  "Published e = (oe_PublishedAt e \<noteq> None)"

definition nullable :: "string \<Rightarrow> string option" where
  "nullable s = (if s = '''' then None else Some s)"

definition deref :: "string option \<Rightarrow> string" where
  "deref s = (case s of None \<Rightarrow> '''' | Some v \<Rightarrow> v)"

definition toDomain :: "outbox_row \<Rightarrow> outbox_event" where
  "toDomain row =
     \<lparr>oe_ID = row_ID row, oe_Aggregate = row_Aggregate row, oe_AggregateID = deref (row_AggregateID row),
      oe_RoutingKey = row_RoutingKey row, oe_Payload = row_Payload row, oe_Attempts = row_Attempts row,
      oe_LastError = deref (row_LastError row), oe_AvailableAt = row_AvailableAt row,
      oe_CreatedAt = row_CreatedAt row, oe_PublishedAt = row_PublishedAt row\<rparr>"

definition repo_Insert :: "new_outbox_event \<Rightarrow> pg \<Rightarrow> (go_error + outbox_event) \<times> pg" where
  "repo_Insert event db =
     (case InsertOutboxEvent \<lparr>ip_Aggregate = noe_Aggregate event, ip_AggregateID = nullable (noe_AggregateID event),
             ip_RoutingKey = noe_RoutingKey event, ip_Payload = noe_Payload event\<rparr> db of
        (Inl err, db') \<Rightarrow>
          (Inl (Errorf (''inserting the outbox event '' @ quote (noe_RoutingKey event)) err), db')
      | (Inr row, db') \<Rightarrow> (Inr (toDomain row), db'))"

definition repo_ClaimPending :: "int \<Rightarrow> pg \<Rightarrow> (go_error + outbox_event list) \<times> pg" where
  "repo_ClaimPending limit db =
     (case ClaimPendingOutboxEvents limit db of
        (Inl err, db') \<Rightarrow> (Inl (Errorf ''claiming pending outbox events'' err), db')
      | (Inr rows, db') \<Rightarrow> (Inr (map toDomain rows), db'))"

definition repo_MarkPublished :: "int \<Rightarrow> pg \<Rightarrow> go_error option \<times> pg" where
  "repo_MarkPublished i db =
     (case MarkOutboxEventPublished i db of (err, db') \<Rightarrow>
        (map_option (Errorf (''marking outbox event '' @ Itoa i @ '' as published'')) err, db'))"

definition repo_Reschedule :: "int \<Rightarrow> string \<Rightarrow> timestamp \<Rightarrow> pg \<Rightarrow> go_error option \<times> pg" where
  "repo_Reschedule i reason retryAt db =
     (case RescheduleOutboxEvent \<lparr>rp_ID = i, rp_LastError = nullable reason, rp_AvailableAt = retryAt\<rparr> db of
        (err, db') \<Rightarrow> (map_option (Errorf (''rescheduling outbox event '' @ Itoa i)) err, db'))"

definition repo_CountPending :: "pg \<Rightarrow> (go_error + int) \<times> pg" where
  "repo_CountPending db =
     (case CountPendingOutboxEvents db of
        (Inl err, db') \<Rightarrow> (Inl (Errorf ''counting pending outbox events'' err), db')
      | (Inr count, db') \<Rightarrow> (Inr count, db'))"

definition repo_DeletePublishedBefore :: "timestamp \<Rightarrow> pg \<Rightarrow> (go_error + int) \<times> pg" where
  "repo_DeletePublishedBefore before db =
     (case DeletePublishedOutboxEventsBefore before db of
        (Inl err, db') \<Rightarrow> (Inl (Errorf ''pruning published outbox events'' err), db')
      | (Inr deleted, db') \<Rightarrow> (Inr deleted, db'))"

section \<open>The adapter to pkg/outbox\<close>

definition toOutboxEvent :: "outbox_event \<Rightarrow> event" where
  "toOutboxEvent e =
     \<lparr>ev_ID = oe_ID e, ev_Aggregate = oe_Aggregate e, ev_AggregateID = oe_AggregateID e,
      ev_RoutingKey = oe_RoutingKey e, ev_Payload = oe_Payload e, ev_Attempts = oe_Attempts e,
      ev_LastError = oe_LastError e, ev_AvailableAt = oe_AvailableAt e, ev_CreatedAt = oe_CreatedAt e\<rparr>"

definition OutboxStore_Insert :: "new_event \<Rightarrow> pg \<Rightarrow> (go_error + event) \<times> pg" where
  "OutboxStore_Insert event db =
     (case repo_Insert \<lparr>noe_Aggregate = ne_Aggregate event, noe_AggregateID = ne_AggregateID event,
             noe_RoutingKey = ne_RoutingKey event, noe_Payload = ne_Payload event\<rparr> db of
        (Inl err, db') \<Rightarrow> (Inl err, db')
      | (Inr stored, db') \<Rightarrow> (Inr (toOutboxEvent stored), db'))"

definition OutboxStore_ClaimPending :: "int \<Rightarrow> pg \<Rightarrow> (go_error + event list) \<times> pg" where
  "OutboxStore_ClaimPending limit db =
     (case repo_ClaimPending limit db of
        (Inl err, db') \<Rightarrow> (Inl err, db')
      | (Inr events, db') \<Rightarrow> (Inr (map toOutboxEvent events), db'))"

definition NewOutboxStore :: "pg store" where
  "NewOutboxStore = \<lparr>st_ClaimPending = OutboxStore_ClaimPending, st_MarkPublished = repo_MarkPublished,
     st_Reschedule = repo_Reschedule, st_CountPending = repo_CountPending\<rparr>"

definition OutboxStore_inserter :: "pg inserter" where
  "OutboxStore_inserter = \<lparr>in_Insert = OutboxStore_Insert\<rparr>"

section \<open>Repositories and transactions\<close>

text \<open>
  \<open>Repository.WithTx\<close>: \<open>fn\<close> gets a repository bound to the transaction, here the
  state it works on, and returns an error value or nil.
\<close>

definition Repository_WithTx :: "(pg \<Rightarrow> fn_out \<times> pg) \<Rightarrow> pg txdb \<Rightarrow> tx_result \<times> pg txdb" where
  "Repository_WithTx fn db = WithTx fn db"

section \<open>Lemmas: one statement\<close>

lemma pg_call_frame:
  "pg_call db = (r, db1) \<Longrightarrow> pg_rows db1 = pg_rows db \<and> pg_next_id db1 = pg_next_id db
     \<and> pg_locks db1 = pg_locks db \<and> pg_jsonb db1 = pg_jsonb db \<and> pg_now db \<le> pg_now db1"
  by (auto simp: pg_call_def split: list.splits)

lemma pg_write_cases:
  assumes "pg_write stmt db = (r, db')"
  obtains (unchanged) e where "r = Inl e" "pg_rows db' = pg_rows db" "pg_next_id db' = pg_next_id db"
      "pg_jsonb db' = pg_jsonb db" "pg_locks db' = pg_locks db"
    | (done_ok) v db1 reply where "r = Inr v" "pg_call db = (reply, db1)" "stmt db1 = Inr (v, db')"
    | (done_lost) e v db1 reply where "r = Inl e" "pg_call db = (reply, db1)" "stmt db1 = Inr (v, db')"
proof -
  obtain reply db1 where call: "pg_call db = (reply, db1)" by force
  with assms that pg_call_frame [OF call] show thesis
    by (cases reply; cases "stmt db1") (auto simp: pg_write_def)
qed

text \<open>
  What the worker needs to know of the table: the content of each event, which events are
  marked, and that identifiers are unique.
\<close>

definition pg_content :: "pg \<Rightarrow> int \<Rightarrow> (string \<times> bytes) option" where
  "pg_content db i =
     map_option (\<lambda>r. (row_RoutingKey r, row_Payload r)) (find (\<lambda>r. row_ID r = i) (pg_rows db))"

definition pg_marked :: "pg \<Rightarrow> int \<Rightarrow> bool" where
  "pg_marked db i \<longleftrightarrow> (\<exists>r\<in>set (pg_rows db). row_ID r = i \<and> row_PublishedAt r \<noteq> None)"

definition pg_wf :: "pg \<Rightarrow> bool" where
  "pg_wf db \<longleftrightarrow> distinct (map row_ID (pg_rows db)) \<and> (\<forall>r\<in>set (pg_rows db). row_ID r < pg_next_id db)"

lemma find_distinct: "distinct (map f xs) \<Longrightarrow> x \<in> set xs \<Longrightarrow> find (\<lambda>y. f y = f x) xs = Some x"
  by (induction xs) (auto simp: image_iff)

lemma pg_content_row:
  "pg_wf db \<Longrightarrow> r \<in> set (pg_rows db) \<Longrightarrow> pg_content db (row_ID r) = Some (row_RoutingKey r, row_Payload r)"
  by (simp add: pg_content_def pg_wf_def find_distinct)

lemma update_rows_ids [simp]:
  "(\<And>r. row_ID (f r) = row_ID r) \<Longrightarrow> map row_ID (update_rows i f rs) = map row_ID rs"
  by (simp add: update_rows_def)

lemma find_update_rows:
  assumes "\<And>r. row_ID (f r) = row_ID r"
  shows "find (\<lambda>r. row_ID r = j) (update_rows i f rs) =
     map_option (\<lambda>r. if j = i then f r else r) (find (\<lambda>r. row_ID r = j) rs)"
  using assms by (induction rs) (auto simp: update_rows_def)

lemma update_rows_content:
  assumes "\<And>r. row_ID (f r) = row_ID r" "\<And>r. row_RoutingKey (f r) = row_RoutingKey r"
    "\<And>r. row_Payload (f r) = row_Payload r"
  shows "pg_content (db\<lparr>pg_rows := update_rows i f (pg_rows db)\<rparr>) = pg_content db"
    and "pg_wf db \<Longrightarrow> pg_wf (db\<lparr>pg_rows := update_rows i f (pg_rows db)\<rparr>)"
proof -
  show "pg_content (db\<lparr>pg_rows := update_rows i f (pg_rows db)\<rparr>) = pg_content db"
    using assms(2,3)
    by (simp add: fun_eq_iff pg_content_def find_update_rows [OF assms(1)] option.map_comp comp_def if_distrib cong: if_cong)
  have "row_ID r < n" if "r \<in> set (update_rows i f rs)" "\<forall>r\<in>set rs. row_ID r < n" for r rs n
    using that by (auto simp: update_rows_def assms(1) split: if_splits)
  then show "pg_wf db \<Longrightarrow> pg_wf (db\<lparr>pg_rows := update_rows i f (pg_rows db)\<rparr>)"
    by (auto simp: pg_wf_def assms(1))
qed

lemma update_rows_marked:
  assumes "\<And>r. row_ID (f r) = row_ID r" "\<And>r. row_PublishedAt (f r) = row_PublishedAt r"
  shows "pg_marked (db\<lparr>pg_rows := update_rows i f (pg_rows db)\<rparr>) = pg_marked db"
proof -
  have "row_ID (if row_ID r = i then f r else r) = row_ID r"
    "row_PublishedAt (if row_ID r = i then f r else r) = row_PublishedAt r" for r
    using assms by simp_all
  then show ?thesis by (simp add: fun_eq_iff pg_marked_def update_rows_def del: if_image_distrib)
qed

lemma pg_same_rows:
  "pg_rows db' = pg_rows db \<Longrightarrow> pg_content db' = pg_content db"
  "pg_rows db' = pg_rows db \<Longrightarrow> pg_marked db' = pg_marked db"
  "pg_rows db' = pg_rows db \<Longrightarrow> pg_next_id db' = pg_next_id db \<Longrightarrow> pg_wf db' = pg_wf db"
  by (auto simp: pg_content_def pg_marked_def pg_wf_def fun_eq_iff)

section \<open>Lemmas: the operations of the store\<close>

lemma toOutboxEvent_toDomain [simp]:
  "ev_ID (toOutboxEvent (toDomain r)) = row_ID r"
  "ev_RoutingKey (toOutboxEvent (toDomain r)) = row_RoutingKey r"
  "ev_Payload (toOutboxEvent (toDomain r)) = row_Payload r"
  "ev_Attempts (toOutboxEvent (toDomain r)) = row_Attempts r"
  by (simp_all add: toOutboxEvent_def toDomain_def)

lemma claim_result:
  assumes "OutboxStore_ClaimPending n db = (r, db')"
  obtains (failed) e reply where "r = Inl e" "pg_call db = (reply, db')"
    | (claimed) reply where "pg_call db = (reply, db')" "0 \<le> n"
        "r = Inr (map (\<lambda>x. toOutboxEvent (toDomain x)) (take (nat n) (claimable db')))"
proof -
  obtain reply db1 where "pg_call db = (reply, db1)" by force
  with assms that show thesis
    by (cases reply)
       (auto simp: OutboxStore_ClaimPending_def repo_ClaimPending_def ClaimPendingOutboxEvents_def comp_def
         split: if_splits)
qed

lemma claimable_rows: "x \<in> set (take k (claimable db)) \<Longrightarrow> x \<in> set (pg_rows db) \<and> row_due db x"
  by (auto simp: claimable_def dest!: in_set_takeD)

lemma err_of_pg_write:
  "err_of (pg_write stmt db) = (e, db') \<Longrightarrow> \<exists>r. pg_write stmt db = (r, db')"
  by (auto simp: err_of_def split: prod.splits sum.splits)

lemma mark_result:
  assumes "repo_MarkPublished i db = (r, db')"
  obtains (unchanged) e where "r = Some e" "pg_rows db' = pg_rows db" "pg_next_id db' = pg_next_id db"
    | (marked) db1 reply where "pg_call db = (reply, db1)"
        "db' = db1\<lparr>pg_rows := update_rows i (\<lambda>r. r\<lparr>row_PublishedAt := Some (pg_now db1)\<rparr>) (pg_rows db1)\<rparr>"
proof -
  let ?stmt = "\<lambda>db. Inr ((), db\<lparr>pg_rows := update_rows i (\<lambda>r. r\<lparr>row_PublishedAt := Some (pg_now db)\<rparr>) (pg_rows db)\<rparr>)"
  obtain v where v: "pg_write ?stmt db = (v, db')" and r: "fst (err_of (v, db')) = None \<longleftrightarrow> r = None"
    using assms by (auto simp: repo_MarkPublished_def MarkOutboxEventPublished_def err_of_def split: prod.splits sum.splits)
  from v show thesis
    by (rule pg_write_cases) (use r that in \<open>auto simp: err_of_def\<close>)
qed

lemma reschedule_result:
  assumes "repo_Reschedule i why at db = (r, db')"
  obtains (unchanged) e where "r = Some e" "pg_rows db' = pg_rows db" "pg_next_id db' = pg_next_id db"
    | (moved) db1 reply where "pg_call db = (reply, db1)"
        "db' = db1\<lparr>pg_rows := update_rows i (\<lambda>r. r\<lparr>row_Attempts := row_Attempts r + 1,
            row_LastError := nullable why, row_AvailableAt := at\<rparr>) (pg_rows db1)\<rparr>"
proof -
  let ?arg = "\<lparr>rp_ID = i, rp_LastError = nullable why, rp_AvailableAt = at\<rparr>"
  let ?stmt = "\<lambda>db. if \<exists>r\<in>set (pg_rows db). row_ID r = rp_ID ?arg \<and> \<not> in_i32 (row_Attempts r + 1) then Inl pg_OutOfRange
       else Inr ((), db\<lparr>pg_rows := update_rows (rp_ID ?arg)
              (\<lambda>r. r\<lparr>row_Attempts := row_Attempts r + 1, row_LastError := rp_LastError ?arg,
                    row_AvailableAt := rp_AvailableAt ?arg\<rparr>) (pg_rows db)\<rparr>)"
  obtain v where v: "pg_write ?stmt db = (v, db')" and r: "fst (err_of (v, db')) = None \<longleftrightarrow> r = None"
    using assms unfolding repo_Reschedule_def RescheduleOutboxEvent_def
    by (auto simp: err_of_def split: prod.splits sum.splits)
  from v show thesis
    by (rule pg_write_cases) (use r that in \<open>auto simp: err_of_def split: if_splits\<close>)
qed

lemma pg_call_kept:
  assumes "pg_call db = (reply, db1)"
  shows "pg_content db1 = pg_content db" "pg_marked db1 = pg_marked db" "pg_wf db1 = pg_wf db"
  using pg_call_frame [OF assms] by (auto intro!: pg_same_rows)

lemma mark_kept:
  assumes "repo_MarkPublished i db = (r, db')"
  shows "pg_content db' = pg_content db" and "pg_wf db \<Longrightarrow> pg_wf db'"
    and "pg_marked db' j \<Longrightarrow> pg_marked db j \<or> j = i"
  using assms
proof (atomize (full), cases rule: mark_result)
  case (unchanged e)
  then show "pg_content db' = pg_content db \<and> (pg_wf db \<longrightarrow> pg_wf db') \<and> (pg_marked db' j \<longrightarrow> pg_marked db j \<or> j = i)"
    using pg_same_rows [of db' db] by simp
next
  case (marked db1 reply)
  then have "pg_marked db' j \<Longrightarrow> pg_marked db1 j \<or> j = i"
    by (auto simp: pg_marked_def update_rows_def split: if_splits)
  with marked pg_call_kept [OF marked(1)]
  show "pg_content db' = pg_content db \<and> (pg_wf db \<longrightarrow> pg_wf db') \<and> (pg_marked db' j \<longrightarrow> pg_marked db j \<or> j = i)"
    by (auto simp: update_rows_content)
qed

lemma reschedule_kept:
  assumes "repo_Reschedule i why at db = (r, db')"
  shows "pg_content db' = pg_content db" and "pg_wf db \<Longrightarrow> pg_wf db'" and "pg_marked db' = pg_marked db"
  using assms
proof (atomize (full), cases rule: reschedule_result)
  case (unchanged e)
  then show "pg_content db' = pg_content db \<and> (pg_wf db \<longrightarrow> pg_wf db') \<and> pg_marked db' = pg_marked db"
    using pg_same_rows [of db' db] by simp
next
  case (moved db1 reply)
  then have "pg_marked db' = pg_marked db1" by (simp add: update_rows_marked)
  with moved pg_call_kept [OF moved(1)]
  show "pg_content db' = pg_content db \<and> (pg_wf db \<longrightarrow> pg_wf db') \<and> pg_marked db' = pg_marked db"
    by (auto simp: update_rows_content)
qed

lemma claim_kept:
  assumes "OutboxStore_ClaimPending n db = (r, db')"
  shows "pg_content db' = pg_content db" "pg_wf db' = pg_wf db" "pg_marked db' = pg_marked db"
  using assms by (atomize (full), cases rule: claim_result) (auto dest: pg_call_kept)

lemma claim_events:
  assumes "OutboxStore_ClaimPending n db = (Inr es, db')" "pg_wf db" "e \<in> set es"
  shows "pg_content db (ev_ID e) = Some (ev_RoutingKey e, ev_Payload e) \<and> \<not> pg_marked db (ev_ID e)"
  using assms(1)
proof (cases rule: claim_result)
  case (claimed reply)
  then obtain x where x: "e = toOutboxEvent (toDomain x)" "x \<in> set (pg_rows db)" "row_PublishedAt x = None"
    using assms(3) pg_call_frame [OF claimed(1)] by (auto dest!: claimable_rows simp: row_due_def)
  moreover have "y = x" if "y \<in> set (pg_rows db)" "row_ID y = row_ID x" for y
    using that x(2) assms(2) by (auto simp: pg_wf_def distinct_map inj_on_def)
  ultimately show ?thesis
    using pg_content_row [OF assms(2) x(2)] by (auto simp: pg_marked_def)
qed simp

section \<open>Lemmas: insertion\<close>

lemma insort_key_snoc: "f a < f x \<Longrightarrow> insort_key f a (ys @ [x]) = insort_key f a ys @ [x]"
  by (induction ys) auto

lemma sort_key_snoc: "(\<And>a. a \<in> set xs \<Longrightarrow> f a < f x) \<Longrightarrow> sort_key f (xs @ [x]) = sort_key f xs @ [x]"
  by (induction xs) (auto simp: insort_key_snoc)

lemma claimable_snoc:
  assumes "pg_wf db" "row_due db x" "row_ID x = pg_next_id db" "pg_next_id db \<notin> set (pg_locks db)"
    and "pg_now db' = pg_now db" "pg_locks db' = pg_locks db" "pg_rows db' = pg_rows db @ [x]"
  shows "claimable db' = claimable db @ [x]"
proof -
  have "row_due db' = row_due db" using assms(5) by (simp add: row_due_def fun_eq_iff)
  with assms show ?thesis by (auto simp: claimable_def pg_wf_def intro!: sort_key_snoc)
qed

section \<open>Properties\<close>

text \<open>
  C15. What a claim returns: at most \<open>limit\<close> events, in the order they were inserted, each of
  them pending, due and held by no other session; and if it returns fewer than \<open>limit\<close> events,
  it returned every such event. The claim itself changes nothing in the table.
\<close>

theorem claim_spec:
  assumes "OutboxStore_ClaimPending limit db = (Inr es, db')"
  defines "ready r \<equiv> row_due db' r \<and> row_ID r \<notin> set (pg_locks db')"
  shows "length es \<le> nat limit \<and> sorted (map ev_ID es) \<and> pg_rows db' = pg_rows db
    \<and> (\<forall>e\<in>set es. \<exists>r\<in>set (pg_rows db). ready r \<and> e = toOutboxEvent (toDomain r))
    \<and> (length es < nat limit \<longrightarrow> (\<forall>r\<in>set (pg_rows db). ready r \<longrightarrow> toOutboxEvent (toDomain r) \<in> set es))"
  using assms(1)
proof (cases rule: claim_result)
  case (claimed reply)
  have es: "es = map (\<lambda>x. toOutboxEvent (toDomain x)) (take (nat limit) (claimable db'))"
    using claimed by simp
  have rows: "pg_rows db' = pg_rows db" using pg_call_frame [OF claimed(1)] by simp
  have set: "set (claimable db') = {r \<in> set (pg_rows db). ready r}"
    by (auto simp: claimable_def rows ready_def)
  have "sorted (map row_ID (take (nat limit) (claimable db')))"
    by (simp add: claimable_def take_map [symmetric] sorted_wrt_take)
  then have "sorted (map ev_ID es)" by (simp add: es comp_def)
  moreover have "take (nat limit) (claimable db') = claimable db'" if "length es < nat limit"
    using that by (simp add: es)
  ultimately show ?thesis using set by (auto simp: es rows dest!: in_set_takeD)
qed simp

text \<open>
  A claim does not keep anything locked once it has returned: outside a transaction the row
  locks of \<open>for update\<close> end with the statement, so a second worker that claims afterwards gets
  the same events.
\<close>

theorem claim_not_exclusive:
  assumes "OutboxStore_ClaimPending limit db = (Inr es, db')" "pg_script db' = []"
  shows "OutboxStore_ClaimPending limit db' = (Inr es, db')"
  using assms(1)
proof (cases rule: claim_result)
  case (claimed reply)
  then show ?thesis
    using assms(2)
    by (simp add: OutboxStore_ClaimPending_def repo_ClaimPending_def ClaimPendingOutboxEvents_def pg_call_def)
qed simp

text \<open>
  Round trip: an event recorded with \<open>PublishFor\<close> through the store comes back from the
  next claims, after every event claimable before it, with its routing key, aggregate and
  payload (as the \<open>jsonb\<close> column renders it) and no failed attempt.
\<close>

theorem recorded_event_is_claimed:
  assumes "pg_wf db" "pg_script db = []" "pg_next_id db \<notin> set (pg_locks db)"
    and "routingKey \<noteq> ''''" "marshal jm payload = Inr raw" "pg_jsonb db raw = Some json"
    and "PublishFor jm OutboxStore_inserter aggregate aggregateID routingKey payload db = (res, db')"
    and "int (length (claimable db)) < limit"
  shows "\<exists>e. OutboxStore_ClaimPending limit db' =
       (Inr (map (\<lambda>r. toOutboxEvent (toDomain r)) (claimable db) @ [e]), db')
     \<and> res = None \<and> ev_ID e = pg_next_id db \<and> ev_RoutingKey e = routingKey \<and> ev_Payload e = json
     \<and> ev_Aggregate e = aggregate \<and> ev_AggregateID e = aggregateID \<and> ev_Attempts e = 0 \<and> ev_LastError e = ''''"
proof -
  let ?row = "new_row \<lparr>ip_Aggregate = aggregate, ip_AggregateID = nullable aggregateID,
    ip_RoutingKey = routingKey, ip_Payload = raw\<rparr> json db"
  have ins: "res = None \<and> db' = db\<lparr>pg_rows := pg_rows db @ [?row], pg_next_id := pg_next_id db + 1\<rparr>"
    using assms(2,4-7)
    by (simp add: PublishFor_def OutboxStore_inserter_def OutboxStore_Insert_def repo_Insert_def
        InsertOutboxEvent_def pg_write_def pg_call_def Let_def)
  then have "claimable db' = claimable db @ [?row]"
    using assms(1,3) by (intro claimable_snoc) (simp_all add: new_row_def row_due_def)
  with ins assms(2,8) show ?thesis
    by (auto simp: OutboxStore_ClaimPending_def repo_ClaimPending_def ClaimPendingOutboxEvents_def pg_call_def
        new_row_def toOutboxEvent_def toDomain_def deref_def nullable_def)
qed

text \<open>
  An event that was not recorded leaves no trace: when \<open>PublishFor\<close> reports an error (the
  routing key is empty, the payload cannot be serialized or is not JSON, the statement failed),
  the table is as it was, except when the server's positive answer was lost.
\<close>

theorem refused_event_leaves_no_row:
  assumes "PublishFor jm OutboxStore_inserter aggregate aggregateID routingKey payload db = (Some err, db')"
    and "\<forall>d e. (d, FailApplied e) \<notin> set (take 1 (pg_script db))"
  shows "pg_rows db' = pg_rows db"
proof -
  have reply: "fst (pg_call db) \<noteq> FailApplied e" for e
    using assms(2) by (cases "pg_script db") (auto simp: pg_call_def)
  obtain r db1 where call: "pg_call db = (r, db1)" by force
  show ?thesis
    using assms(1) reply call pg_call_frame [OF call]
    by (cases r) (auto simp: PublishFor_def OutboxStore_inserter_def OutboxStore_Insert_def repo_Insert_def
        InsertOutboxEvent_def pg_write_def Let_def split: if_splits sum.splits option.splits)
qed

section \<open>Witnesses\<close>

definition demo_row :: "int \<Rightarrow> string \<Rightarrow> outbox_row" where
  "demo_row i key = \<lparr>row_ID = i, row_Aggregate = ''user'', row_AggregateID = None, row_RoutingKey = key,
     row_Payload = ''{}'', row_PublishedAt = None, row_Attempts = 0, row_LastError = None,
     row_AvailableAt = 0, row_CreatedAt = 0\<rparr>"

definition demo_db :: pg where
  "demo_db = \<lparr>pg_rows = [demo_row 1 ''a'', demo_row 2 ''b'', demo_row 3 ''c''], pg_next_id = 4, pg_now = 10,
     pg_locks = [], pg_jsonb = Some, pg_script = []\<rparr>"

theorem claim_spec_witness:
  "\<exists>es. OutboxStore_ClaimPending 2 demo_db = (Inr es, demo_db) \<and> map ev_ID es = [1, 2] \<and> length es \<le> 2"
proof -
  let ?es = "map (\<lambda>x. toOutboxEvent (toDomain x)) [demo_row 1 ''a'', demo_row 2 ''b'']"
  have "OutboxStore_ClaimPending 2 demo_db = (Inr ?es, demo_db)"
    by (simp add: OutboxStore_ClaimPending_def repo_ClaimPending_def ClaimPendingOutboxEvents_def pg_call_def
        demo_db_def demo_row_def claimable_def row_due_def)
  with claim_spec [OF this] show ?thesis by (simp add: demo_row_def)
qed

theorem claim_not_exclusive_witness:
  "snd (OutboxStore_ClaimPending 2 demo_db) = demo_db
   \<and> OutboxStore_ClaimPending 2 (snd (OutboxStore_ClaimPending 2 demo_db)) = OutboxStore_ClaimPending 2 demo_db"
proof -
  let ?es = "map (\<lambda>x. toOutboxEvent (toDomain x)) [demo_row 1 ''a'', demo_row 2 ''b'']"
  have "OutboxStore_ClaimPending 2 demo_db = (Inr ?es, demo_db)"
    by (simp add: OutboxStore_ClaimPending_def repo_ClaimPending_def ClaimPendingOutboxEvents_def pg_call_def
        demo_db_def demo_row_def claimable_def row_due_def)
  with claim_not_exclusive [OF this] show ?thesis by (simp add: demo_db_def)
qed

theorem recorded_event_is_claimed_witness:
  "\<exists>es e. OutboxStore_ClaimPending 10 (snd (PublishFor Inr OutboxStore_inserter ''user'' ''u1'' ''user.registered'' (Value ''{}'') demo_db))
       = (Inr (es @ [e]), snd (PublishFor Inr OutboxStore_inserter ''user'' ''u1'' ''user.registered'' (Value ''{}'') demo_db))
     \<and> ev_RoutingKey e = ''user.registered'' \<and> ev_Payload e = ''{}''"
  using recorded_event_is_claimed [of demo_db "''user.registered''" Inr "Value ''{}''" "''{}''" "''{}''" "''user''" "''u1''"
      "fst (PublishFor Inr OutboxStore_inserter ''user'' ''u1'' ''user.registered'' (Value ''{}'') demo_db)" _ 10,
      OF _ _ _ _ _ _ prod.collapse [symmetric]]
  by (fastforce simp: demo_db_def demo_row_def pg_wf_def claimable_def row_due_def)

theorem refused_event_leaves_no_row_witness:
  "pg_rows (snd (PublishFor Inr OutboxStore_inserter ''user'' ''u1'' '''' (Value ''{}'') demo_db)) = pg_rows demo_db"
proof -
  have "PublishFor Inr OutboxStore_inserter ''user'' ''u1'' '''' (Value ''{}'') demo_db = (Some ErrEmptyRoutingKey, demo_db)"
    by (simp add: PublishFor_def)
  from refused_event_leaves_no_row [OF this] this show ?thesis by (simp add: demo_db_def)
qed

end
