(* ===== verification/Amqp_Policy.thy ===== *)
theory Amqp_Policy
  imports Logging
begin

text \<open>
  \<open>pkg/amqp\<close>, the parts that need no broker: the configuration and its defaults
  (\<open>config.go\<close>), the retry policy (\<open>outcome.go\<close>), and the headers that carry it on
  the message (\<open>retry.go\<close> and the names of \<open>topology.go\<close>).
\<close>

section \<open>Configuration\<close>

definition DefaultExchange :: string where "DefaultExchange = ''dizen.events''"
definition DefaultExchangeKind :: string where "DefaultExchangeKind = ''topic''"
definition DLQSuffix :: string where "DLQSuffix = ''.dlq''"
definition RetrySuffix :: string where "RetrySuffix = ''.retry''"

record amqp_config =
  am_URL :: string
  am_Exchange :: string
  am_Prefetch :: int
  am_MaxAttempts :: int
  am_InitialBackoff :: duration
  am_MaxBackoff :: duration
  am_PublishTimeout :: duration
  am_ReconnectDelay :: duration

definition am_withDefaults :: "amqp_config \<Rightarrow> amqp_config" where
  "am_withDefaults c =
     (let c = (if am_Exchange c = '''' then c\<lparr>am_Exchange := DefaultExchange\<rparr> else c);
          c = (if am_Prefetch c \<le> 0 then c\<lparr>am_Prefetch := 10\<rparr> else c);
          c = (if am_MaxAttempts c \<le> 0 then c\<lparr>am_MaxAttempts := 5\<rparr> else c);
          c = (if am_InitialBackoff c \<le> 0 then c\<lparr>am_InitialBackoff := Second\<rparr> else c);
          c = (if am_MaxBackoff c \<le> 0 then c\<lparr>am_MaxBackoff := Minute\<rparr> else c);
          c = (if am_PublishTimeout c \<le> 0 then c\<lparr>am_PublishTimeout := 5 * Second\<rparr> else c);
          c = (if am_ReconnectDelay c \<le> 0 then c\<lparr>am_ReconnectDelay := 5 * Second\<rparr> else c)
      in c)"

definition DLQName :: "string \<Rightarrow> string" where "DLQName queue = queue @ DLQSuffix"
definition RetryQueueName :: "string \<Rightarrow> string" where "RetryQueueName queue = queue @ RetrySuffix"

section \<open>Messages and headers\<close>

definition HeaderAttempts :: string where "HeaderAttempts = ''x-dizen-attempts''"
definition HeaderFirstFailure :: string where "HeaderFirstFailure = ''x-dizen-first-failure''"
definition HeaderLastError :: string where "HeaderLastError = ''x-dizen-last-error''"
definition HeaderTraceID :: string where "HeaderTraceID = ''x-dizen-trace-id''"

lemmas header_names = HeaderAttempts_def HeaderFirstFailure_def HeaderLastError_def HeaderTraceID_def

text \<open>
  A header value, by its dynamic type: a float64 by its bits, \<open>HOther\<close> for the types the
  code does not look at.
\<close>

datatype header =
    HInt32 int | HInt64 int | HInt int | HFloat64 "64 word" | HString string | HOther string

type_synonym headers = "(string \<times> header) list" \<comment> \<open>amqp.Table\<close>

record message =
  msg_RoutingKey :: string
  msg_Headers :: headers
  msg_Body :: bytes
  msg_Expiration :: string

text \<open>\<open>strconv.ParseInt(s, 10, 32)\<close>: an optional sign and digits, refused out of range.\<close>

definition digit_of :: "char \<Rightarrow> int option" where
  "digit_of c = (if 48 \<le> (of_char c :: nat) \<and> (of_char c :: nat) \<le> 57
     then Some (int (of_char c) - 48) else None)"

fun parse_digits :: "int \<Rightarrow> string \<Rightarrow> int option" where
  "parse_digits n [] = Some n"
| "parse_digits n (c # cs) =
     (case digit_of c of None \<Rightarrow> None | Some d \<Rightarrow> parse_digits (10 * n + d) cs)"

definition parse_uint :: "string \<Rightarrow> int option" where
  "parse_uint s = (if s = [] then None else parse_digits 0 s)"

definition ParseInt32 :: "string \<Rightarrow> int option" where
  "ParseInt32 s =
     (case (case s of
              [] \<Rightarrow> None
            | c # cs \<Rightarrow> if c = CHR ''-'' then map_option uminus (parse_uint cs)
                        else if c = CHR ''+'' then parse_uint cs else parse_uint s) of
        None \<Rightarrow> None
      | Some n \<Rightarrow> if in_i32 n then Some n else None)"

text \<open>
  \<open>f2i\<close> is the conversion of a float64 to int32, which Go leaves to the implementation for
  a value out of range.
\<close>

definition attemptsOf :: "(64 word \<Rightarrow> int) \<Rightarrow> message \<Rightarrow> int" where
  "attemptsOf f2i d =
     (case map_of (msg_Headers d) HeaderAttempts of
        None \<Rightarrow> 0
      | Some raw \<Rightarrow>
          (case raw of
             HInt32 n \<Rightarrow> n
           | HInt64 n \<Rightarrow> wrap32 n
           | HInt n \<Rightarrow> wrap32 n
           | HFloat64 x \<Rightarrow> f2i x
           | HString s \<Rightarrow> (case ParseInt32 s of None \<Rightarrow> 0 | Some n \<Rightarrow> n)
           | HOther t \<Rightarrow> 0))"

definition amqp_backoffFor :: "int \<Rightarrow> duration \<Rightarrow> duration \<Rightarrow> duration" where
  "amqp_backoffFor attempt initial maximum =
     (if attempt \<le> 1 then initial
      else backoff_loop (nat (wrap32 (attempt - 1))) initial maximum)"

definition maxErrorLength :: nat where "maxErrorLength = 512"

definition amqp_truncate :: "string \<Rightarrow> nat \<Rightarrow> string" where
  "amqp_truncate s n = (if length s \<le> n then s else take n s @ ''...'')"

text \<open>\<open>now\<close> is the RFC 3339 text of the current time.\<close>

definition retryHeaders :: "string \<Rightarrow> message \<Rightarrow> int \<Rightarrow> string \<Rightarrow> headers" where
  "retryHeaders now d attempts reason =
     (let headers = msg_Headers d;
          headers = AList.update HeaderAttempts (HInt32 attempts) headers;
          headers = AList.update HeaderLastError (HString (amqp_truncate reason maxErrorLength)) headers
      in if map_of headers HeaderFirstFailure = None
         then AList.update HeaderFirstFailure (HString now) headers else headers)"

section \<open>The decision\<close>

datatype action = ActionAck | ActionRetry | ActionDeadLetter

fun Action_String :: "action \<Rightarrow> string" where
  "Action_String ActionAck = ''ack''"
| "Action_String ActionRetry = ''retry''"
| "Action_String ActionDeadLetter = ''dead-letter''"

record outcome =
  oc_Action :: action
  oc_Attempt :: int
  oc_Delay :: duration

definition decide :: "go_error option \<Rightarrow> int \<Rightarrow> int \<Rightarrow> duration \<Rightarrow> duration \<Rightarrow> outcome" where
  "decide handlerErr priorAttempts maxAttempts initial maximum =
     (let attempt = wrap32 (priorAttempts + 1) in
      case handlerErr of
        None \<Rightarrow> \<lparr>oc_Action = ActionAck, oc_Attempt = attempt, oc_Delay = 0\<rparr>
      | Some _ \<Rightarrow>
          if attempt \<ge> maxAttempts
          then \<lparr>oc_Action = ActionDeadLetter, oc_Attempt = attempt, oc_Delay = 0\<rparr>
          else \<lparr>oc_Action = ActionRetry, oc_Attempt = attempt, oc_Delay = amqp_backoffFor attempt initial maximum\<rparr>)"

section \<open>Lemmas\<close>

lemma am_withDefaults_pos:
  "0 < am_Prefetch (am_withDefaults c)" "0 < am_MaxAttempts (am_withDefaults c)"
  "0 < am_InitialBackoff (am_withDefaults c)" "0 < am_MaxBackoff (am_withDefaults c)"
  "0 < am_PublishTimeout (am_withDefaults c)" "0 < am_ReconnectDelay (am_withDefaults c)"
  "am_Exchange (am_withDefaults c) \<noteq> ''''"
  by (simp_all add: am_withDefaults_def Let_def DefaultExchange_def)

lemma header_names_distinct [simp]:
  "HeaderAttempts \<noteq> HeaderLastError" "HeaderAttempts \<noteq> HeaderFirstFailure"
  "HeaderLastError \<noteq> HeaderFirstFailure" "HeaderTraceID \<noteq> HeaderAttempts"
  "HeaderTraceID \<noteq> HeaderLastError" "HeaderTraceID \<noteq> HeaderFirstFailure"
  "HeaderLastError \<noteq> HeaderAttempts" "HeaderFirstFailure \<noteq> HeaderAttempts"
  "HeaderFirstFailure \<noteq> HeaderLastError"
  by (simp_all add: header_names)

lemma queue_names_distinct [simp]:
  "DLQName q \<noteq> q" "RetryQueueName q \<noteq> q" "DLQName q \<noteq> RetryQueueName q"
  "q \<noteq> DLQName q" "q \<noteq> RetryQueueName q" "RetryQueueName q \<noteq> DLQName q"
  by (simp_all add: DLQName_def RetryQueueName_def DLQSuffix_def RetrySuffix_def)

lemma map_of_retryHeaders:
  "map_of (retryHeaders now d n r) k =
     (if k = HeaderAttempts then Some (HInt32 n)
      else if k = HeaderLastError then Some (HString (amqp_truncate r maxErrorLength))
      else if k = HeaderFirstFailure \<and> map_of (msg_Headers d) k = None then Some (HString now)
      else map_of (msg_Headers d) k)"
  by (auto simp: retryHeaders_def Let_def update_conv)

lemma attemptsOf_retryHeaders:
  "map_of (msg_Headers m) = map_of (retryHeaders now d n r) \<Longrightarrow> attemptsOf f2i m = n"
  by (simp add: attemptsOf_def map_of_retryHeaders)

lemma amqp_backoffFor_closed:
  assumes "2 \<le> a" "a < 2 ^ 31" "0 \<le> i" "i < 2 ^ 62" "m \<le> 2 ^ 62"
  shows "amqp_backoffFor a i m = min m (i * 2 ^ nat (a - 1))"
  using backoff_loop_attempts [OF assms] assms(1) by (simp add: amqp_backoffFor_def)

lemma length_amqp_truncate: "length (amqp_truncate s n) \<le> n + 3"
  by (simp add: amqp_truncate_def)

section \<open>Lemmas: decimal numbers\<close>

lemma digit_of_digit: "n < 10 \<Longrightarrow> digit_of (char_of (48 + n)) = Some (int n)"
  by (simp add: digit_of_def)

lemma parse_digits_append:
  "parse_digits a (xs @ ys) = (case parse_digits a xs of None \<Rightarrow> None | Some b \<Rightarrow> parse_digits b ys)"
  by (induction xs arbitrary: a) (auto split: option.split)

lemma parse_digits10: "parse_digits 0 (digits10 n) = Some (int n)"
proof (induction n rule: digits10.induct)
  case (1 n)
  then show ?case
    by (subst digits10.simps) (auto simp: digit_of_digit parse_digits_append zdiv_int zmod_int)
qed

lemma digits10_Cons: "\<exists>c cs. digits10 n = c # cs \<and> c \<noteq> CHR ''-'' \<and> c \<noteq> CHR ''+''"
proof (induction n rule: digits10.induct)
  case (1 n)
  have "char_of (48 + n) \<noteq> CHR ''-'' \<and> char_of (48 + n) \<noteq> CHR ''+''" if "n < 10"
  proof -
    have "n \<in> {0, 1, 2, 3, 4, 5, 6, 7, 8, 9}" using that by auto
    then show ?thesis by (auto simp: char_of_def)
  qed
  with 1 show ?case by (subst digits10.simps) auto
qed

lemma ParseInt32_Itoa:
  assumes "in_i32 n"
  shows "ParseInt32 (Itoa n) = Some n"
proof -
  obtain c cs where c: "digits10 (nat n) = c # cs" "c \<noteq> CHR ''-''" "c \<noteq> CHR ''+''" using digits10_Cons by blast
  obtain e es where e: "digits10 (nat (- n)) = e # es" using digits10_Cons by blast
  have "parse_digits 0 (c # cs) = Some (int (nat n))" "parse_digits 0 (e # es) = Some (int (nat (- n)))"
    using parse_digits10 c(1) e by metis+
  with assms c e show ?thesis by (auto simp: ParseInt32_def Itoa_def parse_uint_def)
qed

section \<open>Properties\<close>

text \<open>
  C13. The retry policy. A success is acknowledged. The failure that makes the attempt count
  reach \<open>maxAttempts\<close> is dead-lettered; every earlier one is retried, after the initial delay
  the first time and \<open>min(maximum, initial * 2^n)\<close> after \<open>n\<close> earlier failures.
\<close>

theorem decide_policy:
  assumes "0 \<le> prior" "prior < 2 ^ 31 - 1" "0 \<le> initial" "initial < 2 ^ 62" "maximum \<le> 2 ^ 62"
  shows "decide result prior maxAttempts initial maximum =
     (case result of
        None \<Rightarrow> \<lparr>oc_Action = ActionAck, oc_Attempt = prior + 1, oc_Delay = 0\<rparr>
      | Some err \<Rightarrow>
          if prior + 1 \<ge> maxAttempts
          then \<lparr>oc_Action = ActionDeadLetter, oc_Attempt = prior + 1, oc_Delay = 0\<rparr>
          else \<lparr>oc_Action = ActionRetry, oc_Attempt = prior + 1,
                oc_Delay = (if prior = 0 then initial else min maximum (initial * 2 ^ nat prior))\<rparr>)"
proof -
  have wrap: "wrap32 (prior + 1) = prior + 1" using assms(1,2) by (simp add: in_i32_def)
  have "amqp_backoffFor (prior + 1) initial maximum = (if prior = 0 then initial else min maximum (initial * 2 ^ nat prior))"
    using amqp_backoffFor_closed [of "prior + 1" initial maximum] assms by (auto simp: amqp_backoffFor_def)
  with wrap show ?thesis by (cases "prior = 0") (simp_all add: decide_def Let_def split: option.split)
qed

theorem decide_policy_witness:
  "oc_Delay (decide (Some ctx_Canceled) 3 5 Second Minute) = 8 * Second
   \<and> oc_Action (decide (Some ctx_Canceled) 4 5 Second Minute) = ActionDeadLetter"
  using decide_policy [of 3 Second Minute "Some ctx_Canceled" 5] decide_policy [of 4 Second Minute "Some ctx_Canceled" 5]
  by simp

text \<open>
  The attempt count survives the header, whichever way a client wrote it: an int32 value
  reads back as itself from a header of type int32, int64 or int and from its decimal text.
\<close>

theorem attempts_header_roundtrip:
  assumes "in_i32 n" "h \<in> {HInt32 n, HInt64 n, HInt n, HString (Itoa n)}"
    and "map_of (msg_Headers d) HeaderAttempts = Some h"
  shows "attemptsOf f2i d = n"
  using assms by (auto simp: attemptsOf_def ParseInt32_Itoa)

theorem attempts_header_roundtrip_witness:
  "attemptsOf (\<lambda>x. 0) \<lparr>msg_RoutingKey = [], msg_Headers = [(HeaderAttempts, HString ''-12'')], msg_Body = [], msg_Expiration = []\<rparr> = -12"
proof (rule attempts_header_roundtrip [where h = "HString ''-12''"])
  have "Itoa (-12) = ''-12''" by code_simp
  then show "HString ''-12'' \<in> {HInt32 (-12), HInt64 (-12), HInt (-12), HString (Itoa (-12))}" by simp
qed (simp_all add: in_i32_def)

text \<open>
  What a redelivery carries: the new attempt count, the reason cut to at most 515 bytes,
  the time of the first failure (set once, kept afterwards), and every other header of the
  message unchanged, the trace id among them.
\<close>

theorem retry_headers_spec:
  "map_of (retryHeaders now d n reason) HeaderAttempts = Some (HInt32 n)
   \<and> (\<exists>s. map_of (retryHeaders now d n reason) HeaderLastError = Some (HString s) \<and> length s \<le> 515
        \<and> (length reason \<le> 512 \<longrightarrow> s = reason))
   \<and> map_of (retryHeaders now d n reason) HeaderFirstFailure =
       (case map_of (msg_Headers d) HeaderFirstFailure of None \<Rightarrow> Some (HString now) | Some h \<Rightarrow> Some h)
   \<and> (k \<notin> {HeaderAttempts, HeaderLastError, HeaderFirstFailure} \<longrightarrow>
        map_of (retryHeaders now d n reason) k = map_of (msg_Headers d) k)"
  using length_amqp_truncate [of reason 512]
  by (auto simp: map_of_retryHeaders maxErrorLength_def amqp_truncate_def split: option.split)

theorem retry_headers_spec_witness:
  "map_of (retryHeaders ''now'' \<lparr>msg_RoutingKey = [], msg_Headers = [(HeaderTraceID, HString ''4bf9'')], msg_Body = [],
     msg_Expiration = []\<rparr> 1 ''boom'') HeaderTraceID = Some (HString ''4bf9'')"
  using retry_headers_spec [of "''now''" _ 1 "''boom''" HeaderTraceID] by simp

text \<open>
  An attempt count that does not fit an int32 is not rejected when the header is an integer: it
  wraps around to a negative count, and the message is retried instead of dead-lettered.
\<close>

theorem large_attempts_wrap:
  "attemptsOf f2i \<lparr>msg_RoutingKey = k, msg_Headers = [(HeaderAttempts, HInt64 (2 ^ 31))], msg_Body = b, msg_Expiration = x\<rparr> = - (2 ^ 31)
   \<and> oc_Action (decide (Some err) (2 ^ 31 - 1) 5 i m) = ActionRetry"
  by (simp add: attemptsOf_def decide_def wrap32_def Let_def)

end
