(* ===== verification/Amqp_Broker.thy ===== *)
theory Amqp_Broker
  imports Amqp_Policy Database
begin

text \<open>
  The broker as far as \<open>pkg/amqp\<close> uses it, and the code that sets it up: the topology
  (\<open>topology.go\<close>, \<open>declareRetryQueue\<close>), the connection (\<open>connection.go\<close>)
  and the constructors of the publisher and the consumer.

  The broker's state is its exchanges, queues and bindings, the deliveries waiting for an
  acknowledgement, and the connections and channels that are open; a script says what it
  answers to each request. As documented, a declaration that agrees with what exists changes
  nothing and one that disagrees is refused; the default exchange routes by queue name;
  a message rejected or expired goes to the queue the \<open>x-dead-letter-routing-key\<close> names.
\<close>

section \<open>The broker\<close>

datatype resource = Conn nat | Chan nat nat \<comment> \<open>a connection; a channel of a connection\<close>

record queue =
  q_durable :: bool
  q_args :: "(string \<times> string) list"
  q_messages :: "message list"

record broker =
  br_exchanges :: "(string \<times> string) list"
  br_queues :: "(string \<times> queue) list"
  br_bindings :: "(string \<times> string \<times> string) list" \<comment> \<open>queue, key, exchange\<close>
  br_unacked :: "(nat \<times> string \<times> message) list" \<comment> \<open>delivery tag, queue, message\<close>
  br_tag :: nat
  br_open :: "resource list"
  br_fresh :: nat
  br_prefetch :: "(nat \<times> int) list"
  br_confirms :: "nat list" \<comment> \<open>channels in confirm mode\<close>
  br_script :: "reply list"

definition br_call :: "broker \<Rightarrow> reply \<times> broker" where
  "br_call b = (case br_script b of [] \<Rightarrow> (Ok, b) | r # rs \<Rightarrow> (r, b\<lparr>br_script := rs\<rparr>))"

text \<open>
  A request: \<open>f\<close> computes its effect on the broker or the error it is refused with.
\<close>

definition br_do :: "(broker \<Rightarrow> go_error + broker) \<Rightarrow> broker \<Rightarrow> go_error option \<times> broker" where
  "br_do f b =
     (case br_call b of (r, b1) \<Rightarrow>
        (case r of
           Ok \<Rightarrow> (case f b1 of Inl e \<Rightarrow> (Some e, b1) | Inr b2 \<Rightarrow> (None, b2))
         | Fail e \<Rightarrow> (Some e, b1)
         | FailApplied e \<Rightarrow> (case f b1 of Inl _ \<Rightarrow> (Some e, b1) | Inr b2 \<Rightarrow> (Some e, b2))))"

definition br_Precondition :: go_error where "br_Precondition = Sentinel ''PRECONDITION_FAILED''"
definition br_NotFound :: go_error where "br_NotFound = Sentinel ''NOT_FOUND''"

definition ExchangeDeclare :: "string \<Rightarrow> string \<Rightarrow> broker \<Rightarrow> go_error option \<times> broker" where
  "ExchangeDeclare name kind =
     br_do (\<lambda>b. case map_of (br_exchanges b) name of
       None \<Rightarrow> Inr (b\<lparr>br_exchanges := br_exchanges b @ [(name, kind)]\<rparr>)
     | Some k \<Rightarrow> if k = kind then Inr b else Inl br_Precondition)"

definition QueueDeclare :: "string \<Rightarrow> bool \<Rightarrow> (string \<times> string) list \<Rightarrow> broker \<Rightarrow> go_error option \<times> broker" where
  "QueueDeclare name dur args =
     br_do (\<lambda>b. case map_of (br_queues b) name of
       None \<Rightarrow> Inr (b\<lparr>br_queues := br_queues b @ [(name, \<lparr>q_durable = dur, q_args = args, q_messages = []\<rparr>)]\<rparr>)
     | Some q \<Rightarrow> if q_durable q = dur \<and> q_args q = args then Inr b else Inl br_Precondition)"

definition QueueBind :: "string \<Rightarrow> string \<Rightarrow> string \<Rightarrow> broker \<Rightarrow> go_error option \<times> broker" where
  "QueueBind name key exchange =
     br_do (\<lambda>b. if map_of (br_queues b) name = None \<or> map_of (br_exchanges b) exchange = None then Inl br_NotFound
       else if (name, key, exchange) \<in> set (br_bindings b) then Inr b
       else Inr (b\<lparr>br_bindings := br_bindings b @ [(name, key, exchange)]\<rparr>))"

text \<open>Opening and closing; a channel or connection is released also when closing it reports an error.\<close>

definition open_resource :: "(nat \<Rightarrow> resource) \<Rightarrow> broker \<Rightarrow> (go_error + nat) \<times> broker" where
  "open_resource mk b =
     (case br_call b of
        (Ok, b1) \<Rightarrow> (Inr (br_fresh b1), b1\<lparr>br_open := br_open b1 @ [mk (br_fresh b1)], br_fresh := br_fresh b1 + 1\<rparr>)
      | (Fail e, b1) \<Rightarrow> (Inl e, b1)
      | (FailApplied e, b1) \<Rightarrow> (Inl e, b1))"

definition close_resource :: "(resource \<Rightarrow> bool) \<Rightarrow> broker \<Rightarrow> go_error option \<times> broker" where
  "close_resource which b =
     (case br_call b of (r, b1) \<Rightarrow>
        (case r of Ok \<Rightarrow> None | Fail e \<Rightarrow> Some e | FailApplied e \<Rightarrow> Some e,
         b1\<lparr>br_open := filter (\<lambda>x. \<not> which x) (br_open b1)\<rparr>))"

definition conn_Channel :: "nat \<Rightarrow> broker \<Rightarrow> (go_error + nat) \<times> broker" where
  "conn_Channel c = open_resource (Chan c)"

definition channel_Close :: "nat \<Rightarrow> nat \<Rightarrow> broker \<Rightarrow> go_error option \<times> broker" where
  "channel_Close c ch = close_resource (\<lambda>x. x = Chan c ch)"

fun of_conn :: "nat \<Rightarrow> resource \<Rightarrow> bool" where
  "of_conn c (Conn d) = (c = d)"
| "of_conn c (Chan d ch) = (c = d)"

definition conn_Close :: "nat \<Rightarrow> broker \<Rightarrow> go_error option \<times> broker" where
  "conn_Close c = close_resource (of_conn c)"

definition channel_Confirm :: "nat \<Rightarrow> broker \<Rightarrow> go_error option \<times> broker" where
  "channel_Confirm ch = br_do (\<lambda>b. Inr (b\<lparr>br_confirms := ch # br_confirms b\<rparr>))"

definition channel_Qos :: "nat \<Rightarrow> int \<Rightarrow> broker \<Rightarrow> go_error option \<times> broker" where
  "channel_Qos ch prefetch = br_do (\<lambda>b. Inr (b\<lparr>br_prefetch := (ch, prefetch) # br_prefetch b\<rparr>))"

section \<open>Topology\<close>

record queue_spec =
  qs_Name :: string
  qs_RoutingKeys :: "string list"
  qs_Durable :: bool

definition dead_letter_args :: "string \<Rightarrow> (string \<times> string) list" where
  "dead_letter_args target = [(''x-dead-letter-exchange'', ''''), (''x-dead-letter-routing-key'', target)]"

fun bind_keys :: "string \<Rightarrow> string \<Rightarrow> string list \<Rightarrow> broker \<Rightarrow> go_error option \<times> broker" where
  "bind_keys name exchange [] b = (None, b)"
| "bind_keys name exchange (key # keys) b =
     (case QueueBind name key exchange b of
        (Some err, b') \<Rightarrow>
          (Some (Errorf (''binding '' @ quote name @ '' to '' @ quote key @ '' on '' @ quote exchange) err), b')
      | (None, b') \<Rightarrow> bind_keys name exchange keys b')"

definition declareTopology :: "string \<Rightarrow> queue_spec \<Rightarrow> broker \<Rightarrow> go_error option \<times> broker" where
  "declareTopology exchange spec b =
     (case ExchangeDeclare exchange DefaultExchangeKind b of
        (Some err, b1) \<Rightarrow> (Some (Errorf (''declaring the exchange '' @ quote exchange) err), b1)
      | (None, b1) \<Rightarrow>
          if qs_Name spec = '''' then (None, b1)
          else (case QueueDeclare (DLQName (qs_Name spec)) True [] b1 of
                  (Some err, b2) \<Rightarrow>
                    (Some (Errorf (''declaring the dead-letter queue '' @ quote (DLQName (qs_Name spec))) err), b2)
                | (None, b2) \<Rightarrow>
                    (case QueueDeclare (qs_Name spec) (qs_Durable spec) (dead_letter_args (DLQName (qs_Name spec))) b2 of
                       (Some err, b3) \<Rightarrow> (Some (Errorf (''declaring the queue '' @ quote (qs_Name spec)) err), b3)
                     | (None, b3) \<Rightarrow> bind_keys (qs_Name spec) exchange (qs_RoutingKeys spec) b3)))"

definition declareRetryQueue :: "string \<Rightarrow> broker \<Rightarrow> go_error option \<times> broker" where
  "declareRetryQueue qname b =
     (if qname = '''' then (None, b)
      else (case QueueDeclare (RetryQueueName qname) True (dead_letter_args qname) b of
              (Some err, b') \<Rightarrow> (Some (Errorf (''declaring the retry queue '' @ quote (RetryQueueName qname)) err), b')
            | (None, b') \<Rightarrow> (None, b')))"

section \<open>Connections\<close>

record connection =
  cn_conn :: nat
  cn_channel :: nat
  cn_cfg :: amqp_config

definition ErrConnectionClosed :: go_error where
  "ErrConnectionClosed = Sentinel ''the AMQP connection is closed''"

definition amqp_Connect :: "amqp_config \<Rightarrow> broker \<Rightarrow> (go_error + connection) \<times> broker" where
  "amqp_Connect cfg0 b =
     (let cfg = am_withDefaults cfg0 in
      case open_resource Conn b of
        (Inl err, b1) \<Rightarrow> (Inl (Errorf ''connecting to RabbitMQ'' err), b1)
      | (Inr c, b1) \<Rightarrow>
          (case conn_Channel c b1 of
             (Inl err, b2) \<Rightarrow> (Inl (Errorf ''opening the AMQP channel'' err), snd (conn_Close c b2))
           | (Inr ch, b2) \<Rightarrow>
               (case declareTopology (am_Exchange cfg) \<lparr>qs_Name = '''', qs_RoutingKeys = [], qs_Durable = False\<rparr> b2 of
                  (Some err, b3) \<Rightarrow> (Inl err, snd (conn_Close c (snd (channel_Close c ch b3))))
                | (None, b3) \<Rightarrow> (Inr \<lparr>cn_conn = c, cn_channel = ch, cn_cfg = cfg\<rparr>, b3))))"

definition IsClosed :: "nat \<Rightarrow> broker \<Rightarrow> bool" where
  "IsClosed c b = (Conn c \<notin> set (br_open b))"

definition amqp_Ping :: "connection \<Rightarrow> broker \<Rightarrow> go_error option" where
  "amqp_Ping cn b = (if IsClosed (cn_conn cn) b then Some ErrConnectionClosed else None)"

definition Connection_Close :: "connection \<Rightarrow> broker \<Rightarrow> go_error option \<times> broker" where
  "Connection_Close cn b =
     (let b1 = snd (channel_Close (cn_conn cn) (cn_channel cn) b) in
      if \<not> IsClosed (cn_conn cn) b1
      then (case conn_Close (cn_conn cn) b1 of
              (Some err, b2) \<Rightarrow> (Some (Errorf ''closing the AMQP connection'' err), b2)
            | (None, b2) \<Rightarrow> (None, b2))
      else (None, b1))"

definition NewPublisher :: "connection \<Rightarrow> broker \<Rightarrow> (go_error + nat) \<times> broker" where
  "NewPublisher cn b =
     (case conn_Channel (cn_conn cn) b of
        (Inl err, b1) \<Rightarrow> (Inl (Errorf ''opening the publisher channel'' err), b1)
      | (Inr ch, b1) \<Rightarrow>
          (case channel_Confirm ch b1 of
             (Some err, b2) \<Rightarrow>
               (Inl (Errorf ''enabling publisher confirms'' err), snd (channel_Close (cn_conn cn) ch b2))
           | (None, b2) \<Rightarrow> (Inr ch, b2)))"

record consumer =
  co_conn :: connection
  co_channel :: nat
  co_spec :: queue_spec
  co_tag :: string
  co_log :: logger

text \<open>\<open>uuid\<close> is the result of \<open>uuid.NewString()\<close>.\<close>

definition consumerTag :: "string \<Rightarrow> string \<Rightarrow> string" where
  "consumerTag uuid qname = qname @ ''-'' @ uuid"

definition NewConsumer :: "string \<Rightarrow> connection \<Rightarrow> queue_spec \<Rightarrow> logger \<Rightarrow> broker \<Rightarrow> (go_error + consumer) \<times> broker" where
  "NewConsumer uuid cn spec log b =
     (case conn_Channel (cn_conn cn) b of
        (Inl err, b1) \<Rightarrow> (Inl (Errorf ''opening the consumer channel'' err), b1)
      | (Inr ch, b1) \<Rightarrow>
          (case declareTopology (am_Exchange (cn_cfg cn)) spec b1 of
             (Some err, b2) \<Rightarrow> (Inl err, snd (channel_Close (cn_conn cn) ch b2))
           | (None, b2) \<Rightarrow>
               (case declareRetryQueue (qs_Name spec) b2 of
                  (Some err, b3) \<Rightarrow> (Inl err, snd (channel_Close (cn_conn cn) ch b3))
                | (None, b3) \<Rightarrow>
                    (case channel_Qos ch (am_Prefetch (cn_cfg cn)) b3 of
                       (Some err, b4) \<Rightarrow>
                         (Inl (Errorf (''setting the prefetch to '' @ Itoa (am_Prefetch (cn_cfg cn))) err),
                          snd (channel_Close (cn_conn cn) ch b4))
                     | (None, b4) \<Rightarrow>
                         (Inr \<lparr>co_conn = cn, co_channel = ch, co_spec = spec,
                               co_tag = consumerTag uuid (qs_Name spec), co_log = log\<rparr>, b4)))))"

section \<open>Lemmas: what a request can change\<close>

abbreviation unscripted :: "broker \<Rightarrow> broker" where
  "unscripted b \<equiv> b\<lparr>br_script := []\<rparr>"

lemma br_call_unscripted: "br_call b = (r, b1) \<Longrightarrow> unscripted b1 = unscripted b"
  by (auto simp: br_call_def split: list.splits)

lemma br_do_None:
  assumes "br_do f b = (None, b')"
  obtains b1 where "unscripted b1 = unscripted b" "f b1 = Inr b'"
  using assms br_call_unscripted [of b]
  by (fastforce simp: br_do_def split: prod.splits reply.splits sum.splits)

lemma br_do_kept:
  assumes "br_do f b = (r, b')" "P b" "\<And>b b'. f b = Inr b' \<Longrightarrow> P b \<Longrightarrow> P b'"
    and "\<And>b s. P b \<Longrightarrow> P (b\<lparr>br_script := s\<rparr>)"
  shows "P b'"
proof -
  have "P b1" if "br_call b = (r', b1)" for r' b1
    using that assms(2,4) by (auto simp: br_call_def split: list.splits)
  with assms(1,3) show ?thesis
    by (auto simp: br_do_def split: prod.splits reply.splits sum.splits)
qed

text \<open>Identifiers are handed out once.\<close>

fun res_below :: "nat \<Rightarrow> resource \<Rightarrow> bool" where
  "res_below n (Conn c) = (c < n)"
| "res_below n (Chan c ch) = (c < n \<and> ch < n)"

definition br_wf :: "broker \<Rightarrow> bool" where
  "br_wf b \<longleftrightarrow> (\<forall>r\<in>set (br_open b). res_below (br_fresh b) r)"

definition same_open :: "broker \<Rightarrow> broker \<Rightarrow> bool" where
  "same_open b b' \<longleftrightarrow> br_open b' = br_open b \<and> br_fresh b' = br_fresh b"

lemma declare_same_open:
  "ExchangeDeclare n k b = (r, b') \<Longrightarrow> same_open b b'"
  "QueueDeclare n d a b = (r, b') \<Longrightarrow> same_open b b'"
  "QueueBind n ky ex b = (r, b') \<Longrightarrow> same_open b b'"
  unfolding ExchangeDeclare_def QueueDeclare_def QueueBind_def
  by (erule br_do_kept; fastforce simp: same_open_def split: option.splits if_splits)+

lemma same_open_trans: "same_open a b \<Longrightarrow> same_open b c \<Longrightarrow> same_open a c"
  by (simp add: same_open_def)

lemma bind_keys_same_open: "bind_keys n ex ks b = (r, b') \<Longrightarrow> same_open b b'"
proof (induction ks arbitrary: b)
  case (Cons k ks)
  then show ?case
    by (auto split: prod.splits option.splits intro: declare_same_open same_open_trans)
qed (simp add: same_open_def)

lemma declareTopology_same_open: "declareTopology ex spec b = (r, b') \<Longrightarrow> same_open b b'"
  unfolding declareTopology_def
  by (auto split: prod.splits option.splits if_splits
      dest!: declare_same_open bind_keys_same_open intro: same_open_trans)

lemma declareRetryQueue_same_open: "declareRetryQueue q b = (r, b') \<Longrightarrow> same_open b b'"
  unfolding declareRetryQueue_def
  by (auto simp: same_open_def split: prod.splits option.splits if_splits dest!: declare_same_open)

lemma open_resource_cases:
  assumes "open_resource mk b = (r, b')"
  obtains (refused) e where "r = Inl e" "same_open b b'"
    | (opened) "r = Inr (br_fresh b)" "br_open b' = br_open b @ [mk (br_fresh b)]" "br_fresh b' = Suc (br_fresh b)"
  using assms by (auto simp: open_resource_def br_call_def same_open_def split: list.splits reply.splits)

lemma br_open_close: "br_open (snd (close_resource w b)) = filter (\<lambda>x. \<not> w x) (br_open b)"
  by (auto simp: close_resource_def br_call_def split: list.splits)

lemma br_open_channel_Close: "br_open (snd (channel_Close c ch b)) = filter (\<lambda>x. x \<noteq> Chan c ch) (br_open b)"
  by (simp add: channel_Close_def br_open_close)

lemma br_open_conn_Close: "br_open (snd (conn_Close c b)) = filter (\<lambda>x. \<not> of_conn c x) (br_open b)"
  by (simp add: conn_Close_def br_open_close)

lemmas br_open_closed = br_open_channel_Close br_open_conn_Close

lemma filter_fresh:
  assumes "br_wf b"
  shows "filter (\<lambda>x. x \<noteq> Chan c (br_fresh b)) (br_open b) = br_open b"
    and "filter (\<lambda>x. \<not> of_conn (br_fresh b) x) (br_open b) = br_open b"
proof -
  have "x \<noteq> Chan c (br_fresh b) \<and> \<not> of_conn (br_fresh b) x" if "x \<in> set (br_open b)" for x
    using assms that by (cases x) (auto simp: br_wf_def)
  then show "filter (\<lambda>x. x \<noteq> Chan c (br_fresh b)) (br_open b) = br_open b"
    and "filter (\<lambda>x. \<not> of_conn (br_fresh b) x) (br_open b) = br_open b" by simp_all
qed

lemma channel_mode_same_open:
  "channel_Confirm ch b = (r, b') \<Longrightarrow> same_open b b'"
  "channel_Qos ch n b = (r, b') \<Longrightarrow> same_open b b'"
  unfolding channel_Confirm_def channel_Qos_def
  by (erule br_do_kept; fastforce simp: same_open_def)+

lemmas request_same_open = declareTopology_same_open declareRetryQueue_same_open channel_mode_same_open

section \<open>Lemmas: the topology stays\<close>

definition has_queue :: "broker \<Rightarrow> string \<Rightarrow> bool \<Rightarrow> (string \<times> string) list \<Rightarrow> bool" where
  "has_queue b n d a \<longleftrightarrow> (\<exists>q. map_of (br_queues b) n = Some q \<and> q_durable q = d \<and> q_args q = a)"

text \<open>
  \<open>extends b b'\<close>: nothing that was declared is changed or gone, and no queued message moved.
\<close>

definition extends :: "broker \<Rightarrow> broker \<Rightarrow> bool" where
  "extends b b' \<longleftrightarrow> map_of (br_exchanges b) \<subseteq>\<^sub>m map_of (br_exchanges b')
     \<and> map_of (br_queues b) \<subseteq>\<^sub>m map_of (br_queues b') \<and> set (br_bindings b) \<subseteq> set (br_bindings b')"

lemma extends_refl [simp]: "extends b b" and extends_trans: "extends a b \<Longrightarrow> extends b c \<Longrightarrow> extends a c"
  by (auto simp: extends_def intro: map_le_trans)

lemma extends_unscripted:
  "unscripted a = unscripted b \<Longrightarrow> extends a c = extends b c"
  "unscripted a = unscripted b \<Longrightarrow> extends c a = extends c b"
  by (cases a; cases b; simp add: extends_def)+

lemma map_le_snoc: "map_of xs k = None \<Longrightarrow> map_of xs \<subseteq>\<^sub>m map_of (xs @ [(k, v)])"
  by (auto simp: map_le_def map_add_def split: option.split)

lemma br_do_extends:
  assumes "br_do f b = (r, b')" and "\<And>b b'. f b = Inr b' \<Longrightarrow> extends b b'"
  shows "extends b b'"
  using assms(1)
proof (rule br_do_kept)
  show "extends b b" by simp
  show "extends b b2" if "f b1 = Inr b2" "extends b b1" for b1 b2
    using assms(2) [OF that(1)] that(2) extends_trans by blast
qed (simp add: extends_def)

lemma declare_extends:
  "ExchangeDeclare n k b = (r, b') \<Longrightarrow> extends b b'"
  "QueueDeclare n d a b = (r, b') \<Longrightarrow> extends b b'"
  "QueueBind n ky ex b = (r, b') \<Longrightarrow> extends b b'"
  unfolding ExchangeDeclare_def QueueDeclare_def QueueBind_def
  by (erule br_do_extends, force intro: map_le_snoc simp: extends_def split: option.splits if_splits)+

lemma has_queue_extends: "has_queue b n d a \<Longrightarrow> extends b b' \<Longrightarrow> has_queue b' n d a"
  by (force simp: has_queue_def extends_def map_le_def dom_def)

lemma QueueDeclare_declares:
  assumes "QueueDeclare n d a b = (None, b')"
  shows "has_queue b' n d a"
  using assms unfolding QueueDeclare_def
  by (elim br_do_None) (auto simp: has_queue_def map_add_def split: option.splits if_splits)

lemma ExchangeDeclare_declares:
  assumes "ExchangeDeclare n k b = (None, b')"
  shows "map_of (br_exchanges b') n = Some k"
  using assms unfolding ExchangeDeclare_def
  by (elim br_do_None) (auto simp: map_add_def split: option.splits if_splits)

lemma QueueBind_declares:
  assumes "QueueBind n k ex b = (None, b')"
  shows "(n, k, ex) \<in> set (br_bindings b')"
  using assms unfolding QueueBind_def
  by (elim br_do_None) (auto split: option.splits if_splits)

lemma binding_extends: "extends b b' \<Longrightarrow> x \<in> set (br_bindings b) \<Longrightarrow> x \<in> set (br_bindings b')"
  by (auto simp: extends_def)

lemma bind_keys_declares:
  "bind_keys n ex ks b = (r, b') \<Longrightarrow>
     extends b b' \<and> (r = None \<longrightarrow> (\<forall>k\<in>set ks. (n, k, ex) \<in> set (br_bindings b')))"
proof (induction ks arbitrary: b)
  case (Cons k ks)
  obtain r1 b1 where bind: "QueueBind n k ex b = (r1, b1)" by force
  then have ext: "extends b b1" by (rule declare_extends)
  show ?case
  proof (cases r1)
    case None
    with bind have "(n, k, ex) \<in> set (br_bindings b1)" by (auto intro: QueueBind_declares)
    moreover have "bind_keys n ex ks b1 = (r, b')" using Cons.prems bind None by simp
    note IH = Cons.IH [OF this]
    ultimately have "(n, k, ex) \<in> set (br_bindings b')" by (auto intro: binding_extends)
    with IH extends_trans [OF ext] show ?thesis by simp
  next
    case (Some e)
    with Cons.prems bind ext show ?thesis by auto
  qed
qed simp

definition topology_declared :: "string \<Rightarrow> queue_spec \<Rightarrow> broker \<Rightarrow> bool" where
  "topology_declared ex spec b \<longleftrightarrow> map_of (br_exchanges b) ex = Some DefaultExchangeKind
     \<and> (qs_Name spec \<noteq> '''' \<longrightarrow>
          has_queue b (DLQName (qs_Name spec)) True []
          \<and> has_queue b (qs_Name spec) (qs_Durable spec) (dead_letter_args (DLQName (qs_Name spec)))
          \<and> (\<forall>k\<in>set (qs_RoutingKeys spec). (qs_Name spec, k, ex) \<in> set (br_bindings b)))"

lemma topology_declared_extends:
  "topology_declared ex spec b \<Longrightarrow> extends b b' \<Longrightarrow> topology_declared ex spec b'"
  by (auto simp: topology_declared_def intro: has_queue_extends) (force simp: extends_def map_le_def dom_def)+

lemma declareTopology_declares:
  assumes "declareTopology ex spec b = (r, b')"
  shows "extends b b' \<and> (r = None \<longrightarrow> topology_declared ex spec b')"
proof -
  obtain r1 b1 where ex: "ExchangeDeclare ex DefaultExchangeKind b = (r1, b1)" by force
  obtain r2 b2 where dlq: "QueueDeclare (DLQName (qs_Name spec)) True [] b1 = (r2, b2)" by force
  obtain r3 b3 where main: "QueueDeclare (qs_Name spec) (qs_Durable spec)
      (dead_letter_args (DLQName (qs_Name spec))) b2 = (r3, b3)" by force
  obtain r4 b4 where bind: "bind_keys (qs_Name spec) ex (qs_RoutingKeys spec) b3 = (r4, b4)" by force
  note ext = declare_extends(1) [OF ex] declare_extends(2) [OF dlq] declare_extends(2) [OF main]
    conjunct1 [OF bind_keys_declares [OF bind]]
  have kind: "map_of (br_exchanges c) ex = Some DefaultExchangeKind"
    if "r1 = None" "extends b1 c" for c
    using that ExchangeDeclare_declares [of ex DefaultExchangeKind b b1] ex
    by (force simp: extends_def map_le_def dom_def)
  note ext34 = extends_trans [OF ext(3,4)] and ext24 = extends_trans [OF ext(2) extends_trans [OF ext(3,4)]]
  have "topology_declared ex spec b4" if nil: "r1 = None" "r2 = None" "r3 = None" "r4 = None"
  proof -
    have "has_queue b4 (DLQName (qs_Name spec)) True []"
      using QueueDeclare_declares has_queue_extends [OF _ ext34] dlq nil(2) by blast
    moreover have "has_queue b4 (qs_Name spec) (qs_Durable spec) (dead_letter_args (DLQName (qs_Name spec)))"
      using QueueDeclare_declares has_queue_extends [OF _ ext(4)] main nil(3) by blast
    ultimately show ?thesis
      using kind [OF nil(1) ext24] bind_keys_declares [OF bind] nil(4) by (simp add: topology_declared_def)
  qed
  then show ?thesis
    using assms ex dlq main bind ext kind [of b1]
    by (auto simp: declareTopology_def topology_declared_def split: if_splits option.splits intro: extends_trans)
qed

lemma declared_again:
  assumes "br_script b = []"
  shows "map_of (br_exchanges b) n = Some k \<Longrightarrow> ExchangeDeclare n k b = (None, b)"
    and "has_queue b n d a \<Longrightarrow> QueueDeclare n d a b = (None, b)"
    and "has_queue b n d a \<Longrightarrow> map_of (br_exchanges b) ex \<noteq> None \<Longrightarrow>
      \<forall>k\<in>set ks. (n, k, ex) \<in> set (br_bindings b) \<Longrightarrow> bind_keys n ex ks b = (None, b)"
proof -
  show "map_of (br_exchanges b) n = Some k \<Longrightarrow> ExchangeDeclare n k b = (None, b)"
    by (simp add: ExchangeDeclare_def br_do_def br_call_def assms)
  show "has_queue b n d a \<Longrightarrow> QueueDeclare n d a b = (None, b)"
    by (auto simp: QueueDeclare_def br_do_def br_call_def assms has_queue_def)
  show "has_queue b n d a \<Longrightarrow> map_of (br_exchanges b) ex \<noteq> None \<Longrightarrow>
      \<forall>k\<in>set ks. (n, k, ex) \<in> set (br_bindings b) \<Longrightarrow> bind_keys n ex ks b = (None, b)"
    by (induction ks) (auto simp: QueueBind_def br_do_def br_call_def assms has_queue_def)
qed

lemma declareTopology_again:
  assumes "topology_declared ex spec b" "br_script b = []"
  shows "declareTopology ex spec b = (None, b)"
  using assms declared_again [OF assms(2)]
  by (auto simp: declareTopology_def topology_declared_def)

section \<open>Properties\<close>

lemma declareRetryQueue_declares:
  "declareRetryQueue q b = (r, b') \<Longrightarrow>
     extends b b' \<and> (r = None \<longrightarrow> q \<noteq> '''' \<longrightarrow> has_queue b' (RetryQueueName q) True (dead_letter_args q))"
  unfolding declareRetryQueue_def
  by (auto split: prod.splits option.splits if_splits dest: declare_extends QueueDeclare_declares)

lemma extends_same_topology:
  assumes "br_exchanges b' = br_exchanges b" "br_queues b' = br_queues b" "br_bindings b' = br_bindings b"
  shows "extends b b'"
  using assms by (simp add: extends_def)

lemma qos_topology:
  "channel_Qos ch n b = (r, b') \<Longrightarrow> extends b b'"
  unfolding channel_Qos_def by (erule br_do_extends) (auto intro: extends_same_topology)

lemma NewConsumer_declares:
  assumes "NewConsumer uuid cn spec log b = (Inr c, b')" "qs_Name spec \<noteq> ''''"
  shows "topology_declared (am_Exchange (cn_cfg cn)) spec b'
     \<and> has_queue b' (RetryQueueName (qs_Name spec)) True (dead_letter_args (qs_Name spec)) \<and> extends b b'"
proof -
  obtain ch b1 b2 b3 where ch: "conn_Channel (cn_conn cn) b = (Inr ch, b1)"
    and topo: "declareTopology (am_Exchange (cn_cfg cn)) spec b1 = (None, b2)"
    and retry: "declareRetryQueue (qs_Name spec) b2 = (None, b3)"
    and qos: "channel_Qos ch (am_Prefetch (cn_cfg cn)) b3 = (None, b')"
    using assms(1) by (auto simp: NewConsumer_def split: prod.splits sum.splits option.splits)
  have "extends b b1"
    using ch by (auto simp: conn_Channel_def open_resource_def br_call_def extends_def split: list.splits reply.splits)
  moreover note declareTopology_declares [OF topo] declareRetryQueue_declares [OF retry] qos_topology [OF qos]
  ultimately show ?thesis
    using assms(2) by (meson extends_trans has_queue_extends topology_declared_extends)
qed

text \<open>
  A consumer that starts finds its whole topology declared, whatever was there before: the
  topic exchange, its queue (which dead-letters into the dead-letter queue), the retry queue
  (which dead-letters back into the queue), and a binding for every routing key; and declaring
  it changed no existing declaration and moved no message.
\<close>

theorem started_consumer_has_topology:
  assumes "NewConsumer uuid cn spec log b = (Inr c, b')" "qs_Name spec \<noteq> ''''"
  shows "topology_declared (am_Exchange (cn_cfg cn)) spec b'
     \<and> has_queue b' (RetryQueueName (qs_Name spec)) True (dead_letter_args (qs_Name spec)) \<and> extends b b'"
  using assms by (rule NewConsumer_declares)

text \<open>
  Declaring is idempotent: once the topology has been declared, declaring it again succeeds
  and leaves the broker exactly as it is, so every replica may run it at startup.
\<close>

theorem declareTopology_idempotent:
  assumes "declareTopology exchange spec b = (None, b')"
  shows "declareTopology exchange spec (unscripted b') = (None, unscripted b')"
proof (rule declareTopology_again)
  have "extends b' (unscripted b')" by (rule extends_same_topology) simp_all
  then show "topology_declared exchange spec (unscripted b')"
    using declareTopology_declares [OF assms] topology_declared_extends by blast
qed simp

lemma conn_Channel_refused: "conn_Channel c b = (Inl e, b1) \<Longrightarrow> br_open b1 = br_open b"
  unfolding conn_Channel_def by (erule open_resource_cases) (simp_all add: same_open_def)

lemma channel_reclosed:
  assumes "br_wf b" "conn_Channel c b = (Inr ch, b1)" "same_open b1 b2"
  shows "br_open (snd (channel_Close c ch b2)) = br_open b"
  using assms(2) unfolding conn_Channel_def
  by (rule open_resource_cases)
     (use assms(3) filter_fresh(1) [OF assms(1)] in \<open>simp_all add: same_open_def br_open_closed\<close>)

lemma conn_reclosed:
  assumes "br_wf b" "open_resource Conn b = (Inr c, b1)" "br_open b2 = br_open b1 @ xs" "\<forall>x\<in>set xs. of_conn c x"
  shows "br_open (snd (conn_Close c b2)) = br_open b"
  using assms(2)
  by (rule open_resource_cases)
     (use assms(3,4) filter_fresh(2) [OF assms(1)] in \<open>simp_all add: same_open_def br_open_closed filter_empty_conv\<close>)

lemma Connect_leaks_nothing:
  assumes "br_wf b" "amqp_Connect cfg b = (Inl e, b')"
  shows "br_open b' = br_open b"
proof -
  obtain r b1 where conn: "open_resource Conn b = (r, b1)" by force
  show ?thesis
  proof (cases r)
    case (Inl e1)
    with assms(2) conn show ?thesis
      by (auto simp: amqp_Connect_def same_open_def elim: open_resource_cases)
  next
    case (Inr c)
    with conn have conn': "open_resource Conn b = (Inr c, b1)" by simp
    obtain r2 b2 where chan: "conn_Channel c b1 = (r2, b2)" by force
    show ?thesis
    proof (cases r2)
      case (Inl e2)
      then have "br_open b2 = br_open b1 @ []" using chan conn_Channel_refused by auto
      from conn_reclosed [OF assms(1) conn' this] assms(2) chan conn' Inl show ?thesis
        by (auto simp: amqp_Connect_def Let_def)
    next
      case (Inr ch)
      then have b2: "br_open b2 = br_open b1 @ [Chan c ch]"
        using chan unfolding conn_Channel_def by (auto elim: open_resource_cases)
      obtain r3 b3 where topo: "declareTopology (am_Exchange (am_withDefaults cfg))
          \<lparr>qs_Name = '''', qs_RoutingKeys = [], qs_Durable = False\<rparr> b2 = (r3, b3)" by force
      have "br_open b3 = br_open b2" using declareTopology_same_open [OF topo] by (simp add: same_open_def)
      with b2 have "\<exists>xs. br_open (snd (channel_Close c ch b3)) = filter (\<lambda>x. x \<noteq> Chan c ch) (br_open b1) @ xs \<and> (\<forall>x\<in>set xs. of_conn c x)"
        by (simp add: br_open_closed)
      moreover have "Chan c ch \<notin> set (br_open b1)"
        using conn' assms(1) by (rule_tac open_resource_cases [OF conn']) (auto simp: br_wf_def)
      then have "filter (\<lambda>x. x \<noteq> Chan c ch) (br_open b1) = br_open b1" by (auto simp: filter_id_conv)
      ultimately show ?thesis
        using conn_reclosed [OF assms(1) conn'] assms(2) conn' chan Inr topo
        by (auto simp: amqp_Connect_def Let_def split: option.splits)
    qed
  qed
qed

lemma NewPublisher_leaks_nothing:
  "br_wf b \<Longrightarrow> NewPublisher cn b = (Inl e, b') \<Longrightarrow> br_open b' = br_open b"
  by (auto simp: NewPublisher_def split: prod.splits sum.splits option.splits
      dest: conn_Channel_refused channel_reclosed channel_mode_same_open(1))

text \<open>What a process opens on the broker, and that closing its connection gives all of it back.\<close>

lemma conn_Channel_opens:
  "conn_Channel c b = (Inr ch, b') \<Longrightarrow> br_open b' = br_open b @ [Chan c ch] \<and> br_fresh b' = Suc (br_fresh b)"
  unfolding conn_Channel_def by (erule open_resource_cases) simp_all

lemma Connect_opens:
  assumes "amqp_Connect cfg b = (Inr cn, b')"
  shows "cn_conn cn = br_fresh b" "\<exists>ch. br_open b' = br_open b @ [Conn (cn_conn cn), Chan (cn_conn cn) ch]"
proof -
  obtain b1 b2 where conn: "open_resource Conn b = (Inr (cn_conn cn), b1)" "conn_Channel (cn_conn cn) b1 = (Inr (cn_channel cn), b2)"
    "same_open b2 b'"
    using assms by (auto simp: amqp_Connect_def Let_def split: prod.splits sum.splits option.splits dest: declareTopology_same_open)
  from conn(1) have b1: "cn_conn cn = br_fresh b" "br_open b1 = br_open b @ [Conn (cn_conn cn)]"
    by (auto elim: open_resource_cases)
  then show "cn_conn cn = br_fresh b" "\<exists>ch. br_open b' = br_open b @ [Conn (cn_conn cn), Chan (cn_conn cn) ch]"
    using conn_Channel_opens [OF conn(2)] conn(3) by (auto simp: same_open_def)
qed

lemma NewPublisher_opens:
  assumes "NewPublisher cn b = (Inr ch, b')"
  shows "br_open b' = br_open b @ [Chan (cn_conn cn) ch]"
proof -
  obtain b1 where "conn_Channel (cn_conn cn) b = (Inr ch, b1)" "same_open b1 b'"
    using assms by (auto simp: NewPublisher_def split: prod.splits sum.splits option.splits dest: channel_mode_same_open)
  then show ?thesis using conn_Channel_opens by (auto simp: same_open_def)
qed

lemma Connection_Close_releases:
  assumes "br_wf b" "amqp_Connect cfg b = (Inr cn, b1)" "NewPublisher cn b1 = (Inr p, b2)"
  shows "br_open (snd (Connection_Close cn b2)) = br_open b"
proof -
  let ?c = "cn_conn cn"
  obtain ch where open': "br_open b2 = br_open b @ [Conn ?c, Chan ?c ch, Chan ?c p]"
    using Connect_opens(2) [OF assms(2)] NewPublisher_opens [OF assms(3)] by auto
  let ?b3 = "snd (channel_Close ?c (cn_channel cn) b2)"
  have live: "\<not> IsClosed ?c ?b3" by (simp add: IsClosed_def br_open_closed open')
  have "snd (Connection_Close cn b2) = snd (conn_Close ?c ?b3)"
    using live by (simp add: Connection_Close_def Let_def split: prod.split option.split)
  moreover have "filter (\<lambda>x. \<not> of_conn ?c x \<and> x \<noteq> Chan ?c (cn_channel cn)) (br_open b) = br_open b"
    using filter_fresh(2) [OF assms(1)] Connect_opens(1) [OF assms(2)]
    by (auto simp: filter_id_conv)
  ultimately show ?thesis by (simp add: br_open_closed open' conj_commute)
qed

lemma NewConsumer_leaks_nothing:
  "br_wf b \<Longrightarrow> NewConsumer uuid cn spec log b = (Inl e, b') \<Longrightarrow> br_open b' = br_open b"
  by (auto simp: NewConsumer_def split: prod.splits sum.splits option.splits
      dest: conn_Channel_refused channel_reclosed request_same_open same_open_trans)
     (meson channel_reclosed request_same_open same_open_trans)

text \<open>
  C31. No connection or channel is leaked by a failed start: when \<open>Connect\<close>,
  \<open>NewPublisher\<close> or \<open>NewConsumer\<close> returns an error, at whichever step, everything it
  had opened is closed again and nothing else is.
\<close>

theorem failed_start_leaks_nothing:
  assumes "br_wf b"
  shows "(amqp_Connect cfg b = (Inl e, b') \<longrightarrow> br_open b' = br_open b)
     \<and> (NewPublisher cn b = (Inl e, b') \<longrightarrow> br_open b' = br_open b)
     \<and> (NewConsumer uuid cn spec log b = (Inl e, b') \<longrightarrow> br_open b' = br_open b)"
  using Connect_leaks_nothing [OF assms] NewPublisher_leaks_nothing [OF assms] NewConsumer_leaks_nothing [OF assms] by blast

section \<open>Witnesses\<close>

definition empty_broker :: "reply list \<Rightarrow> broker" where
  "empty_broker replies = \<lparr>br_exchanges = [], br_queues = [], br_bindings = [], br_unacked = [], br_tag = 0,
     br_open = [Conn 0], br_fresh = 1, br_prefetch = [], br_confirms = [], br_script = replies\<rparr>"

definition zero_config :: amqp_config where
  "zero_config = \<lparr>am_URL = ''amqp://localhost/'', am_Exchange = '''', am_Prefetch = 0, am_MaxAttempts = 0,
     am_InitialBackoff = 0, am_MaxBackoff = 0, am_PublishTimeout = 0, am_ReconnectDelay = 0\<rparr>"

definition mail_spec :: queue_spec where
  "mail_spec = \<lparr>qs_Name = ''mail'', qs_RoutingKeys = [''user.*''], qs_Durable = True\<rparr>"

definition mail_conn :: connection where
  "mail_conn = \<lparr>cn_conn = 0, cn_channel = 0, cn_cfg = am_withDefaults zero_config\<rparr>"

theorem started_consumer_has_topology_witness:
  "\<exists>c b'. NewConsumer ''u'' mail_conn mail_spec Nop (empty_broker []) = (Inr c, b')
     \<and> topology_declared ''dizen.events'' mail_spec b'"
proof -
  have ok: "case fst (NewConsumer ''u'' mail_conn mail_spec Nop (empty_broker [])) of Inl _ \<Rightarrow> False | Inr _ \<Rightarrow> True" by code_simp
  then obtain c b' where run: "NewConsumer ''u'' mail_conn mail_spec Nop (empty_broker []) = (Inr c, b')"
    by (cases "NewConsumer ''u'' mail_conn mail_spec Nop (empty_broker [])") (auto split: sum.splits)
  moreover have "am_Exchange (cn_cfg mail_conn) = ''dizen.events''" "qs_Name mail_spec \<noteq> ''''" by code_simp+
  ultimately show ?thesis using started_consumer_has_topology [OF run] by auto
qed

theorem declareTopology_idempotent_witness:
  "declareTopology ''dizen.events'' mail_spec (unscripted (snd (declareTopology ''dizen.events'' mail_spec (empty_broker []))))
     = (None, unscripted (snd (declareTopology ''dizen.events'' mail_spec (empty_broker []))))"
proof (rule declareTopology_idempotent)
  have "fst (declareTopology ''dizen.events'' mail_spec (empty_broker [])) = None" by code_simp
  then show "declareTopology ''dizen.events'' mail_spec (empty_broker [])
      = (None, snd (declareTopology ''dizen.events'' mail_spec (empty_broker [])))" by (metis prod.collapse)
qed

theorem failed_start_leaks_nothing_witness:
  "br_open (snd (amqp_Connect zero_config (empty_broker [Ok, Ok, Fail br_NotFound]))) = [Conn 0]"
proof -
  let ?b = "empty_broker [Ok, Ok, Fail br_NotFound]"
  have "br_wf ?b" "br_open ?b = [Conn 0]" by code_simp+
  moreover have "case fst (amqp_Connect zero_config ?b) of Inl _ \<Rightarrow> True | Inr _ \<Rightarrow> False" by code_simp
  then obtain e where "amqp_Connect zero_config ?b = (Inl e, snd (amqp_Connect zero_config ?b))"
    by (cases "amqp_Connect zero_config ?b") (auto split: sum.splits)
  ultimately show ?thesis using failed_start_leaks_nothing [of ?b] by metis
qed

end
