(* ===== verification/Amqp_Publisher.thy ===== *)
theory Amqp_Publisher
  imports Amqp_Broker
begin

text \<open>
  \<open>pkg/amqp/publisher.go\<close>: publishing on a channel in confirm mode.

  What the broker does with a publication is a script of fates. The confirmations reach the
  publisher through the Go channel \<open>confirm\<close>, in order; the code reads one per call and
  does not look at its delivery tag. A confirmation that arrives after the call has given up
  stays in the channel.
\<close>

section \<open>State\<close>

text \<open>
  \<open>Answered a\<close>: the confirmation (\<open>a\<close> its Ack) arrives before the deadline.
  \<open>Late a err\<close>: the context ends first with \<open>err\<close>, the confirmation arrives afterwards.
  \<open>Silent t err\<close>: no confirmation ever arrives, \<open>t\<close> says whether the broker accepted the
  message. \<open>Refused t err\<close>: the library's publish call fails. \<open>Closed t\<close>: the channel is
  closed while the call waits. The broker acknowledges what it accepts, whether or not a queue is
  bound to the key; where an accepted message goes is the matter of the bindings (\<open>Event_Flow\<close>).
\<close>

datatype fate =
    Answered bool
  | Late bool go_error
  | Silent bool go_error
  | Refused bool go_error
  | Closed bool

record publishing =
  pb_Exchange :: string
  pb_Key :: string
  pb_Mandatory :: bool
  pb_Headers :: headers
  pb_Body :: bytes
  pb_Expiration :: string

record pub_state =
  ps_taken :: "publishing list" \<comment> \<open>messages the broker has accepted, to route them\<close>
  ps_confirm :: "bool list" \<comment> \<open>confirmations waiting in the Go channel\<close>
  ps_closed :: bool
  ps_script :: "fate list"

definition ErrNotConfirmed :: go_error where
  "ErrNotConfirmed = Sentinel ''the broker did not confirm the publication''"

definition amqp_ErrClosed :: go_error where
  "amqp_ErrClosed = Sentinel ''Exception (504) Reason: channel/connection is not open''"

definition next_fate :: "pub_state \<Rightarrow> fate \<times> pub_state" where
  "next_fate p =
     (if ps_closed p then (Refused False amqp_ErrClosed, p)
      else (case ps_script p of [] \<Rightarrow> (Answered True, p) | f # fs \<Rightarrow> (f, p\<lparr>ps_script := fs\<rparr>)))"

definition keep :: "bool \<Rightarrow> publishing \<Rightarrow> pub_state \<Rightarrow> pub_state" where
  "keep t m p = (if t then p\<lparr>ps_taken := ps_taken p @ [m]\<rparr> else p)"

section \<open>Publishing\<close>

text \<open>
  \<open>waitForConfirm\<close>: \<open>cerr\<close> is the error of the context if it ends before a
  confirmation is there to be read.
\<close>

definition waitForConfirm :: "go_error \<Rightarrow> string \<Rightarrow> pub_state \<Rightarrow> go_error option \<times> pub_state" where
  "waitForConfirm cerr routingKey p =
     (case ps_confirm p of
        ack # rest \<Rightarrow>
          (if \<not> ack then Some (Wrapped (err_text ErrNotConfirmed @ '': '' @ routingKey) [ErrNotConfirmed]) else None,
           p\<lparr>ps_confirm := rest\<rparr>)
      | [] \<Rightarrow>
          if ps_closed p then (Some ErrConnectionClosed, p)
          else (Some (Wrapped (err_text ErrNotConfirmed @ '': '' @ routingKey @ '': '' @ err_text cerr)
                  [ErrNotConfirmed, cerr]), p))"

definition publish_headers :: "go_ctx \<Rightarrow> headers \<Rightarrow> headers" where
  "publish_headers ctx hs =
     (let traceID = TraceID ctx in
      if traceID \<noteq> '''' then AList.update HeaderTraceID (HString traceID) hs else hs)"

definition publishTo ::
  "go_ctx \<Rightarrow> string \<Rightarrow> string \<Rightarrow> bytes \<Rightarrow> headers option \<Rightarrow> string \<Rightarrow> pub_state \<Rightarrow> go_error option \<times> pub_state" where
  "publishTo ctx exchange routingKey payload headers0 expiration p0 =
     (let hs = publish_headers ctx (case headers0 of None \<Rightarrow> [] | Some hs \<Rightarrow> hs);
          m = \<lparr>pb_Exchange = exchange, pb_Key = routingKey, pb_Mandatory = True, pb_Headers = hs,
               pb_Body = payload, pb_Expiration = expiration\<rparr>
      in case next_fate p0 of (f, p) \<Rightarrow>
           (case f of
              Refused t err \<Rightarrow> (Some (Errorf (''publishing '' @ quote routingKey) err), keep t m p)
            | Answered a \<Rightarrow>
                waitForConfirm ctx_DeadlineExceeded routingKey
                  (keep a m (p\<lparr>ps_confirm := ps_confirm p @ [a]\<rparr>))
            | Late a err \<Rightarrow>
                (case waitForConfirm err routingKey p of
                   (res, p') \<Rightarrow> (res, keep a m (p'\<lparr>ps_confirm := ps_confirm p' @ [a]\<rparr>)))
            | Silent t err \<Rightarrow> waitForConfirm err routingKey (keep t m p)
            | Closed t \<Rightarrow> waitForConfirm ctx_Canceled routingKey (keep t m (p\<lparr>ps_closed := True\<rparr>))))"

definition Publisher_Publish :: "amqp_config \<Rightarrow> go_ctx \<Rightarrow> string \<Rightarrow> bytes \<Rightarrow> pub_state \<Rightarrow> go_error option \<times> pub_state" where
  "Publisher_Publish cfg ctx routingKey payload p =
     publishTo ctx (am_Exchange cfg) routingKey payload None '''' p"

definition PublishWithHeaders ::
  "amqp_config \<Rightarrow> go_ctx \<Rightarrow> string \<Rightarrow> bytes \<Rightarrow> headers \<Rightarrow> pub_state \<Rightarrow> go_error option \<times> pub_state" where
  "PublishWithHeaders cfg ctx routingKey payload hs p =
     publishTo ctx (am_Exchange cfg) routingKey payload (Some hs) '''' p"

definition Publisher_Close :: "connection \<Rightarrow> nat \<Rightarrow> broker \<Rightarrow> go_error option \<times> broker" where
  "Publisher_Close cn ch b =
     (case channel_Close (cn_conn cn) ch b of
        (Some err, b') \<Rightarrow> (Some (Errorf ''closing the publisher channel'' err), b')
      | (None, b') \<Rightarrow> (None, b'))"

section \<open>Lemmas\<close>

lemma next_fate_taken:
  "next_fate p = (f, p') \<Longrightarrow>
     ps_taken p' = ps_taken p \<and> ps_confirm p' = ps_confirm p \<and> ps_closed p' = ps_closed p \<and> set (ps_script p') \<subseteq> set (ps_script p)"
  by (auto simp: next_fate_def split: if_splits list.splits)

lemma keep_simps [simp]:
  "ps_confirm (keep t m p) = ps_confirm p" "ps_closed (keep t m p) = ps_closed p"
  "ps_script (keep t m p) = ps_script p"
  "set (ps_taken (keep t m p)) = (if t then insert m (set (ps_taken p)) else set (ps_taken p))"
  by (simp_all add: keep_def)

text \<open>
  \<open>confirms_in_time p\<close>: the confirmation channel is empty, and every confirmation that is still to
  come arrives while the call for its message waits, if it arrives at all.
\<close>

fun is_late :: "fate \<Rightarrow> bool" where
  "is_late (Late a err) = True"
| "is_late _ = False"

definition confirms_in_time :: "pub_state \<Rightarrow> bool" where
  "confirms_in_time p \<longleftrightarrow> ps_confirm p = [] \<and> list_all (\<lambda>f. \<not> is_late f) (ps_script p)"

lemma next_fate_in_time: "confirms_in_time p \<Longrightarrow> next_fate p = (f, p') \<Longrightarrow> \<not> is_late f \<and> confirms_in_time p'"
  by (auto simp: next_fate_def confirms_in_time_def split: if_splits list.splits)

lemma publishTo_in_time:
  assumes "confirms_in_time p" "publishTo ctx ex k b hs x p = (r, p')"
  shows "confirms_in_time p'" and "set (ps_taken p) \<subseteq> set (ps_taken p')"
    and "r = None \<Longrightarrow> \<exists>m\<in>set (ps_taken p'). pb_Exchange m = ex \<and> pb_Key m = k \<and> pb_Body m = b"
proof -
  obtain f q where f: "next_fate p = (f, q)" by force
  note q = next_fate_in_time [OF assms(1) f] next_fate_taken [OF f]
  have "confirms_in_time p' \<and> set (ps_taken p) \<subseteq> set (ps_taken p')
      \<and> (r = None \<longrightarrow> (\<exists>m\<in>set (ps_taken p'). pb_Exchange m = ex \<and> pb_Key m = k \<and> pb_Body m = b))"
    using assms(2) f q by (cases f) (auto simp: publishTo_def waitForConfirm_def confirms_in_time_def Let_def split: if_splits)
  then show "confirms_in_time p'" "set (ps_taken p) \<subseteq> set (ps_taken p')"
    "r = None \<Longrightarrow> \<exists>m\<in>set (ps_taken p'). pb_Exchange m = ex \<and> pb_Key m = k \<and> pb_Body m = b" by auto
qed

section \<open>Properties\<close>

fun own_answer :: "fate \<Rightarrow> bool list" where
  "own_answer (Answered a) = [a]"
| "own_answer _ = []"

fun is_refused :: "fate \<Rightarrow> bool" where
  "is_refused (Refused t err) = True"
| "is_refused _ = False"

text \<open>
  C12. Exactly when \<open>Publish\<close> reports success: the library accepted the message, and the first
  confirmation in the channel is positive, be it this message's or one left over from an
  earlier call. Every other course (a refusal by the library, a negative confirmation, the
  deadline, a closed channel) is an error.
\<close>

theorem Publish_nil_iff:
  "fst (Publisher_Publish cfg ctx k b p) = None \<longleftrightarrow>
     \<not> is_refused (fst (next_fate p)) \<and>
     (case ps_confirm p @ own_answer (fst (next_fate p)) of [] \<Rightarrow> False | ack # _ \<Rightarrow> ack)"
proof -
  obtain f q where f: "next_fate p = (f, q)" by force
  note q = next_fate_taken [OF f]
  show ?thesis
    by (cases f) (auto simp: Publisher_Publish_def publishTo_def f q waitForConfirm_def Let_def split: list.split prod.split)
qed

text \<open>
  A confirmation that arrives after its call timed out is read by the next call: when the
  broker acknowledges one message late and refuses the next, the call for the refused message
  returns nil, and every later call is answered with its predecessor's confirmation.
\<close>

theorem late_confirmation_answers_next_call:
  assumes "ps_confirm p = []" "\<not> ps_closed p" "ps_script p = Late True err # Answered False # fs"
    and "Publisher_Publish cfg ctx k1 b1 p = (res1, p1)" "Publisher_Publish cfg ctx k2 b2 p1 = (res2, p2)"
  shows "res1 \<noteq> None \<and> res2 = None \<and> ps_taken p2 = ps_taken p1 \<and> ps_confirm p2 = [False]"
  using assms
  by (cases p) (auto simp: Publisher_Publish_def publishTo_def next_fate_def waitForConfirm_def keep_def Let_def)

definition demo_pub :: pub_state where
  "demo_pub = \<lparr>ps_taken = [], ps_confirm = [], ps_closed = False,
     ps_script = [Late True ctx_DeadlineExceeded, Answered False]\<rparr>"

theorem late_confirmation_answers_next_call_witness:
  "fst (Publisher_Publish zero_config background ''k2'' [] (snd (Publisher_Publish zero_config background ''k1'' [] demo_pub))) = None"
proof -
  note T = late_confirmation_answers_next_call [of demo_pub ctx_DeadlineExceeded "[]",
      OF _ _ _ prod.collapse [symmetric] prod.collapse [symmetric]]
  show ?thesis by (rule T [THEN conjunct2, THEN conjunct1]) (simp_all add: demo_pub_def)
qed

end
