(* ===== verification/Outbox_Service.thy ===== *)
theory Outbox_Service
  imports Outbox_Repository Amqp_Publisher
begin

text \<open>
  The outbox worker as a service's \<open>main.go\<close> builds it: \<open>outbox.NewWorker\<close> over the
  service's \<open>OutboxStore\<close> and an \<open>amqp.Publisher\<close>. The world is the database, the
  publisher's channel and the moment the context is canceled. The contracts of
  \<open>pkg/outbox\<close> are interpreted on it.
\<close>

section \<open>The worker of a service\<close>

record svc =
  sv_db :: pg
  sv_pub :: pub_state
  sv_cancel_at :: "timestamp option"

definition on_db :: "(pg \<Rightarrow> 'r \<times> pg) \<Rightarrow> svc \<Rightarrow> 'r \<times> svc" where
  "on_db f w = (case f (sv_db w) of (r, db) \<Rightarrow> (r, w\<lparr>sv_db := db\<rparr>))"

definition on_pub :: "(pub_state \<Rightarrow> 'r \<times> pub_state) \<Rightarrow> svc \<Rightarrow> 'r \<times> svc" where
  "on_pub f w = (case f (sv_pub w) of (r, p) \<Rightarrow> (r, w\<lparr>sv_pub := p\<rparr>))"

definition svc_store :: "svc store" where
  "svc_store =
     \<lparr>st_ClaimPending = \<lambda>n. on_db (st_ClaimPending NewOutboxStore n),
      st_MarkPublished = \<lambda>i. on_db (st_MarkPublished NewOutboxStore i),
      st_Reschedule = \<lambda>i why at. on_db (st_Reschedule NewOutboxStore i why at),
      st_CountPending = on_db (st_CountPending NewOutboxStore)\<rparr>"

definition svc_publisher :: "amqp_config \<Rightarrow> go_ctx \<Rightarrow> svc publisher" where
  "svc_publisher cfg ctx = \<lparr>pub_Publish = \<lambda>k b. on_pub (Publisher_Publish cfg ctx k b)\<rparr>"

definition svc_env :: "svc env" where
  "svc_env =
     \<lparr>env_Err = \<lambda>w. (case sv_cancel_at w of None \<Rightarrow> None
        | Some t \<Rightarrow> if t \<le> pg_now (sv_db w) then Some ctx_Canceled else None),
      env_wait = \<lambda>d w. w\<lparr>sv_db := (sv_db w)\<lparr>pg_now := pg_now (sv_db w) + max 0 d\<rparr>\<rparr>\<rparr>"

definition svc_worker :: "amqp_config \<Rightarrow> go_ctx \<Rightarrow> worker_config \<Rightarrow> svc worker" where
  "svc_worker cfg ctx wcfg =
     NewWorker svc_store (svc_publisher cfg ctx) wcfg (\<lambda>w. pg_now (sv_db w))"

lemma svc_worker_sel [simp]:
  "wk_store (svc_worker cfg ctx wcfg) = svc_store" "wk_publisher (svc_worker cfg ctx wcfg) = svc_publisher cfg ctx"
  "wk_cfg (svc_worker cfg ctx wcfg) = wc_withDefaults wcfg" "wk_now (svc_worker cfg ctx wcfg) w = pg_now (sv_db w)"
  by (simp_all add: svc_worker_def)

section \<open>The contracts hold\<close>

text \<open>
  The invariant asks that no confirmation arrives after the call for its message has given up;
  without it the guarantee fails (\<open>stale_confirmation_loses_event\<close> below).
\<close>

definition svc_inv :: "svc \<Rightarrow> bool" where
  "svc_inv w \<longleftrightarrow> pg_wf (sv_db w) \<and> confirms_in_time (sv_pub w)"

definition svc_content :: "svc \<Rightarrow> int \<Rightarrow> (string \<times> bytes) option" where
  "svc_content w = pg_content (sv_db w)"

definition svc_marked :: "svc \<Rightarrow> int \<Rightarrow> bool" where
  "svc_marked w = pg_marked (sv_db w)"

definition svc_taken :: "amqp_config \<Rightarrow> svc \<Rightarrow> (string \<times> bytes) set" where
  "svc_taken cfg w =
     {(pb_Key m, pb_Body m) | m. m \<in> set (ps_taken (sv_pub w)) \<and> pb_Exchange m = am_Exchange cfg}"

lemmas svc_defs = svc_inv_def svc_content_def svc_marked_def svc_taken_def

lemma svc_store_sel [simp]:
  "st_ClaimPending svc_store n = on_db (OutboxStore_ClaimPending n)"
  "st_MarkPublished svc_store i = on_db (repo_MarkPublished i)"
  "st_Reschedule svc_store i why at = on_db (repo_Reschedule i why at)"
  by (simp_all add: svc_store_def NewOutboxStore_def)

lemma svc_publisher_sel [simp]:
  "pub_Publish (svc_publisher cfg ctx) k b = on_pub (publishTo ctx (am_Exchange cfg) k b None '''')"
  by (simp add: svc_publisher_def Publisher_Publish_def [abs_def])

lemma on_db_frame [simp]:
  "sv_db (snd (on_db f w)) = snd (f (sv_db w))" "sv_pub (snd (on_db f w)) = sv_pub w"
  "sv_cancel_at (snd (on_db f w)) = sv_cancel_at w" "fst (on_db f w) = fst (f (sv_db w))"
  by (simp_all add: on_db_def split: prod.split)

lemma on_pub_frame [simp]:
  "sv_pub (snd (on_pub f w)) = snd (f (sv_pub w))" "sv_db (snd (on_pub f w)) = sv_db w"
  "sv_cancel_at (snd (on_pub f w)) = sv_cancel_at w" "fst (on_pub f w) = fst (f (sv_pub w))"
  by (simp_all add: on_pub_def split: prod.split)

lemma pg_clock:
  "pg_content (db\<lparr>pg_now := t\<rparr>) = pg_content db" "pg_marked (db\<lparr>pg_now := t\<rparr>) = pg_marked db"
  "pg_wf (db\<lparr>pg_now := t\<rparr>) = pg_wf db"
  by (simp_all add: pg_content_def pg_marked_def pg_wf_def fun_eq_iff)

lemmas kept_snd =
  claim_kept [OF prod.collapse [symmetric]] mark_kept [OF prod.collapse [symmetric]]
  reschedule_kept [OF prod.collapse [symmetric]] publishTo_in_time [OF _ prod.collapse [symmetric]]

interpretation svc_outbox: outbox_loop svc_store "svc_publisher cfg ctx" svc_inv svc_content svc_marked "svc_taken cfg" svc_env
proof unfold_locales
  fix w n es w' e
  assume "svc_inv w" "st_ClaimPending svc_store n w = (Inr es, w')" "e \<in> set es"
  then show "svc_content w (ev_ID e) = Some (ev_RoutingKey e, ev_Payload e) \<and> \<not> svc_marked w (ev_ID e)"
    using claim_events [of n "sv_db w" es _ e] by (auto simp: svc_defs on_db_def split: prod.splits)
next
  fix w k b
  assume "svc_inv w" and nil: "fst (pub_Publish (svc_publisher cfg ctx) k b w) = None"
  then have "confirms_in_time (sv_pub w)" by (simp add: svc_inv_def)
  from kept_snd(12) [OF this, of ctx "am_Exchange cfg" k b None "[]"] nil
  show "(k, b) \<in> svc_taken cfg (snd (pub_Publish (svc_publisher cfg ctx) k b w))"
    by (auto simp: svc_defs)
next
  fix w k b
  assume "svc_inv w"
  then have "confirms_in_time (sv_pub w)" by (simp add: svc_inv_def)
  from kept_snd(11) [OF this, of ctx "am_Exchange cfg" k b None "[]"]
  show "svc_taken cfg w \<subseteq> svc_taken cfg (snd (pub_Publish (svc_publisher cfg ctx) k b w))"
    by (auto simp: svc_defs)
qed (use kept_snd in \<open>auto simp: svc_defs svc_env_def pg_clock\<close>)

section \<open>Lemmas: draining a backlog\<close>

text \<open>Everything answers: no failure is scripted, no row is locked, the context is not canceled.\<close>

definition healthy :: "svc \<Rightarrow> bool" where
  "healthy w \<longleftrightarrow> pg_wf (sv_db w) \<and> pg_script (sv_db w) = [] \<and> pg_locks (sv_db w) = []
     \<and> ps_confirm (sv_pub w) = [] \<and> \<not> ps_closed (sv_pub w) \<and> ps_script (sv_pub w) = []
     \<and> env_Err svc_env w = None"

definition event_message :: "amqp_config \<Rightarrow> go_ctx \<Rightarrow> event \<Rightarrow> publishing" where
  "event_message cfg ctx e =
     \<lparr>pb_Exchange = am_Exchange cfg, pb_Key = ev_RoutingKey e, pb_Mandatory = True,
      pb_Headers = publish_headers ctx [], pb_Body = ev_Payload e, pb_Expiration = ''''\<rparr>"

definition mark_ids :: "int set \<Rightarrow> timestamp \<Rightarrow> outbox_row list \<Rightarrow> outbox_row list" where
  "mark_ids ids t = map (\<lambda>r. if row_ID r \<in> ids then r\<lparr>row_PublishedAt := Some t\<rparr> else r)"

definition sent :: "amqp_config \<Rightarrow> go_ctx \<Rightarrow> event list \<Rightarrow> svc \<Rightarrow> svc" where
  "sent cfg ctx es w =
     w\<lparr>sv_db := (sv_db w)\<lparr>pg_rows := mark_ids (ev_ID ` set es) (pg_now (sv_db w)) (pg_rows (sv_db w))\<rparr>,
       sv_pub := (sv_pub w)\<lparr>ps_taken := ps_taken (sv_pub w) @ map (event_message cfg ctx) es\<rparr>\<rparr>"

lemma mark_ids_twice: "mark_ids J t (mark_ids I t rs) = mark_ids (I \<union> J) t rs"
  by (auto simp: mark_ids_def)

lemma mark_ids_wf [simp]: "pg_wf (db\<lparr>pg_rows := mark_ids I t (pg_rows db)\<rparr>) = pg_wf db"
proof -
  have ids: "map row_ID (mark_ids I t rs) = map row_ID rs" for rs by (simp add: mark_ids_def)
  moreover have "(\<forall>r\<in>set (mark_ids I t rs). row_ID r < n) \<longleftrightarrow> (\<forall>r\<in>set rs. row_ID r < n)" for rs n
    by (induction rs) (auto simp: mark_ids_def)
  ultimately show ?thesis by (simp add: pg_wf_def)
qed

lemma healthy_sent [simp]: "healthy (sent cfg ctx es w) = healthy w"
  by (simp add: healthy_def sent_def svc_env_def split: option.split)

lemma sent_Nil [simp]: "sent cfg ctx [] w = w"
  by (simp add: sent_def mark_ids_def)

lemma sent_sent: "sent cfg ctx es2 (sent cfg ctx es1 w) = sent cfg ctx (es1 @ es2) w"
  by (simp add: sent_def mark_ids_twice image_Un)

lemma publishOne_healthy:
  assumes "healthy w"
  shows "publishOne (svc_worker cfg ctx wcfg) e w = (True, sent cfg ctx [e] w)"
proof -
  have "on_pub (publishTo ctx (am_Exchange cfg) (ev_RoutingKey e) (ev_Payload e) None []) w =
      (None, w\<lparr>sv_pub := (sv_pub w)\<lparr>ps_taken := ps_taken (sv_pub w) @ [event_message cfg ctx e]\<rparr>\<rparr>)"
    using assms
    by (simp add: on_pub_def publishTo_def next_fate_def waitForConfirm_def keep_def event_message_def healthy_def Let_def)
  moreover have "snd (repo_MarkPublished (ev_ID e) (sv_db w)) =
      (sv_db w)\<lparr>pg_rows := mark_ids {ev_ID e} (pg_now (sv_db w)) (pg_rows (sv_db w))\<rparr>"
    using assms
    by (simp add: repo_MarkPublished_def MarkOutboxEventPublished_def err_of_def pg_write_def pg_call_def
        healthy_def mark_ids_def update_rows_def)
  ultimately show ?thesis
    by (cases w) (auto simp: publishOne_def sent_def on_db_def split: prod.splits)
qed

lemma process_events_healthy:
  "healthy w \<Longrightarrow>
   process_events (svc_worker cfg ctx wcfg) svc_env es n w = ((n + length es, None), sent cfg ctx es w)"
proof (induction es arbitrary: n w)
  case (Cons e es)
  then have "env_Err svc_env w = None" by (simp add: healthy_def)
  with Cons show ?case by (simp add: publishOne_healthy sent_sent)
qed simp

definition claimed_events :: "pg \<Rightarrow> event list" where
  "claimed_events db = map (\<lambda>r. toOutboxEvent (toDomain r)) (claimable db)"

lemma ProcessBatch_healthy:
  fixes wcfg :: worker_config and w :: svc
  assumes "healthy w"
  defines "es \<equiv> take (nat (wc_BatchSize (wc_withDefaults wcfg))) (claimed_events (sv_db w))"
  shows "ProcessBatch (svc_worker cfg ctx wcfg) svc_env w = ((length es, None), sent cfg ctx es w)"
proof -
  have "OutboxStore_ClaimPending (wc_BatchSize (wc_withDefaults wcfg)) (sv_db w) = (Inr es, sv_db w)"
    using assms(1) wc_withDefaults_pos(2) [of wcfg]
    by (simp add: es_def claimed_events_def OutboxStore_ClaimPending_def repo_ClaimPending_def
        ClaimPendingOutboxEvents_def pg_call_def healthy_def take_map)
  then show ?thesis
    using process_events_healthy [OF assms(1), of cfg ctx wcfg es 0]
    by (simp add: ProcessBatch_def on_db_def)
qed

lemma filter_not_taken:
  assumes "distinct (map f xs)"
  shows "filter (\<lambda>x. f x \<notin> f ` set (take k xs)) xs = drop k xs"
proof -
  have "distinct (map f (take k xs @ drop k xs))" using assms by simp
  then have disj: "f ` set (take k xs) \<inter> f ` set (drop k xs) = {}" unfolding map_append distinct_append by simp
  have "filter (\<lambda>x. f x \<notin> f ` set (take k xs)) (take k xs @ drop k xs) = drop k xs"
    unfolding filter_append using disj by (simp add: filter_empty_conv filter_id_conv) blast
  then show ?thesis by simp
qed

lemma claimable_sent:
  assumes "healthy w"
  shows "claimed_events (sv_db (sent cfg ctx (take k (claimed_events (sv_db w))) w)) = drop k (claimed_events (sv_db w))"
proof -
  let ?db = "sv_db w" and ?xs = "claimable (sv_db w)"
  let ?I = "row_ID ` set (take k ?xs)"
  have ids: "ev_ID ` set (take k (claimed_events ?db)) = ?I"
    by (simp add: claimed_events_def take_map image_image)
  have locks: "pg_locks ?db = []" using assms by (simp add: healthy_def)
  have "filter (row_due (?db\<lparr>pg_rows := rs\<rparr>)) (mark_ids ?I t rows) =
      filter (\<lambda>r. row_ID r \<notin> ?I) (filter (row_due ?db) rows)" for rows rs t
    by (induction rows) (auto simp: mark_ids_def row_due_def)
  then have "claimable (?db\<lparr>pg_rows := mark_ids ?I t (pg_rows ?db)\<rparr>) = filter (\<lambda>r. row_ID r \<notin> ?I) ?xs" for t
    by (simp add: claimable_def locks filter_sort)
  also have "\<dots> = drop k ?xs"
  proof (rule filter_not_taken)
    have "distinct (map row_ID (filter (row_due ?db) (pg_rows ?db)))"
      using assms by (simp add: healthy_def pg_wf_def distinct_map_filter)
    then show "distinct (map row_ID ?xs)" by (simp add: claimable_def locks distinct_map)
  qed
  finally show ?thesis by (simp add: sent_def ids) (simp add: claimed_events_def drop_map)
qed

lemma Run_drains:
  assumes "healthy w" "sv_cancel_at w = Some t" "t \<le> pg_now (sv_db w) + wc_PollInterval (wc_withDefaults wcfg)"
    and "length (claimed_events (sv_db w)) < n"
  shows "Run n (svc_worker cfg ctx wcfg) svc_env w =
     Some (env_wait svc_env (wc_PollInterval (wc_withDefaults wcfg)) (sent cfg ctx (claimed_events (sv_db w)) w))"
  using assms
proof (induction n arbitrary: w)
  case (Suc n)
  let ?poll = "wc_PollInterval (wc_withDefaults wcfg)" and ?k = "nat (wc_BatchSize (wc_withDefaults wcfg))"
  let ?es = "claimed_events (sv_db w)"
  have err: "env_Err svc_env w = None" using Suc.prems(1) by (simp add: healthy_def)
  have pos: "0 < ?k" "0 < ?poll" using wc_withDefaults_pos [of wcfg] by simp_all
  note batch = ProcessBatch_healthy [OF Suc.prems(1), of cfg ctx wcfg]
  show ?case
  proof (cases "?es = []")
    case True
    have "env_Err svc_env (env_wait svc_env ?poll w) = Some ctx_Canceled"
      using Suc.prems(2,3) pos(2) by (simp add: svc_env_def max_def)
    with True batch err show ?thesis by (simp add: Let_def)
  next
    case False
    let ?w1 = "sent cfg ctx (take ?k ?es) w"
    have "Run (Suc n) (svc_worker cfg ctx wcfg) svc_env w = Run n (svc_worker cfg ctx wcfg) svc_env ?w1"
      using False batch err pos(1) by simp
    also have "\<dots> = Some (env_wait svc_env ?poll (sent cfg ctx (claimed_events (sv_db ?w1)) ?w1))"
    proof (intro Suc.IH)
      have "length ?es - ?k < n" using Suc.prems(4) False pos(1) length_greater_0_conv [of ?es] by linarith
      then show "length (claimed_events (sv_db ?w1)) < n"
        using claimable_sent [OF Suc.prems(1), of cfg ctx ?k] by simp
    qed (use Suc.prems in \<open>simp_all add: sent_def [of _ _ _ w] flip: healthy_sent [of cfg ctx "take ?k ?es" w]\<close>)
    finally show ?thesis
      using claimable_sent [OF Suc.prems(1), of cfg ctx ?k] by (simp add: sent_sent)
  qed
qed simp

section \<open>Properties\<close>

text \<open>
  The outbox guarantee for a round of the worker: as long as no confirmation arrives after the call
  for its message has given up, an event that is recorded as published (before or by this round,
  with any failures of the database and the broker in it) is one whose routing key and payload
  the broker has accepted. The event a crash or a failed update leaves unmarked is not lost
  either: the stored contents never change.
\<close>

theorem batch_marks_only_delivered:
  assumes "pg_wf (sv_db w)" "confirms_in_time (sv_pub w)"
    and "\<forall>i. pg_marked (sv_db w) i \<longrightarrow> (\<exists>m. pg_content (sv_db w) i = Some m \<and> m \<in> svc_taken cfg w)"
    and "ProcessBatch (svc_worker cfg ctx wcfg) svc_env w = (res, w')"
  shows "(\<forall>i. pg_marked (sv_db w') i \<longrightarrow> (\<exists>m. pg_content (sv_db w') i = Some m \<and> m \<in> svc_taken cfg w'))
     \<and> pg_content (sv_db w') = pg_content (sv_db w)"
proof -
  have "svc_outbox.safe cfg w"
    using assms(1-3) by (simp add: svc_outbox.safe_def svc_inv_def svc_marked_def svc_content_def)
  from svc_outbox.ProcessBatch_safe [OF _ _ this, of "svc_worker cfg ctx wcfg" ctx svc_env]
  show ?thesis
    by (auto simp: assms(4) svc_outbox.safe_def svc_marked_def svc_content_def)
qed

text \<open>
  C3. The outbox guarantee for the whole life of the worker. Provided that no confirmation arrives
  after the call for its message has given up (a confirmation may be missing, negative, or in
  time), and with any other failures of the database and the broker: whenever \<open>Run\<close> returns,
  after any number of rounds, every event recorded as published is one whose routing key and
  payload the broker has accepted on the configured exchange. Accepted means that the broker
  took it over to route it; it does so also when no queue is bound to the key.
\<close>

theorem run_marks_only_delivered:
  assumes "pg_wf (sv_db w)" "confirms_in_time (sv_pub w)"
    and "\<forall>i. pg_marked (sv_db w) i \<longrightarrow> (\<exists>m. pg_content (sv_db w) i = Some m \<and> m \<in> svc_taken cfg w)"
    and "Run n (svc_worker cfg ctx wcfg) svc_env w = Some w'"
  shows "\<forall>i. pg_marked (sv_db w') i \<longrightarrow> (\<exists>m. pg_content (sv_db w') i = Some m \<and> m \<in> svc_taken cfg w')"
proof -
  have "svc_outbox.safe cfg w"
    using assms(1-3) by (simp add: svc_outbox.safe_def svc_inv_def svc_marked_def svc_content_def)
  from svc_outbox.Run_safe [OF _ _ this assms(4), of ctx] show ?thesis
    by (auto simp: svc_outbox.safe_def svc_marked_def svc_content_def)
qed

text \<open>
  C4. Liveness: when everything answers, \<open>Run\<close> (canceled while it waits on an empty table)
  returns, and by then every event that was due has been published exactly once, in insertion
  order whatever the batch size, and is marked. The number of due events bounds the rounds.
\<close>

theorem run_drains_backlog:
  assumes "healthy w" "sv_cancel_at w = Some t" "t \<le> pg_now (sv_db w) + wc_PollInterval (wc_withDefaults wcfg)"
    and "length (claimable (sv_db w)) < n"
  shows "\<exists>w'. Run n (svc_worker cfg ctx wcfg) svc_env w = Some w'
     \<and> (\<forall>r\<in>set (pg_rows (sv_db w)). row_due (sv_db w) r \<longrightarrow> pg_marked (sv_db w') (row_ID r))
     \<and> map (\<lambda>m. (pb_Key m, pb_Body m)) (ps_taken (sv_pub w')) =
         map (\<lambda>m. (pb_Key m, pb_Body m)) (ps_taken (sv_pub w)) @
         map (\<lambda>r. (row_RoutingKey r, row_Payload r)) (sort_key row_ID (filter (row_due (sv_db w)) (pg_rows (sv_db w))))"
proof -
  let ?w' = "env_wait svc_env (wc_PollInterval (wc_withDefaults wcfg)) (sent cfg ctx (claimed_events (sv_db w)) w)"
  have claim: "claimable (sv_db w) = sort_key row_ID (filter (row_due (sv_db w)) (pg_rows (sv_db w)))"
    using assms(1) by (simp add: healthy_def claimable_def)
  have run: "Run n (svc_worker cfg ctx wcfg) svc_env w = Some ?w'"
    using Run_drains [OF assms(1-3)] assms(4) by (simp add: claimed_events_def)
  have ids: "ev_ID ` set (claimed_events (sv_db w)) = row_ID ` {r \<in> set (pg_rows (sv_db w)). row_due (sv_db w) r}"
    by (auto simp: claimed_events_def claim image_image)
  have "pg_marked (sv_db ?w') (row_ID r)" if "r \<in> set (pg_rows (sv_db w))" "row_due (sv_db w) r" for r
    unfolding pg_marked_def
    by (rule bexI [of _ "r\<lparr>row_PublishedAt := Some (pg_now (sv_db w))\<rparr>"])
       (use that in \<open>auto simp: svc_env_def sent_def ids mark_ids_def\<close>)
  with run show ?thesis
    by (auto simp: svc_env_def sent_def event_message_def claimed_events_def claim)
qed

text \<open>
  C22. A failed publication backs off: the worker records the attempt and the reason, and makes
  the event due again after the initial delay for the first failure and the doubled, capped
  delay \<open>min(MaxBackoff, InitialBackoff * 2^attempts)\<close> for the later ones; until then no
  claim returns it. (The cap is not applied to the first delay.)
\<close>

theorem failed_publish_backs_off:
  assumes "pg_wf (sv_db w)" "pg_script (sv_db w) = []" "r \<in> set (pg_rows (sv_db w))"
    and "0 \<le> row_Attempts r" "row_Attempts r + 1 < 2 ^ 31"
    and "fst (Publisher_Publish cfg ctx (row_RoutingKey r) (row_Payload r) (sv_pub w)) = Some err"
    and "wc_InitialBackoff (wc_withDefaults wcfg) < 2 ^ 62" "wc_MaxBackoff (wc_withDefaults wcfg) \<le> 2 ^ 62"
    and "publishOne (svc_worker cfg ctx wcfg) (toOutboxEvent (toDomain r)) w = (ok, w')"
  shows "\<exists>r'\<in>set (pg_rows (sv_db w')). \<not> ok \<and> row_ID r' = row_ID r \<and> row_Attempts r' = row_Attempts r + 1
     \<and> row_LastError r' = nullable (err_text err)
     \<and> row_AvailableAt r' = pg_now (sv_db w) +
         (if row_Attempts r = 0 then wc_InitialBackoff (wc_withDefaults wcfg)
          else min (wc_MaxBackoff (wc_withDefaults wcfg)) (wc_InitialBackoff (wc_withDefaults wcfg) * 2 ^ nat (row_Attempts r)))
     \<and> (\<forall>t < row_AvailableAt r'. \<not> row_due ((sv_db w')\<lparr>pg_now := t\<rparr>) r')"
proof -
  let ?c = "wc_withDefaults wcfg" and ?e = "toOutboxEvent (toDomain r)" and ?a = "row_Attempts r + 1"
  define delay where "delay = outbox_backoffFor (wrap32 ?a) (wc_InitialBackoff ?c) (wc_MaxBackoff ?c)"
  let ?w1 = "w\<lparr>sv_pub := snd (Publisher_Publish cfg ctx (row_RoutingKey r) (row_Payload r) (sv_pub w))\<rparr>"
  let ?upd = "\<lambda>r. r\<lparr>row_Attempts := row_Attempts r + 1, row_LastError := nullable (err_text err),
    row_AvailableAt := pg_now (sv_db w) + delay\<rparr>"
  have wrap: "wrap32 ?a = ?a" using assms(4,5) by (simp add: in_i32_def)
  have delay: "delay = (if row_Attempts r = 0 then wc_InitialBackoff ?c
      else min (wc_MaxBackoff ?c) (wc_InitialBackoff ?c * 2 ^ nat (row_Attempts r)))"
    using outbox_backoffFor_closed [of ?a "wc_InitialBackoff ?c" "wc_MaxBackoff ?c"] assms(4,5,7,8) wc_withDefaults_pos(3) [of wcfg]
    by (auto simp: delay_def wrap outbox_backoffFor_def)
  have pub: "on_pub (Publisher_Publish cfg ctx (row_RoutingKey r) (row_Payload r)) w = (Some err, ?w1)"
    using assms(6) by (auto simp: on_pub_def split: prod.split)
  have "y = r" if "y \<in> set (pg_rows (sv_db w))" "row_ID y = row_ID r" for y
    using that assms(1,3) by (auto simp: pg_wf_def distinct_map inj_on_def)
  then have no_overflow: "\<not> (\<exists>y\<in>set (pg_rows (sv_db w)). row_ID y = row_ID r \<and> \<not> in_i32 (row_Attempts y + 1))"
    using assms(4,5) by (fastforce simp: in_i32_def)
  have "sv_db w' = (sv_db w)\<lparr>pg_rows := update_rows (row_ID r) ?upd (pg_rows (sv_db w))\<rparr> \<and> \<not> ok"
    using assms(2,9) pub no_overflow
    by (auto simp: publishOne_def reschedule_def Let_def svc_publisher_def on_db_def repo_Reschedule_def RescheduleOutboxEvent_def
        err_of_def pg_write_def pg_call_def delay_def wrap simp del: svc_publisher_sel split: prod.splits)
  moreover from this have "?upd r \<in> set (pg_rows (sv_db w'))" using assms(3) by (auto simp: update_rows_def)
  ultimately show ?thesis by (intro bexI [of _ "?upd r"]) (auto simp: delay row_due_def)
qed

section \<open>A concrete service\<close>

definition demo_cfg :: amqp_config where
  "demo_cfg = am_withDefaults \<lparr>am_URL = ''amqp://localhost/'', am_Exchange = '''', am_Prefetch = 0, am_MaxAttempts = 0,
     am_InitialBackoff = 0, am_MaxBackoff = 0, am_PublishTimeout = 0, am_ReconnectDelay = 0\<rparr>"

definition demo_ctx :: go_ctx where
  "demo_ctx = \<lparr>ctx_logger = None,
     ctx_span = \<lparr>span_trace_id = ''4bf9'', span_span_id = ''00f0'', span_valid = True\<rparr>, ctx_md = None, ctx_peer = None\<rparr>"

definition demo_wcfg :: worker_config where
  "demo_wcfg = \<lparr>wc_PollInterval = 0, wc_BatchSize = 2, wc_InitialBackoff = 0, wc_MaxBackoff = 0\<rparr>"

definition demo_svc :: "fate list \<Rightarrow> svc" where
  "demo_svc fates =
     \<lparr>sv_db = demo_db,
      sv_pub = \<lparr>ps_taken = [], ps_confirm = [], ps_closed = False, ps_script = fates\<rparr>,
      sv_cancel_at = Some 20\<rparr>"

lemmas demo_defs = demo_cfg_def demo_ctx_def demo_wcfg_def demo_db_def demo_row_def demo_svc_def

abbreviation demo_batch :: "fate list \<Rightarrow> (nat \<times> go_error option) \<times> svc" where
  "demo_batch fates \<equiv> ProcessBatch (svc_worker demo_cfg demo_ctx demo_wcfg) svc_env (demo_svc fates)"

theorem batch_marks_only_delivered_witness:
  "fst (demo_batch [Answered False]) = (1, None)
   \<and> pg_marked (sv_db (snd (demo_batch [Answered False]))) 2
   \<and> (\<exists>m. pg_content (sv_db (snd (demo_batch [Answered False]))) 2 = Some m
          \<and> m \<in> svc_taken demo_cfg (snd (demo_batch [Answered False])))"
proof -
  have res: "fst (demo_batch [Answered False]) = (1, None)" by code_simp
  have marked: "pg_marked (sv_db (snd (demo_batch [Answered False]))) 2" by code_simp
  have wf: "pg_wf (sv_db (demo_svc [Answered False]))" "confirms_in_time (sv_pub (demo_svc [Answered False]))" by code_simp+
  have none: "\<forall>i. pg_marked (sv_db (demo_svc [Answered False])) i \<longrightarrow>
      (\<exists>m. pg_content (sv_db (demo_svc [Answered False])) i = Some m \<and> m \<in> svc_taken demo_cfg (demo_svc [Answered False]))"
    by (simp add: pg_marked_def demo_defs)
  from batch_marks_only_delivered [OF wf none prod.collapse [symmetric]] res marked show ?thesis by blast
qed

theorem run_marks_only_delivered_witness:
  "\<exists>w'. Run 4 (svc_worker demo_cfg demo_ctx demo_wcfg) svc_env (demo_svc [Answered False]) = Some w' \<and> pg_marked (sv_db w') 2
     \<and> (\<exists>m. pg_content (sv_db w') 2 = Some m \<and> m \<in> svc_taken demo_cfg w')"
proof -
  let ?run = "Run 4 (svc_worker demo_cfg demo_ctx demo_wcfg) svc_env (demo_svc [Answered False])"
  have "map_option (\<lambda>w. pg_marked (sv_db w) 2) ?run = Some True" by code_simp
  then obtain w' where w': "?run = Some w'" "pg_marked (sv_db w') 2" by auto
  have wf: "pg_wf (sv_db (demo_svc [Answered False]))" "confirms_in_time (sv_pub (demo_svc [Answered False]))" by code_simp+
  have none: "\<forall>i. pg_marked (sv_db (demo_svc [Answered False])) i \<longrightarrow>
      (\<exists>m. pg_content (sv_db (demo_svc [Answered False])) i = Some m \<and> m \<in> svc_taken demo_cfg (demo_svc [Answered False]))"
    by (simp add: pg_marked_def demo_defs)
  from run_marks_only_delivered [OF wf none w'(1)] w' show ?thesis by blast
qed

theorem run_drains_backlog_witness:
  "\<exists>w'. Run 4 (svc_worker demo_cfg demo_ctx demo_wcfg) svc_env (demo_svc []) = Some w'
     \<and> map (\<lambda>m. (pb_Key m, pb_Body m)) (ps_taken (sv_pub w')) = [(''a'', ''{}''), (''b'', ''{}''), (''c'', ''{}'')]"
proof -
  have "healthy (demo_svc [])" by code_simp
  moreover have "length (claimable (sv_db (demo_svc []))) < 4" by code_simp
  moreover have "map (\<lambda>r. (row_RoutingKey r, row_Payload r))
      (sort_key row_ID (filter (row_due (sv_db (demo_svc []))) (pg_rows (sv_db (demo_svc []))))) =
      [(''a'', ''{}''), (''b'', ''{}''), (''c'', ''{}'')]" by code_simp
  moreover have "sv_cancel_at (demo_svc []) = Some 20" "ps_taken (sv_pub (demo_svc [])) = []"
    "20 \<le> pg_now (sv_db (demo_svc [])) + wc_PollInterval (wc_withDefaults demo_wcfg)"
    by (simp_all add: demo_defs wc_withDefaults_def Let_def)
  ultimately show ?thesis
    using run_drains_backlog [of "demo_svc []" 20 demo_wcfg 4 demo_cfg demo_ctx] by auto
qed

text \<open>
  A confirmation that comes too late is taken for the next message's: here the broker confirms
  the first event after the timeout and refuses the second, and the worker records the second
  as published although the broker never accepted it.
\<close>

theorem stale_confirmation_loses_event:
  "pg_marked (sv_db (snd (demo_batch [Late True ctx_DeadlineExceeded, Answered False]))) 2
   \<and> map pb_Key (ps_taken (sv_pub (snd (demo_batch [Late True ctx_DeadlineExceeded, Answered False])))) = [''a'']"
  by code_simp

theorem failed_publish_backs_off_witness:
  "\<exists>r'\<in>set (pg_rows (sv_db (snd (publishOne (svc_worker demo_cfg demo_ctx demo_wcfg)
        (toOutboxEvent (toDomain (demo_row 1 ''a''))) (demo_svc [Refused False amqp_ErrClosed]))))).
     row_ID r' = 1 \<and> row_Attempts r' = 1 \<and> row_AvailableAt r' = 10 + 5 * Second"
proof -
  note T = failed_publish_backs_off [of "demo_svc [Refused False amqp_ErrClosed]" "demo_row 1 ''a''" demo_cfg demo_ctx
      "Errorf ''publishing \"a\"'' amqp_ErrClosed" demo_wcfg, OF _ _ _ _ _ _ _ _ prod.collapse [symmetric]]
  have "fst (Publisher_Publish demo_cfg demo_ctx (row_RoutingKey (demo_row 1 ''a'')) (row_Payload (demo_row 1 ''a''))
      (sv_pub (demo_svc [Refused False amqp_ErrClosed]))) = Some (Errorf ''publishing \"a\"'' amqp_ErrClosed)"
    by code_simp
  from T [OF _ _ _ _ _ this] show ?thesis
    by (fastforce simp: demo_defs pg_wf_def wc_withDefaults_def Let_def)
qed

end
