(* ===== verification/Amqp_Consumer.thy ===== *)
theory Amqp_Consumer
  imports Amqp_Broker
begin

text \<open>
  \<open>pkg/amqp/consumer.go\<close>: what the consumer does with a delivery. The world is the broker,
  the log, the calls of the handler with their results, and the channel. A delivery stays with the
  broker until it is acknowledged; a negative acknowledgement without requeue, and the expiry of a
  message in the retry queue, send it to the queue named by the dead-letter arguments.

  A publication on the consumer's channel and an acknowledgement are asynchronous: the library
  writes a frame and returns nil, and nobody answers. The frames of a channel reach the broker in
  order, up to the moment the channel is lost; after that the calls may go on returning nil, with
  no effect. A publication that is not mandatory vanishes when the queue does not exist.
\<close>

section \<open>Queues and deliveries\<close>

definition msgs :: "broker \<Rightarrow> string \<Rightarrow> message list" where
  "msgs b q = (case map_of (br_queues b) q of None \<Rightarrow> [] | Some x \<Rightarrow> q_messages x)"

definition update_queue :: "string \<Rightarrow> (message list \<Rightarrow> message list) \<Rightarrow> broker \<Rightarrow> broker" where
  "update_queue q f b = b\<lparr>br_queues := AList.map_entry q (\<lambda>x. x\<lparr>q_messages := f (q_messages x)\<rparr>) (br_queues b)\<rparr>"

text \<open>The default exchange: to the queue of that name, or nowhere.\<close>

definition enqueue :: "string \<Rightarrow> message \<Rightarrow> broker \<Rightarrow> broker" where
  "enqueue q m = update_queue q (\<lambda>ms. ms @ [m])"

definition dead_letter_target :: "string \<Rightarrow> broker \<Rightarrow> string option" where
  "dead_letter_target q b =
     (case map_of (br_queues b) q of None \<Rightarrow> None | Some x \<Rightarrow> map_of (q_args x) ''x-dead-letter-routing-key'')"

definition dead_lettered :: "string \<Rightarrow> message \<Rightarrow> broker \<Rightarrow> broker" where
  "dead_lettered q m b =
     (case dead_letter_target q b of None \<Rightarrow> b | Some target \<Rightarrow> enqueue target (m\<lparr>msg_Expiration := ''''\<rparr>) b)"

definition settle :: "nat \<Rightarrow> broker \<Rightarrow> broker" where
  "settle tag b = b\<lparr>br_unacked := filter (\<lambda>d. fst d \<noteq> tag) (br_unacked b)\<rparr>"

text \<open>
  What the broker does with a frame; \<open>None\<close>: it answers with an exception that closes the channel,
  as for a delivery tag it does not know.
\<close>

definition ack_frame :: "nat \<Rightarrow> broker \<Rightarrow> broker option" where
  "ack_frame tag b = (if map_of (br_unacked b) tag = None then None else Some (settle tag b))"

definition nack_frame :: "nat \<Rightarrow> broker \<Rightarrow> broker option" where
  "nack_frame tag b =
     (case map_of (br_unacked b) tag of None \<Rightarrow> None | Some (q, m) \<Rightarrow> Some (dead_lettered q m (settle tag b)))"

definition publish_frame :: "message \<Rightarrow> broker \<Rightarrow> broker option" where
  "publish_frame m b = Some (enqueue (msg_RoutingKey m) m b)"

text \<open>The broker's own steps: a delivery to the consumer, and the expiry of the head of a queue.\<close>

definition deliver :: "string \<Rightarrow> broker \<Rightarrow> ((nat \<times> message) \<times> broker) option" where
  "deliver q b =
     (case msgs b q of
        [] \<Rightarrow> None
      | m # _ \<Rightarrow> Some ((br_tag b, m),
          (update_queue q tl b)\<lparr>br_unacked := br_unacked b @ [(br_tag b, q, m)], br_tag := br_tag b + 1\<rparr>))"

definition expire :: "string \<Rightarrow> broker \<Rightarrow> broker" where
  "expire q b = (case msgs b q of [] \<Rightarrow> b | m # _ \<Rightarrow> dead_lettered q m (update_queue q tl b))"

section \<open>The consumer\<close>

text \<open>
  \<open>cw_link\<close>: how many more frames of the channel reach the broker, \<open>None\<close> when all do.
  \<open>cw_handled\<close>: the messages the handler was called with, and what it returned.
\<close>

record cworld =
  cw_broker :: broker
  cw_log :: "log_line list"
  cw_link :: "nat option"
  cw_handled :: "(message \<times> go_error option) list"

definition say :: "log_line list \<Rightarrow> cworld \<Rightarrow> cworld" where
  "say ls w = w\<lparr>cw_log := cw_log w @ ls\<rparr>"

definition on_broker :: "(broker \<Rightarrow> go_error option \<times> broker) \<Rightarrow> cworld \<Rightarrow> go_error option \<times> cworld" where
  "on_broker f w = (case f (cw_broker w) of (r, b) \<Rightarrow> (r, w\<lparr>cw_broker := b\<rparr>))"

definition transmit :: "(broker \<Rightarrow> broker option) \<Rightarrow> cworld \<Rightarrow> cworld" where
  "transmit f w =
     (if cw_link w = Some 0 then w
      else case f (cw_broker w) of
             None \<Rightarrow> w\<lparr>cw_link := Some 0\<rparr>
           | Some b \<Rightarrow> w\<lparr>cw_broker := b, cw_link := map_option (\<lambda>n. n - 1) (cw_link w)\<rparr>)"

text \<open>
  The library's call: it fails without or after writing the frame, or writes it and returns nil,
  which says nothing about the broker.
\<close>

definition send_frame :: "(broker \<Rightarrow> broker option) \<Rightarrow> cworld \<Rightarrow> go_error option \<times> cworld" where
  "send_frame f w =
     (case br_call (cw_broker w) of (r, b) \<Rightarrow>
        (case r of
           Ok \<Rightarrow> (None, transmit f (w\<lparr>cw_broker := b\<rparr>))
         | Fail e \<Rightarrow> (Some e, w\<lparr>cw_broker := b\<rparr>)
         | FailApplied e \<Rightarrow> (Some e, transmit f (w\<lparr>cw_broker := b\<rparr>))))"

definition contextFor :: "consumer \<Rightarrow> go_ctx \<Rightarrow> message \<Rightarrow> go_ctx" where
  "contextFor c ctx d =
     (let log = (co_log c)\<lparr>lg_fields := lg_fields (co_log c) @
            [(''queue'', qs_Name (co_spec c)), (''routing_key'', msg_RoutingKey d)]\<rparr>;
          log = (case map_of (msg_Headers d) HeaderTraceID of
                   Some (HString traceID) \<Rightarrow>
                     if traceID \<noteq> '''' then log\<lparr>lg_fields := lg_fields log @ [(FieldTraceID, traceID)]\<rparr> else log
                 | _ \<Rightarrow> log)
      in WithContext ctx log)"

definition consumer_ack :: "go_ctx \<Rightarrow> nat \<Rightarrow> cworld \<Rightarrow> cworld" where
  "consumer_ack ctx tag w =
     (case send_frame (ack_frame tag) w of
        (Some err, w') \<Rightarrow> say (emit (Ctx ctx) ErrorLevel [] (Some err) ''acknowledging the message'') w'
      | (None, w') \<Rightarrow> w')"

definition publishRaw :: "string \<Rightarrow> bytes \<Rightarrow> headers \<Rightarrow> string \<Rightarrow> cworld \<Rightarrow> go_error option \<times> cworld" where
  "publishRaw routingKey body hs expiration w =
     (case send_frame (publish_frame
             \<lparr>msg_RoutingKey = routingKey, msg_Headers = hs, msg_Body = body, msg_Expiration = expiration\<rparr>) w of
        (Some err, w') \<Rightarrow> (Some (Errorf (''publishing to '' @ quote routingKey) err), w')
      | (None, w') \<Rightarrow> (None, w'))"

definition consumer_nack :: "go_ctx \<Rightarrow> nat \<Rightarrow> cworld \<Rightarrow> cworld" where
  "consumer_nack ctx tag w =
     (case send_frame (nack_frame tag) w of
        (Some err, w') \<Rightarrow> say (emit (Ctx ctx) ErrorLevel [] (Some err) ''negatively acknowledging the message'') w'
      | (None, w') \<Rightarrow> w')"

text \<open>\<open>time.Duration.Milliseconds\<close>: division that truncates toward zero.\<close>

definition Milliseconds :: "duration \<Rightarrow> int" where
  "Milliseconds d = (if d < 0 then - (- d div Millisecond) else d div Millisecond)"

definition scheduleRetry ::
  "consumer \<Rightarrow> string \<Rightarrow> go_ctx \<Rightarrow> nat \<times> message \<Rightarrow> outcome \<Rightarrow> go_error \<Rightarrow> cworld \<Rightarrow> cworld" where
  "scheduleRetry c now ctx d oc handlerErr w0 =
     (let w1 = say (emit (Ctx ctx) WarnLevel [(''attempt'', Itoa (oc_Attempt oc)),
                 (''max_attempts'', Itoa (am_MaxAttempts (cn_cfg (co_conn c)))), (''retry_in'', Itoa (oc_Delay oc))]
                 (Some handlerErr) ''the handler failed, scheduling a retry'') w0;
          hs = retryHeaders now (snd d) (oc_Attempt oc) (err_text handlerErr);
          expiration = Itoa (Milliseconds (oc_Delay oc))
      in case publishRaw (RetryQueueName (qs_Name (co_spec c))) (msg_Body (snd d)) hs expiration w1 of
           (Some err, w2) \<Rightarrow>
             consumer_nack ctx (fst d)
               (say (emit (Ctx ctx) ErrorLevel [] (Some err) ''could not schedule the retry, dead-lettering'') w2)
         | (None, w2) \<Rightarrow> consumer_ack ctx (fst d) w2)"

definition deadLetter ::
  "consumer \<Rightarrow> string \<Rightarrow> go_ctx \<Rightarrow> nat \<times> message \<Rightarrow> outcome \<Rightarrow> go_error \<Rightarrow> cworld \<Rightarrow> cworld" where
  "deadLetter c now ctx d oc handlerErr w0 =
     (let w1 = say (emit (Ctx ctx) ErrorLevel [(''attempts'', Itoa (oc_Attempt oc)), (''queue'', qs_Name (co_spec c)),
                 (''dlq'', DLQName (qs_Name (co_spec c)))]
                 (Some handlerErr) ''attempts exhausted, the message goes to the dead-letter queue'') w0;
          hs = retryHeaders now (snd d) (oc_Attempt oc) (err_text handlerErr)
      in case publishRaw (DLQName (qs_Name (co_spec c))) (msg_Body (snd d)) hs '''' w1 of
           (Some err, w2) \<Rightarrow>
             consumer_nack ctx (fst d)
               (say (emit (Ctx ctx) ErrorLevel [] (Some err) ''could not publish to the DLQ, falling back to nack'') w2)
         | (None, w2) \<Rightarrow> consumer_ack ctx (fst d) w2)"

text \<open>
  \<open>handle\<close>; \<open>f2i\<close> converts a float64 header and \<open>now\<close> is the current time as text.
\<close>

definition handle ::
  "consumer \<Rightarrow> (64 word \<Rightarrow> int) \<Rightarrow> string \<Rightarrow> go_ctx \<Rightarrow> nat \<times> message \<Rightarrow> (go_ctx \<Rightarrow> message \<Rightarrow> go_error option) \<Rightarrow> cworld \<Rightarrow> cworld" where
  "handle c f2i now ctx0 d handler w =
     (let cfg = cn_cfg (co_conn c);
          ctx = contextFor c ctx0 (snd d);
          handlerErr = handler ctx (snd d);
          w = w\<lparr>cw_handled := cw_handled w @ [(snd d, handlerErr)]\<rparr>;
          oc = decide handlerErr (attemptsOf f2i (snd d)) (am_MaxAttempts cfg) (am_InitialBackoff cfg) (am_MaxBackoff cfg)
      in case oc_Action oc of
           ActionAck \<Rightarrow> consumer_ack ctx (fst d) w
         | ActionRetry \<Rightarrow> (case handlerErr of None \<Rightarrow> w | Some err \<Rightarrow> scheduleRetry c now ctx d oc err w)
         | ActionDeadLetter \<Rightarrow> (case handlerErr of None \<Rightarrow> w | Some err \<Rightarrow> deadLetter c now ctx d oc err w))"

text \<open>
  \<open>Consume\<close>. \<open>basic.consume\<close> is refused for a queue that does not exist; otherwise it opens
  the deliveries, and \<open>basic.cancel\<close> ends them. The end of a consumer: it cancels the
  subscription unless the channel is closed already, while \<open>drain\<close> reads what was handed over
  before, until the deliveries are closed or \<open>drainTimeout\<close> has passed; the number of
  messages read is only logged. Their interleaving is the subject of the theory \<open>Amqp_Shutdown\<close>.
\<close>

definition channel_Consume :: "string \<Rightarrow> broker \<Rightarrow> go_error option \<times> broker" where
  "channel_Consume q = br_do (\<lambda>b. if map_of (br_queues b) q = None then Inl br_NotFound else Inr b)"

definition channel_Cancel :: "broker \<Rightarrow> go_error option \<times> broker" where
  "channel_Cancel = br_do Inr"

definition drainTimeout :: duration where "drainTimeout = 30 * Second"

datatype drain_end = Emptied nat | GaveUp nat \<comment> \<open>deliveries read until the close, until the timeout\<close>

definition consumer_cancel :: "consumer \<Rightarrow> cworld \<Rightarrow> cworld" where
  "consumer_cancel c w =
     (if Chan (cn_conn (co_conn c)) (co_channel c) \<notin> set (br_open (cw_broker w)) then w
      else (case on_broker channel_Cancel w of
              (Some err, w') \<Rightarrow>
                say (emit (co_log c) WarnLevel [(''queue'', qs_Name (co_spec c))] (Some err) ''canceling the consumer'') w'
            | (None, w') \<Rightarrow> w'))"

fun consumer_drain :: "consumer \<Rightarrow> drain_end \<Rightarrow> cworld \<Rightarrow> cworld" where
  "consumer_drain c (Emptied n) w =
     say (emit (co_log c) DebugLevel [(''queue'', qs_Name (co_spec c)), (''redelivered'', Itoa (int n))] None
       ''the consumer was canceled and its deliveries drained'') w"
| "consumer_drain c (GaveUp n) w =
     say (emit (co_log c) WarnLevel [(''queue'', qs_Name (co_spec c)), (''after'', Itoa drainTimeout),
         (''redelivered'', Itoa (int n))] None
       ''gave up draining the consumer; the broker did not confirm the cancellation'') w"

definition consumer_stop :: "consumer \<Rightarrow> drain_end \<Rightarrow> cworld \<Rightarrow> cworld" where
  "consumer_stop c e w = consumer_drain c e (consumer_cancel c w)"

text \<open>
  The loop: what its select sees, in order. \<open>Inr ()\<close> is a return with nil after the
  cancellation, \<open>Inl\<close> one with an error, and \<open>None\<close> means that the loop is still waiting. A
  message leaves the queue when the loop takes its delivery; one the library holds in advance, within
  the prefetch, counts as waiting. \<open>Expired\<close> is the broker's step on the retry queue.
\<close>

datatype cevent = Delivered | CtxDone drain_end | DeliveriesClosed | Expired

fun consume_loop ::
  "consumer \<Rightarrow> (64 word \<Rightarrow> int) \<Rightarrow> string \<Rightarrow> go_ctx \<Rightarrow> (go_ctx \<Rightarrow> message \<Rightarrow> go_error option) \<Rightarrow> cevent list \<Rightarrow> cworld
   \<Rightarrow> (go_error + unit) option \<times> cworld" where
  "consume_loop c f2i now ctx handler [] w = (None, w)"
| "consume_loop c f2i now ctx handler (CtxDone e # evs) w = (Some (Inr ()), consumer_stop c e w)"
| "consume_loop c f2i now ctx handler (DeliveriesClosed # evs) w = (Some (Inl ErrConnectionClosed), w)"
| "consume_loop c f2i now ctx handler (Expired # evs) w =
     consume_loop c f2i now ctx handler evs (w\<lparr>cw_broker := expire (RetryQueueName (qs_Name (co_spec c))) (cw_broker w)\<rparr>)"
| "consume_loop c f2i now ctx handler (Delivered # evs) w =
     (case deliver (qs_Name (co_spec c)) (cw_broker w) of
        None \<Rightarrow> consume_loop c f2i now ctx handler evs w
      | Some (d, b) \<Rightarrow> consume_loop c f2i now ctx handler evs (handle c f2i now ctx d handler (w\<lparr>cw_broker := b\<rparr>)))"

definition Consume ::
  "consumer \<Rightarrow> (64 word \<Rightarrow> int) \<Rightarrow> string \<Rightarrow> go_ctx \<Rightarrow> (go_ctx \<Rightarrow> message \<Rightarrow> go_error option) \<Rightarrow> cevent list \<Rightarrow> cworld
   \<Rightarrow> (go_error + unit) option \<times> cworld" where
  "Consume c f2i now ctx handler evs w =
     (case on_broker (channel_Consume (qs_Name (co_spec c))) w of
        (Some err, w') \<Rightarrow> (Some (Inl (Errorf (''consuming from '' @ quote (qs_Name (co_spec c))) err)), w')
      | (None, w') \<Rightarrow>
          consume_loop c f2i now ctx handler evs
            (say (emit (co_log c) InfoLevel [(''queue'', qs_Name (co_spec c)), (''prefetch'', Itoa (am_Prefetch (cn_cfg (co_conn c)))),
                (''max_attempts'', Itoa (am_MaxAttempts (cn_cfg (co_conn c))))] None ''consuming'') w'))"

text \<open>
  \<open>Close\<close>, as to its result: the reader that \<open>keepDrained\<close> starts discards deliveries, which
  stay unacknowledged at the broker.
\<close>

definition Consumer_Close :: "consumer \<Rightarrow> broker \<Rightarrow> go_error option \<times> broker" where
  "Consumer_Close c b =
     (case channel_Close (cn_conn (co_conn c)) (co_channel c) b of
        (Some err, b') \<Rightarrow> (Some (Errorf ''closing the consumer channel'' err), b')
      | (None, b') \<Rightarrow> (None, b'))"

section \<open>Lemmas: where the messages are\<close>

lemma map_of_update_queue:
  "map_of (br_queues (update_queue q f b)) n =
     (if n = q then map_option (\<lambda>x. x\<lparr>q_messages := f (q_messages x)\<rparr>) (map_of (br_queues b) n)
      else map_of (br_queues b) n)"
  by (simp add: update_queue_def map_of_map_entry split: option.split)

lemma msgs_update_queue:
  "map_of (br_queues b) q \<noteq> None \<Longrightarrow> msgs (update_queue q f b) n = (if n = q then f (msgs b q) else msgs b n)"
  by (auto simp: msgs_def map_of_update_queue split: option.split)

lemma update_queue_frame [simp]:
  "br_unacked (update_queue q f b) = br_unacked b" "br_script (update_queue q f b) = br_script b"
  "br_tag (update_queue q f b) = br_tag b"
  by (simp_all add: update_queue_def)

text \<open>How many copies of a body the broker holds, in its queues or waiting for an acknowledgement.\<close>

definition copies_in :: "bytes \<Rightarrow> message list \<Rightarrow> nat" where
  "copies_in body ms = length (filter (\<lambda>m. msg_Body m = body) ms)"

definition copies :: "bytes \<Rightarrow> broker \<Rightarrow> nat" where
  "copies body b = sum_list (map (\<lambda>(n, x). copies_in body (q_messages x)) (br_queues b))
     + copies_in body (map (\<lambda>(t, q, m). m) (br_unacked b))"

lemma copies_script [simp]: "copies body (b\<lparr>br_script := s\<rparr>) = copies body b"
  by (simp add: copies_def)

lemma sum_map_entry:
  "map_of xs q = Some v \<Longrightarrow>
   sum_list (map (\<lambda>(n, x). g x) (AList.map_entry q f xs)) + g v = sum_list (map (\<lambda>(n, x). g x) xs) + (g (f v) :: nat)"
  by (induction xs) (auto split: if_splits)

lemma copies_enqueue:
  assumes "map_of (br_queues b) q \<noteq> None"
  shows "copies body (enqueue q m b) = copies body b + (if msg_Body m = body then 1 else 0)"
proof -
  from assms obtain v where "map_of (br_queues b) q = Some v" by blast
  from sum_map_entry [OF this, of "\<lambda>x. copies_in body (q_messages x)" "\<lambda>x. x\<lparr>q_messages := q_messages x @ [m]\<rparr>"]
  show ?thesis by (simp add: copies_def enqueue_def update_queue_def copies_in_def)
qed

lemma copies_in_Cons: "copies_in body (m # ms) = (if msg_Body m = body then 1 else 0) + copies_in body ms"
  by (simp add: copies_in_def)

lemma copies_settle:
  assumes "map_of (br_unacked b) tag = Some (q, m)" "distinct (map fst (br_unacked b))"
  shows "copies body b = copies body (settle tag b) + (if msg_Body m = body then 1 else 0)"
proof -
  have "copies_in body (map (\<lambda>(t, q, m). m) xs) =
      copies_in body (map (\<lambda>(t, q, m). m) (filter (\<lambda>d. fst d \<noteq> tag) xs)) + (if msg_Body m = body then 1 else 0)"
    if "map_of xs tag = Some (q, m)" "distinct (map fst xs)" for xs :: "(nat \<times> string \<times> message) list"
    using that
  proof (induction xs)
    case (Cons x xs)
    have "filter (\<lambda>d. fst d \<noteq> fst x) xs = xs" using Cons.prems(2) unfolding filter_id_conv by (auto intro: rev_image_eqI)
    with Cons show ?case by (cases x) (auto simp: copies_in_Cons split: if_splits)
  qed simp
  from this [OF assms] show ?thesis by (simp add: copies_def settle_def)
qed

text \<open>The queues of a consumer are there, with the arguments it declares.\<close>

definition consumer_ready :: "string \<Rightarrow> broker \<Rightarrow> bool" where
  "consumer_ready q b \<longleftrightarrow> dead_letter_target q b = Some (DLQName q) \<and> dead_letter_target (RetryQueueName q) b = Some q
     \<and> map_of (br_queues b) (DLQName q) \<noteq> None"

lemma dead_letter_target_update [simp]: "dead_letter_target q (update_queue n f b) = dead_letter_target q b"
  by (simp add: dead_letter_target_def map_of_update_queue split: option.split)

lemma dead_letter_target_frame [simp]:
  "dead_letter_target q (b\<lparr>br_unacked := u\<rparr>) = dead_letter_target q b"
  "dead_letter_target q (b\<lparr>br_tag := t\<rparr>) = dead_letter_target q b"
  "dead_letter_target q (b\<lparr>br_script := s\<rparr>) = dead_letter_target q b"
  "dead_letter_target q (settle tag b) = dead_letter_target q b"
  by (simp_all add: dead_letter_target_def settle_def)

lemma consumer_ready_queues:
  "consumer_ready q b \<Longrightarrow> map_of (br_queues b) q \<noteq> None \<and> map_of (br_queues b) (RetryQueueName q) \<noteq> None
     \<and> map_of (br_queues b) (DLQName q) \<noteq> None"
  by (auto simp: consumer_ready_def dead_letter_target_def split: option.splits)

lemma consumer_ready_kept [simp]:
  "consumer_ready q (update_queue n f b) = consumer_ready q b"
  "consumer_ready q (settle tag b) = consumer_ready q b"
  "consumer_ready q (b\<lparr>br_unacked := u\<rparr>) = consumer_ready q b"
  "consumer_ready q (b\<lparr>br_script := s\<rparr>) = consumer_ready q b"
  "consumer_ready q (b\<lparr>br_tag := t\<rparr>) = consumer_ready q b"
  by (auto simp: consumer_ready_def map_of_update_queue settle_def)

section \<open>Lemmas: nothing is lost\<close>

text \<open>
  \<open>holds q d b\<close>: the consumer's queues are there and the broker waits for the
  acknowledgement of \<open>d\<close>, which came from \<open>q\<close>.
\<close>

definition holds :: "string \<Rightarrow> nat \<times> message \<Rightarrow> broker \<Rightarrow> bool" where
  "holds q d b \<longleftrightarrow> consumer_ready q b \<and> distinct (map fst (br_unacked b))
     \<and> map_of (br_unacked b) (fst d) = Some (q, snd d)"

lemma say_broker [simp]: "cw_broker (say ls w) = cw_broker w"
  by (simp add: say_def)

lemma holds_update_queue [simp]: "holds q d (update_queue n f b) = holds q d b"
  by (simp add: holds_def)

lemma holds_unscripted: "unscripted a = unscripted b \<Longrightarrow> holds q d a = holds q d b"
  by (cases a; cases b) (simp add: holds_def consumer_ready_def dead_letter_target_def)

lemma copies_unscripted: "unscripted a = unscripted b \<Longrightarrow> copies body a = copies body b"
  by (cases a; cases b) (simp add: copies_def)

lemma unscripted_queues: "unscripted a = unscripted b \<Longrightarrow> br_queues a = br_queues b"
  by (cases a; cases b) simp

lemma holds_settle:
  "holds q d b \<Longrightarrow> copies body b = copies body (settle (fst d) b) + (if msg_Body (snd d) = body then 1 else 0)"
  unfolding holds_def by (rule copies_settle) auto

lemma msgs_unscripted: "unscripted a = unscripted b \<Longrightarrow> msgs a = msgs b"
  by (cases a; cases b) (simp add: msgs_def fun_eq_iff)

text \<open>A frame arrives, or it does not: then the call failed or the channel is lost.\<close>

lemma send_frame_cases:
  assumes "send_frame f w = (r, w')"
  obtains (unsent) "unscripted (cw_broker w') = unscripted (cw_broker w)" "r \<noteq> None \<or> cw_link w' = Some 0"
    | (arrived) b1 where "unscripted b1 = unscripted (cw_broker w)" "f b1 = Some (cw_broker w')" "cw_link w \<noteq> Some 0"
proof -
  obtain reply b1 where call: "br_call (cw_broker w) = (reply, b1)" by force
  note b1 = br_call_unscripted [OF call]
  show thesis
    using assms call b1 that
    by (cases reply; cases "f b1") (auto simp: send_frame_def transmit_def split: if_splits)
qed

lemma send_frame_frame:
  "cw_handled (snd (send_frame f w)) = cw_handled w" "cw_log (snd (send_frame f w)) = cw_log w"
  by (auto simp: send_frame_def transmit_def split: prod.split reply.split option.split)

lemma publishRaw_send:
  assumes "publishRaw k body hs x w = (r, w')"
  obtains r' where "send_frame (publish_frame \<lparr>msg_RoutingKey = k, msg_Headers = hs, msg_Body = body, msg_Expiration = x\<rparr>) w = (r', w')"
    "r = None \<longleftrightarrow> r' = None"
  using assms by (auto simp: publishRaw_def split: prod.splits option.splits)

lemma ack_send:
  obtains r w' where "send_frame (ack_frame tag) w = (r, w')" "cw_broker (consumer_ack ctx tag w) = cw_broker w'"
    "cw_link (consumer_ack ctx tag w) = cw_link w'" "cw_handled (consumer_ack ctx tag w) = cw_handled w'"
  by (cases "send_frame (ack_frame tag) w") (auto simp: consumer_ack_def say_def split: option.splits)

lemma nack_send:
  obtains r w' where "send_frame (nack_frame tag) w = (r, w')" "cw_broker (consumer_nack ctx tag w) = cw_broker w'"
    "cw_link (consumer_nack ctx tag w) = cw_link w'" "cw_handled (consumer_nack ctx tag w) = cw_handled w'"
  by (cases "send_frame (nack_frame tag) w") (auto simp: consumer_nack_def say_def split: option.splits)

text \<open>
  \<open>grown S body b b' new\<close>: between \<open>b\<close> and \<open>b'\<close> every queue \<open>k\<close> has got the messages \<open>new k\<close>, all of them
  with this body, and only queues of \<open>S\<close> got any.
\<close>

definition grown :: "string set \<Rightarrow> bytes \<Rightarrow> broker \<Rightarrow> broker \<Rightarrow> (string \<Rightarrow> message list) \<Rightarrow> bool" where
  "grown S body b b' new \<longleftrightarrow> (\<forall>k. msgs b' k = msgs b k @ new k) \<and> (\<forall>k. \<forall>m\<in>set (new k). msg_Body m = body)
     \<and> (\<forall>k. new k \<noteq> [] \<longrightarrow> k \<in> S)"

lemma grown_same: "msgs b' = msgs b \<Longrightarrow> grown S body b b' (\<lambda>k. [])"
  by (simp add: grown_def)

lemma grown_trans: "grown S body a b n1 \<Longrightarrow> grown T body b c n2 \<Longrightarrow> grown (S \<union> T) body a c (\<lambda>k. n1 k @ n2 k)"
  unfolding grown_def by (metis (no_types, lifting) Un_iff append.assoc append_is_Nil_conv set_append)

lemma grown_enqueue:
  assumes "map_of (br_queues b) q \<noteq> None"
  shows "grown {q} (msg_Body m) b (enqueue q m b) (\<lambda>k. if k = q then [m] else [])"
  using msgs_update_queue [OF assms, of "\<lambda>ms. ms @ [m]"] by (auto simp: grown_def enqueue_def)

lemma grown_from: "msgs a = msgs b \<Longrightarrow> grown S body a c new = grown S body b c new"
  by (simp add: grown_def)

text \<open>A publication to a queue that exists: a copy arrives, the call fails, or the channel is lost.\<close>

lemma publishRaw_effect:
  assumes "publishRaw k body hs x w = (r, w')" "holds q d (cw_broker w)" "map_of (br_queues (cw_broker w)) k \<noteq> None"
  obtains new where "grown {k} body (cw_broker w) (cw_broker w') new" "holds q d (cw_broker w')"
    "r = None \<Longrightarrow> new k \<noteq> [] \<or> cw_link w' = Some 0"
    "\<And>body'. copies body' (cw_broker w') = copies body' (cw_broker w) + (if body = body' then length (new k) else 0)"
    "cw_handled w' = cw_handled w"
proof -
  let ?m = "\<lparr>msg_RoutingKey = k, msg_Headers = hs, msg_Body = body, msg_Expiration = x\<rparr>"
  obtain r' where send: "send_frame (publish_frame ?m) w = (r', w')" and r': "r = None \<longleftrightarrow> r' = None"
    using publishRaw_send [OF assms(1)] by blast
  have handled: "cw_handled w' = cw_handled w" using send_frame_frame(1) [of "publish_frame ?m" w] send by simp
  show thesis
    using send
  proof (cases rule: send_frame_cases)
    case unsent
    show thesis
      by (rule that [OF grown_same [OF msgs_unscripted [OF unsent(1)]]])
        (use assms(2) handled r' unsent(2) holds_unscripted [OF unsent(1), of q d] copies_unscripted [OF unsent(1)] in auto)
  next
    case (arrived b1)
    then have w': "cw_broker w' = enqueue k ?m b1" by (simp add: publish_frame_def)
    have k: "map_of (br_queues b1) k \<noteq> None" using assms(3) unscripted_queues [OF arrived(1)] by simp
    have "holds q d (cw_broker w')"
      unfolding w' using holds_unscripted [OF arrived(1), of q d] assms(2) by (simp add: enqueue_def)
    moreover have "grown {k} body (cw_broker w) (cw_broker w') (\<lambda>n. if n = k then [?m] else [])"
      unfolding w' using grown_enqueue [OF k, of ?m] grown_from [OF msgs_unscripted [OF arrived(1)]] by simp
    moreover have "copies body' (cw_broker w') = copies body' (cw_broker w) + (if body = body' then 1 else 0)" for body'
      unfolding w' using copies_enqueue [OF k, of body' ?m] copies_unscripted [OF arrived(1), of body'] by simp
    ultimately show thesis using that [of "\<lambda>n. if n = k then [?m] else []"] handled by simp
  qed
qed

lemma ack_effect:
  assumes "holds q d (cw_broker w)"
  shows "msgs (cw_broker (consumer_ack ctx (fst d) w)) = msgs (cw_broker w)"
    and "copies body (cw_broker w) \<le> copies body (cw_broker (consumer_ack ctx (fst d) w)) + (if msg_Body (snd d) = body then 1 else 0)"
    and "cw_link w = Some 0 \<Longrightarrow> unscripted (cw_broker (consumer_ack ctx (fst d) w)) = unscripted (cw_broker w)"
    and "cw_handled (consumer_ack ctx (fst d) w) = cw_handled w"
proof -
  obtain r w' where send: "send_frame (ack_frame (fst d)) w = (r, w')"
    and w': "cw_broker (consumer_ack ctx (fst d) w) = cw_broker w'" "cw_handled (consumer_ack ctx (fst d) w) = cw_handled w'"
    by (rule ack_send [of "fst d" w ctx]) blast
  show "cw_handled (consumer_ack ctx (fst d) w) = cw_handled w"
    using send_frame_frame(1) [of "ack_frame (fst d)" w] send w' by simp
  have "msgs (cw_broker w') = msgs (cw_broker w)
      \<and> copies body (cw_broker w) \<le> copies body (cw_broker w') + (if msg_Body (snd d) = body then 1 else 0)
      \<and> (cw_link w = Some 0 \<longrightarrow> unscripted (cw_broker w') = unscripted (cw_broker w))"
    using send
  proof (cases rule: send_frame_cases)
    case unsent
    then show ?thesis using copies_unscripted [OF unsent(1)] msgs_unscripted [OF unsent(1)] by simp
  next
    case (arrived b1)
    then have "holds q d b1" using holds_unscripted assms by blast
    from holds_settle [OF this, of body] have "cw_broker w' = settle (fst d) b1"
      using arrived(2) by (simp add: ack_frame_def split: if_splits)
    moreover have "msgs (settle (fst d) b1) = msgs b1" by (simp add: msgs_def settle_def fun_eq_iff)
    ultimately show ?thesis
      using holds_settle [OF \<open>holds q d b1\<close>, of body] copies_unscripted [OF arrived(1), of body] msgs_unscripted [OF arrived(1)] arrived(3)
      by simp
  qed
  then show "msgs (cw_broker (consumer_ack ctx (fst d) w)) = msgs (cw_broker w)"
    "copies body (cw_broker w) \<le> copies body (cw_broker (consumer_ack ctx (fst d) w)) + (if msg_Body (snd d) = body then 1 else 0)"
    "cw_link w = Some 0 \<Longrightarrow> unscripted (cw_broker (consumer_ack ctx (fst d) w)) = unscripted (cw_broker w)"
    by (simp_all add: w')
qed

lemma nack_effect:
  assumes "holds q d (cw_broker w)"
  obtains new where "grown {DLQName q} (msg_Body (snd d)) (cw_broker w) (cw_broker (consumer_nack ctx (fst d) w)) new"
    "holds q d (cw_broker (consumer_nack ctx (fst d) w)) \<or> new (DLQName q) \<noteq> []"
    "\<And>body. copies body (cw_broker w) \<le> copies body (cw_broker (consumer_nack ctx (fst d) w))"
    "cw_handled (consumer_nack ctx (fst d) w) = cw_handled w"
proof -
  obtain r w' where send: "send_frame (nack_frame (fst d)) w = (r, w')"
    and w': "cw_broker (consumer_nack ctx (fst d) w) = cw_broker w'" "cw_handled (consumer_nack ctx (fst d) w) = cw_handled w'"
    by (rule nack_send [of "fst d" w ctx]) blast
  have handled: "cw_handled w' = cw_handled w" using send_frame_frame(1) [of "nack_frame (fst d)" w] send by simp
  show thesis
    using send
  proof (cases rule: send_frame_cases)
    case unsent
    then show thesis
      using that [of "\<lambda>k. []"] grown_same [OF msgs_unscripted [OF unsent(1)]] assms handled
        holds_unscripted [OF unsent(1), of q d] copies_unscripted [OF unsent(1)] by (simp add: w')
  next
    case (arrived b1)
    let ?m = "(snd d)\<lparr>msg_Expiration := []\<rparr>" and ?b = "settle (fst d) b1"
    have b1: "holds q d b1" using holds_unscripted arrived(1) assms by blast
    then have eq: "cw_broker w' = enqueue (DLQName q) ?m ?b"
      using arrived(2) by (simp add: nack_frame_def holds_def dead_lettered_def consumer_ready_def)
    have k: "map_of (br_queues ?b) (DLQName q) \<noteq> None"
      using b1 by (simp add: holds_def consumer_ready_def settle_def)
    have "msgs ?b = msgs (cw_broker w)"
      using msgs_unscripted [OF arrived(1)] by (simp add: msgs_def settle_def fun_eq_iff)
    from grown_enqueue [OF k, of ?m] grown_from [OF this]
    have "grown {DLQName q} (msg_Body (snd d)) (cw_broker w) (cw_broker w') (\<lambda>n. if n = DLQName q then [?m] else [])"
      unfolding eq by simp
    moreover have "copies body (cw_broker w) \<le> copies body (cw_broker w')" for body
      unfolding eq using holds_settle [OF b1, of body] copies_unscripted [OF arrived(1), of body] k by (simp add: copies_enqueue)
    ultimately show thesis using that [of "\<lambda>n. if n = DLQName q then [?m] else []"] handled by (simp add: w')
  qed
qed

text \<open>
  The common part of \<open>scheduleRetry\<close> and \<open>deadLetter\<close>: publish a copy to \<open>k\<close>, then acknowledge, or
  reject when the publication failed.
\<close>

lemma republish_effect:
  assumes "holds q d (cw_broker w)" "map_of (br_queues (cw_broker w)) k \<noteq> None"
    and "w' = (case publishRaw k (msg_Body (snd d)) hs x w of
       (Some err, w2) \<Rightarrow> consumer_nack ctx (fst d) (say (ls err) w2) | (None, w2) \<Rightarrow> consumer_ack ctx (fst d) w2)"
  obtains new where "grown {k, DLQName q} (msg_Body (snd d)) (cw_broker w) (cw_broker w') new"
    "holds q d (cw_broker w') \<or> new k \<noteq> [] \<or> new (DLQName q) \<noteq> []"
    "\<And>body. copies body (cw_broker w) \<le> copies body (cw_broker w')" "cw_handled w' = cw_handled w"
proof -
  obtain r w2 where pub: "publishRaw k (msg_Body (snd d)) hs x w = (r, w2)" by force
  obtain n1 where n1: "grown {k} (msg_Body (snd d)) (cw_broker w) (cw_broker w2) n1" "holds q d (cw_broker w2)"
    "r = None \<Longrightarrow> n1 k \<noteq> [] \<or> cw_link w2 = Some 0"
    "\<And>body. copies body (cw_broker w2) = copies body (cw_broker w) + (if msg_Body (snd d) = body then length (n1 k) else 0)"
    "cw_handled w2 = cw_handled w"
    by (rule publishRaw_effect [OF pub assms(1,2)]) blast
  show thesis
  proof (cases r)
    case None
    then have w': "w' = consumer_ack ctx (fst d) w2" by (simp add: assms(3) pub)
    note ack = ack_effect [OF n1(2), where ctx = ctx, folded w']
    have lost: "holds q d (cw_broker w')" "copies body (cw_broker w') = copies body (cw_broker w2)" if "cw_link w2 = Some 0" for body
      using ack(3) [OF that] n1(2) holds_unscripted copies_unscripted by blast+
    have "copies body (cw_broker w) \<le> copies body (cw_broker w')" for body
    proof (cases "cw_link w2 = Some 0")
      case True
      then show ?thesis using lost(2) [of body] n1(4) [of body] by simp
    next
      case False
      then have "1 \<le> length (n1 k)" using n1(3) [OF None] by (cases "n1 k") simp_all
      then show ?thesis using ack(2) [of body] n1(4) [of body] by (cases "msg_Body (snd d) = body") simp_all
    qed
    moreover have "grown {k, DLQName q} (msg_Body (snd d)) (cw_broker w) (cw_broker w') n1"
      using n1(1) ack(1) by (auto simp: grown_def)
    ultimately show thesis using that [of n1] n1(3) [OF None] n1(5) lost(1) ack(4) by simp
  next
    case (Some err)
    then have w': "w' = consumer_nack ctx (fst d) (say (ls err) w2)" by (simp add: assms(3) pub)
    have "holds q d (cw_broker (say (ls err) w2))" using n1(2) by simp
    then obtain n2 where n2: "grown {DLQName q} (msg_Body (snd d)) (cw_broker w2) (cw_broker w') n2"
      "holds q d (cw_broker w') \<or> n2 (DLQName q) \<noteq> []" "\<And>body. copies body (cw_broker w2) \<le> copies body (cw_broker w')"
      "cw_handled w' = cw_handled (say (ls err) w2)"
      using nack_effect [where ctx = ctx and q = q and d = d] unfolding w' by (metis (no_types) say_broker)
    have "copies body (cw_broker w) \<le> copies body (cw_broker w')" for body
      using n1(4) [of body] n2(3) [of body] by (auto split: if_splits)
    moreover have "cw_handled w' = cw_handled w" using n2(4) n1(5) by (simp add: say_def)
    ultimately show thesis using that [of "\<lambda>k. n1 k @ n2 k"] grown_trans [OF n1(1) n2(1)] n2(2) by (auto simp: insert_commute)
  qed
qed

text \<open>What was handled with this result is recorded.\<close>

definition handled :: "message \<times> go_error option \<Rightarrow> cworld \<Rightarrow> cworld" where
  "handled call w = w\<lparr>cw_handled := cw_handled w @ [call]\<rparr>"

lemma handled_sel [simp]:
  "cw_broker (handled call w) = cw_broker w" "cw_link (handled call w) = cw_link w" "cw_log (handled call w) = cw_log w"
  "cw_handled (handled call w) = cw_handled w @ [call]"
  by (simp_all add: handled_def)

lemma say_sel [simp]: "cw_link (say ls w) = cw_link w" "cw_handled (say ls w) = cw_handled w"
  by (simp_all add: say_def)

lemma handle_accepted:
  assumes "handler (contextFor c ctx (snd d)) (snd d) = None"
  shows "handle c f2i now ctx d handler w = consumer_ack (contextFor c ctx (snd d)) (fst d) (handled (snd d, None) w)"
  by (simp add: handle_def assms decide_def handled_def Let_def)

lemma handle_failed:
  fixes f2i :: "64 word \<Rightarrow> int" and c :: consumer
  assumes "handler (contextFor c ctx (snd d)) (snd d) = Some err"
  defines "oc \<equiv> decide (Some err) (attemptsOf f2i (snd d)) (am_MaxAttempts (cn_cfg (co_conn c)))
      (am_InitialBackoff (cn_cfg (co_conn c))) (am_MaxBackoff (cn_cfg (co_conn c)))"
  shows "handle c f2i now ctx d handler w =
    (if wrap32 (attemptsOf f2i (snd d) + 1) < am_MaxAttempts (cn_cfg (co_conn c))
     then scheduleRetry c now (contextFor c ctx (snd d)) d oc err (handled (snd d, Some err) w)
     else deadLetter c now (contextFor c ctx (snd d)) d oc err (handled (snd d, Some err) w))"
  by (simp add: handle_def assms decide_def handled_def Let_def)

text \<open>
  What a failed delivery leaves behind: copies in the retry queue (only while attempts are left) or
  in the dead-letter queue and nowhere else, and at least one of them unless the broker still holds
  the delivery; and as many copies of every body as before.
\<close>

lemma failed_handle_effect:
  fixes c :: consumer
  defines "q \<equiv> qs_Name (co_spec c)"
  assumes "holds q d (cw_broker w)" and fails: "handler (contextFor c ctx (snd d)) (snd d) = Some err"
    and k: "k = (if wrap32 (attemptsOf f2i (snd d) + 1) < am_MaxAttempts (cn_cfg (co_conn c)) then RetryQueueName q else DLQName q)"
    and w': "w' = handle c f2i now ctx d handler w"
  obtains new where "grown {k, DLQName q} (msg_Body (snd d)) (cw_broker w) (cw_broker w') new"
    "holds q d (cw_broker w') \<or> new k \<noteq> [] \<or> new (DLQName q) \<noteq> []"
    "\<And>body. copies body (cw_broker w) \<le> copies body (cw_broker w')"
    "cw_handled w' = cw_handled w @ [(snd d, Some err)]"
proof -
  let ?ctx = "contextFor c ctx (snd d)"
  have queue: "map_of (br_queues (cw_broker w)) k \<noteq> None"
    using assms(2) consumer_ready_queues [of q "cw_broker w"] by (simp add: k holds_def)
  have "\<exists>hs x ls ls'. w' = (case publishRaw k (msg_Body (snd d)) hs x (say ls (handled (snd d, Some err) w)) of
      (Some err, w2) \<Rightarrow> consumer_nack ?ctx (fst d) (say (ls' err) w2) | (None, w2) \<Rightarrow> consumer_ack ?ctx (fst d) w2)"
  proof (cases "wrap32 (attemptsOf f2i (snd d) + 1) < am_MaxAttempts (cn_cfg (co_conn c))")
    case True
    then show ?thesis
      unfolding w' k handle_failed [where handler = handler and c = c and ctx = ctx and d = d, OF fails] scheduleRetry_def Let_def q_def
      by (simp only: if_True) (intro exI, rule refl)
  next
    case False
    then show ?thesis
      unfolding w' k handle_failed [where handler = handler and c = c and ctx = ctx and d = d, OF fails] deadLetter_def Let_def q_def
      by (simp only: if_False) (intro exI, rule refl)
  qed
  then obtain hs x ls ls' where run: "w' = (case publishRaw k (msg_Body (snd d)) hs x (say ls (handled (snd d, Some err) w)) of
      (Some err, w2) \<Rightarrow> consumer_nack ?ctx (fst d) (say (ls' err) w2) | (None, w2) \<Rightarrow> consumer_ack ?ctx (fst d) w2)" by blast
  show thesis
    by (rule republish_effect [OF _ _ run]) (use assms(2) queue in \<open>auto intro!: that\<close>)
qed

section \<open>Properties\<close>

text \<open>
  C6. A message whose handler fails is never lost. Let the broker hold the delivery, with the queues
  of the consumer declared. Whatever happens to the publication, the acknowledgement and the
  negative acknowledgement that follow (a call may fail with or without effect, and the channel
  may be lost at any point, so that calls return nil without effect): afterwards the broker still
  waits for the acknowledgement of the delivery, or a new message with its body is in the retry
  queue or in the dead-letter queue. Nothing else changes in any queue, and the retry queue gets
  nothing once the attempts are used up.
\<close>

theorem failed_delivery_not_lost:
  fixes c :: consumer and w :: cworld
  defines "q \<equiv> qs_Name (co_spec c)" and "b \<equiv> cw_broker w"
  assumes "holds q d b" and "handler (contextFor c ctx (snd d)) (snd d) = Some err"
    and "b' = cw_broker (handle c f2i now ctx d handler w)"
  shows "\<exists>new. (\<forall>k. msgs b' k = msgs b k @ new k) \<and> (\<forall>k. \<forall>m\<in>set (new k). msg_Body m = msg_Body (snd d))
     \<and> (\<forall>k. new k \<noteq> [] \<longrightarrow> k = DLQName q
            \<or> k = RetryQueueName q \<and> wrap32 (attemptsOf f2i (snd d) + 1) < am_MaxAttempts (cn_cfg (co_conn c)))
     \<and> (map_of (br_unacked b') (fst d) = Some (q, snd d) \<or> new (RetryQueueName q) \<noteq> [] \<or> new (DLQName q) \<noteq> [])"
proof -
  obtain new where "grown {if wrap32 (attemptsOf f2i (snd d) + 1) < am_MaxAttempts (cn_cfg (co_conn c)) then RetryQueueName q else DLQName q,
      DLQName q} (msg_Body (snd d)) b b' new"
    "holds q d b' \<or> new (if wrap32 (attemptsOf f2i (snd d) + 1) < am_MaxAttempts (cn_cfg (co_conn c)) then RetryQueueName q else DLQName q) \<noteq> []
      \<or> new (DLQName q) \<noteq> []"
    using failed_handle_effect [where c = c and w = w and handler = handler and d = d and ctx = ctx and f2i = f2i and now = now,
        folded q_def b_def, OF assms(3,4) refl refl] assms(5) by blast
  then show ?thesis by (intro exI [of _ new]) (auto simp: grown_def holds_def split: if_splits)
qed

text \<open>
  The retry queue must exist: the publication is not mandatory and not confirmed, so when the queue
  was deleted the copy vanishes, and the delivery is acknowledged all the same.
\<close>

lemma deleted_retry_queue_loses_message:
  assumes "handler (contextFor c ctx (snd d)) (snd d) = Some err" "br_script (cw_broker w) = []" "cw_link w = None"
    and "wrap32 (attemptsOf f2i (snd d) + 1) < am_MaxAttempts (cn_cfg (co_conn c))"
    and "map_of (br_queues (cw_broker w)) (RetryQueueName (qs_Name (co_spec c))) = None"
    and "map_of (br_unacked (cw_broker w)) (fst d) = Some (qs_Name (co_spec c), snd d)"
  shows "cw_broker (handle c f2i now ctx d handler w) = settle (fst d) (cw_broker w)"
proof -
  have none: "map_of xs q = None \<Longrightarrow> AList.map_entry q f xs = xs" for q :: string and xs and f :: "queue \<Rightarrow> queue"
    by (induction xs) (auto split: if_splits)
  then have "enqueue (RetryQueueName (qs_Name (co_spec c))) m (cw_broker w) = cw_broker w" for m
    using assms(5) by (simp add: enqueue_def update_queue_def)
  then show ?thesis
    using assms(2-4,6)
    by (simp add: handle_failed [where handler = handler and c = c and ctx = ctx and d = d, OF assms(1)] scheduleRetry_def Let_def publishRaw_def
        publish_frame_def consumer_ack_def ack_frame_def send_frame_def transmit_def br_call_def)
qed

section \<open>Lemmas: one round of a failing message\<close>

lemma msgs_frame [simp]:
  "msgs (b\<lparr>br_unacked := u\<rparr>) n = msgs b n" "msgs (b\<lparr>br_tag := t\<rparr>) n = msgs b n" "msgs (settle tag b) n = msgs b n"
  by (simp_all add: msgs_def settle_def)

lemma ack_quiet:
  assumes "br_script (cw_broker w) = []" "cw_link w = None" "map_of (br_unacked (cw_broker w)) tag \<noteq> None"
  shows "consumer_ack ctx tag w = w\<lparr>cw_broker := settle tag (cw_broker w)\<rparr>"
  using assms by (auto simp: consumer_ack_def send_frame_def transmit_def ack_frame_def br_call_def)

lemma publishRaw_quiet:
  "br_script (cw_broker w) = [] \<Longrightarrow> cw_link w = None \<Longrightarrow> publishRaw k body hs x w =
     (None, w\<lparr>cw_broker := enqueue k \<lparr>msg_RoutingKey = k, msg_Headers = hs, msg_Body = body, msg_Expiration = x\<rparr> (cw_broker w)\<rparr>)"
  by (simp add: publishRaw_def send_frame_def transmit_def publish_frame_def br_call_def)

text \<open>
  \<open>waiting q m b\<close>: the broker answers everything, nothing is unacknowledged, and \<open>m\<close> is
  the only message in the queue and in its retry queue.
\<close>

definition waiting :: "string \<Rightarrow> message list \<Rightarrow> broker \<Rightarrow> bool" where
  "waiting q ms b \<longleftrightarrow> consumer_ready q b \<and> br_script b = [] \<and> br_unacked b = []
     \<and> msgs b q = ms \<and> msgs b (RetryQueueName q) = []"

text \<open>What the broker holds after a delivery of \<open>m\<close> failed: a copy with the new headers, in \<open>k\<close>.\<close>

definition moved :: "string \<Rightarrow> string \<Rightarrow> message \<Rightarrow> broker \<Rightarrow> broker" where
  "moved q k m b = settle (br_tag b) (enqueue k m
     ((update_queue q tl b)\<lparr>br_unacked := [(br_tag b, q, m)], br_tag := br_tag b + 1\<rparr>))"

lemma deliver_waiting:
  "waiting q [m] b \<Longrightarrow> deliver q b =
     Some ((br_tag b, m), (update_queue q tl b)\<lparr>br_unacked := [(br_tag b, q, m)], br_tag := br_tag b + 1\<rparr>)"
  by (simp add: deliver_def waiting_def)

lemma settle_moved:
  "waiting q ms b \<Longrightarrow> settle (br_tag b) (enqueue k m' ((update_queue q tl b)\<lparr>br_unacked := [(br_tag b, q, m)], br_tag := br_tag b + 1\<rparr>))
     = moved q k m' b"
  by (simp add: moved_def settle_def enqueue_def update_queue_def)

lemma moved_state:
  assumes "waiting q [m] b" "k = RetryQueueName q \<or> k = DLQName q"
  shows "consumer_ready q (moved q k m' b)" "br_script (moved q k m' b) = []" "br_unacked (moved q k m' b) = []"
    "msgs (moved q k m' b) q = []" "msgs (moved q k m' b) (RetryQueueName q) = (if k = RetryQueueName q then [m'] else [])"
    "msgs (moved q k m' b) (DLQName q) = msgs b (DLQName q) @ (if k = DLQName q then [m'] else [])"
proof -
  have b: "consumer_ready q b" "br_script b = []" "br_unacked b = []" "msgs b q = [m]" "msgs b (RetryQueueName q) = []"
    using assms(1) by (auto simp: waiting_def)
  note queues = consumer_ready_queues [OF b(1)]
  have exists: "map_of (br_queues ((update_queue q tl b)\<lparr>br_unacked := u, br_tag := t\<rparr>)) n \<noteq> None"
    if "n = q \<or> n = RetryQueueName q \<or> n = DLQName q" for n u t
    using that queues by (auto simp: map_of_update_queue)
  have "map_of (br_queues ((update_queue q tl b)\<lparr>br_unacked := u, br_tag := t\<rparr>)) k \<noteq> None" for u t
    using assms(2) exists by blast
  then have upd: "msgs (moved q k m' b) n = (if n = k then msgs b k @ [m'] else if n = q then [] else msgs b n)" for n
    using assms(2) queues b(4) by (auto simp: moved_def enqueue_def msgs_update_queue)
  show "consumer_ready q (moved q k m' b)" "br_script (moved q k m' b) = []" "br_unacked (moved q k m' b) = []"
    using b by (simp_all add: moved_def enqueue_def settle_def)
  show "msgs (moved q k m' b) q = []" "msgs (moved q k m' b) (RetryQueueName q) = (if k = RetryQueueName q then [m'] else [])"
    "msgs (moved q k m' b) (DLQName q) = msgs b (DLQName q) @ (if k = DLQName q then [m'] else [])"
    using assms(2) b upd by auto
qed

lemma expire_moved:
  assumes "waiting q [m] b"
  shows "waiting q [m'\<lparr>msg_Expiration := ''''\<rparr>] (expire (RetryQueueName q) (moved q (RetryQueueName q) m' b))"
    and "msgs (expire (RetryQueueName q) (moved q (RetryQueueName q) m' b)) (DLQName q) = msgs b (DLQName q)"
    and "waiting q [] (expire (RetryQueueName q) (moved q (DLQName q) m' b))"
    and "msgs (expire (RetryQueueName q) (moved q (DLQName q) m' b)) (DLQName q) = msgs b (DLQName q) @ [m']"
proof -
  let ?r = "moved q (RetryQueueName q) m' b"
  note r = moved_state [OF assms, of "RetryQueueName q" m', simplified]
  note d = moved_state [OF assms, of "DLQName q" m', simplified]
  note queues = consumer_ready_queues [OF r(1)]
  have target: "dead_letter_target (RetryQueueName q) ?r = Some q" using r(1) by (simp add: consumer_ready_def)
  have exists: "map_of (br_queues (update_queue (RetryQueueName q) tl ?r)) q \<noteq> None"
    using queues by (auto simp: map_of_update_queue)
  show "waiting q [m'\<lparr>msg_Expiration := ''''\<rparr>] (expire (RetryQueueName q) ?r)"
    "msgs (expire (RetryQueueName q) ?r) (DLQName q) = msgs b (DLQName q)"
    using r queues exists by (simp_all add: expire_def dead_lettered_def target waiting_def enqueue_def msgs_update_queue)
  show "waiting q [] (expire (RetryQueueName q) (moved q (DLQName q) m' b))"
    "msgs (expire (RetryQueueName q) (moved q (DLQName q) m' b)) (DLQName q) = msgs b (DLQName q) @ [m']"
    using d by (simp_all add: expire_def waiting_def)
qed

lemma failing_handle:
  fixes c :: consumer
  defines "q \<equiv> qs_Name (co_spec c)" and "cap \<equiv> am_MaxAttempts (cn_cfg (co_conn c))"
  assumes "waiting q [m] (cw_broker w)" "\<And>ctx m. handler ctx m \<noteq> None"
    and "0 \<le> attemptsOf f2i m" "attemptsOf f2i m < 2 ^ 31 - 1"
    and "deliver q (cw_broker w) = Some (d, b1)" "cw_link w = None"
  obtains k m' where "cw_broker (handle c f2i now ctx d handler (w\<lparr>cw_broker := b1\<rparr>)) = moved q k m' (cw_broker w)"
    "cw_link (handle c f2i now ctx d handler (w\<lparr>cw_broker := b1\<rparr>)) = None"
    "k = (if attemptsOf f2i m + 1 < cap then RetryQueueName q else DLQName q)"
    "msg_Body m' = msg_Body m" "attemptsOf f2i m' = attemptsOf f2i m + 1"
    "\<And>f2i. attemptsOf f2i (m'\<lparr>msg_Expiration := ''''\<rparr>) = attemptsOf f2i m'"
proof -
  let ?b = "cw_broker w"
  obtain err where err: "handler (contextFor c ctx m) m = Some err" using assms(4) by blast
  define oc where "oc = decide (Some err) (attemptsOf f2i m) cap (am_InitialBackoff (cn_cfg (co_conn c))) (am_MaxBackoff (cn_cfg (co_conn c)))"
  have wrap: "wrap32 (attemptsOf f2i m + 1) = attemptsOf f2i m + 1" using assms(5,6) by (simp add: in_i32_def)
  have attempt: "oc_Attempt oc = attemptsOf f2i m + 1" by (simp add: oc_def decide_def Let_def wrap)
  define msg where "msg k x = \<lparr>msg_RoutingKey = k, msg_Headers = retryHeaders now m (oc_Attempt oc) (err_text err),
    msg_Body = msg_Body m, msg_Expiration = x\<rparr>" for k x
  have d: "d = (br_tag ?b, m)" and b1: "b1 = (update_queue q tl ?b)\<lparr>br_unacked := [(br_tag ?b, q, m)], br_tag := br_tag ?b + 1\<rparr>"
    using deliver_waiting [OF assms(3)] assms(7) by simp_all
  have script: "br_script ?b = []" using assms(3) by (simp add: waiting_def)
  have attempts: "attemptsOf f2i (msg k x) = attemptsOf f2i m + 1" for k x
    by (rule attemptsOf_retryHeaders [where now = now and d = m and r = "err_text err"]) (simp add: attempt msg_def)
  define k where "k = (if attemptsOf f2i m + 1 < cap then RetryQueueName q else DLQName q)"
  define x where "x = (if attemptsOf f2i m + 1 < cap then Itoa (Milliseconds (oc_Delay oc)) else '''')"
  have "cw_broker (handle c f2i now ctx d handler (w\<lparr>cw_broker := b1\<rparr>)) = moved q k (msg k x) ?b
      \<and> cw_link (handle c f2i now ctx d handler (w\<lparr>cw_broker := b1\<rparr>)) = None"
    using handle_failed [where handler = handler and c = c and ctx = ctx and d = d and f2i = f2i and now = now and w = "w\<lparr>cw_broker := b1\<rparr>"]
      err settle_moved [OF assms(3)] assms(8)
    by (simp add: handled_def d b1 wrap cap_def [symmetric] q_def [symmetric] oc_def [symmetric] scheduleRetry_def deadLetter_def Let_def
        publishRaw_quiet ack_quiet script enqueue_def say_def msg_def [symmetric] k_def x_def)
  with that k_def attempts [of k x] show thesis by (simp add: msg_def attemptsOf_def)
qed

text \<open>The subscription and the end of a consumer leave the broker's queues and deliveries alone.\<close>

lemma subscription_frame:
  "channel_Consume q b = (r, b') \<Longrightarrow> \<exists>s. b' = b\<lparr>br_script := s\<rparr>"
  "channel_Cancel b = (r, b') \<Longrightarrow> \<exists>s. b' = b\<lparr>br_script := s\<rparr>"
proof -
  have call: "\<exists>s. snd (br_call b) = b\<lparr>br_script := s\<rparr>"
    by (cases "br_script b") (auto simp: br_call_def intro: exI [of _ "br_script b"])
  then show "channel_Consume q b = (r, b') \<Longrightarrow> \<exists>s. b' = b\<lparr>br_script := s\<rparr>" "channel_Cancel b = (r, b') \<Longrightarrow> \<exists>s. b' = b\<lparr>br_script := s\<rparr>"
    by (auto simp: channel_Consume_def channel_Cancel_def br_do_def split: prod.splits reply.splits if_splits)
qed

lemma consumer_stop_broker: "\<exists>s. cw_broker (consumer_stop c e w) = (cw_broker w)\<lparr>br_script := s\<rparr>"
proof -
  have drain: "cw_broker (consumer_drain c e v) = cw_broker v" for v by (cases e) (simp_all add: say_def)
  obtain r b' where cancel: "channel_Cancel (cw_broker w) = (r, b')" by force
  from subscription_frame(2) [OF cancel] show ?thesis
    by (auto simp: consumer_stop_def drain consumer_cancel_def on_broker_def cancel say_def split: option.split
        intro: exI [of _ "br_script (cw_broker w)"])
qed

lemma consumer_stop_handled: "cw_handled (consumer_stop c e w) = cw_handled w"
  by (cases e) (auto simp: consumer_stop_def consumer_cancel_def on_broker_def say_def split: prod.split option.split)

lemma Consume_cases:
  obtains (refused) err s where "Consume c f2i now ctx handler evs w =
      (Some (Inl (Errorf (''consuming from '' @ quote (qs_Name (co_spec c))) err)), w\<lparr>cw_broker := (cw_broker w)\<lparr>br_script := s\<rparr>\<rparr>)"
    | (subscribed) w0 s where "Consume c f2i now ctx handler evs w = consume_loop c f2i now ctx handler evs w0"
      "cw_broker w0 = (cw_broker w)\<lparr>br_script := s\<rparr>" "cw_handled w0 = cw_handled w"
proof -
  obtain r b' where call: "channel_Consume (qs_Name (co_spec c)) (cw_broker w) = (r, b')" by force
  from subscription_frame(1) [OF this] obtain s where s: "b' = (cw_broker w)\<lparr>br_script := s\<rparr>" by blast
  show thesis
  proof (cases r)
    case None
    let ?w0 = "say (emit (co_log c) InfoLevel [(''queue'', qs_Name (co_spec c)), (''prefetch'', Itoa (am_Prefetch (cn_cfg (co_conn c)))),
      (''max_attempts'', Itoa (am_MaxAttempts (cn_cfg (co_conn c))))] None ''consuming'') (w\<lparr>cw_broker := b'\<rparr>)"
    from None call s show thesis by (intro subscribed [of ?w0 s]) (auto simp: Consume_def on_broker_def say_def)
  next
    case (Some err)
    with call s show thesis by (intro refused) (auto simp: Consume_def on_broker_def)
  qed
qed

lemma Consume_quiet:
  assumes "br_script (cw_broker w) = []" "map_of (br_queues (cw_broker w)) (qs_Name (co_spec c)) \<noteq> None"
  shows "\<exists>w0. cw_broker w0 = cw_broker w \<and> cw_link w0 = cw_link w \<and> cw_handled w0 = cw_handled w
     \<and> (\<forall>evs. Consume c f2i now ctx handler evs w = consume_loop c f2i now ctx handler evs w0)"
proof -
  have "channel_Consume (qs_Name (co_spec c)) (cw_broker w) = (None, cw_broker w)"
    using assms by (simp add: channel_Consume_def br_do_def br_call_def)
  then show ?thesis
    by (intro exI [of _ "w\<lparr>cw_log := cw_log w @ emit (co_log c) InfoLevel [(''queue'', qs_Name (co_spec c)),
          (''prefetch'', Itoa (am_Prefetch (cn_cfg (co_conn c)))), (''max_attempts'', Itoa (am_MaxAttempts (cn_cfg (co_conn c))))]
          None ''consuming''\<rparr>"])
      (simp add: Consume_def on_broker_def say_def)
qed

lemma failing_round:
  fixes c :: consumer
  defines "q \<equiv> qs_Name (co_spec c)" and "cap \<equiv> am_MaxAttempts (cn_cfg (co_conn c))"
  assumes "waiting q [m] (cw_broker w)" "\<And>ctx m. handler ctx m \<noteq> None"
    and "0 \<le> attemptsOf f2i m" "attemptsOf f2i m < 2 ^ 31 - 1" "cw_link w = None"
  obtains w' m' where
    "consume_loop c f2i now ctx handler (Delivered # Expired # evs) w = consume_loop c f2i now ctx handler evs w'" "cw_link w' = None"
    "msg_Body m' = msg_Body m" "attemptsOf f2i m' = attemptsOf f2i m + 1"
    "attemptsOf f2i m + 1 < cap \<Longrightarrow> waiting q [m'] (cw_broker w') \<and> msgs (cw_broker w') (DLQName q) = msgs (cw_broker w) (DLQName q)"
    "cap \<le> attemptsOf f2i m + 1 \<Longrightarrow> waiting q [] (cw_broker w') \<and> msgs (cw_broker w') (DLQName q) = msgs (cw_broker w) (DLQName q) @ [m']"
proof -
  obtain d b1 where deliver: "deliver q (cw_broker w) = Some (d, b1)" using deliver_waiting [OF assms(3)] by blast
  let ?h = "handle c f2i now ctx d handler (w\<lparr>cw_broker := b1\<rparr>)"
  obtain k m' where handle: "cw_broker ?h = moved q k m' (cw_broker w)" and link: "cw_link ?h = None"
    and k: "k = (if attemptsOf f2i m + 1 < cap then RetryQueueName q else DLQName q)"
    and m': "msg_Body m' = msg_Body m" "attemptsOf f2i m' = attemptsOf f2i m + 1"
      "attemptsOf f2i (m'\<lparr>msg_Expiration := ''''\<rparr>) = attemptsOf f2i m'"
    using failing_handle [where c = c and m = m and w = w and handler = handler and f2i = f2i and now = now and ctx = ctx,
        folded q_def cap_def, OF assms(3-6) deliver assms(7)] by blast
  have run: "consume_loop c f2i now ctx handler (Delivered # Expired # evs) w =
      consume_loop c f2i now ctx handler evs (?h\<lparr>cw_broker := expire (RetryQueueName q) (moved q k m' (cw_broker w))\<rparr>)"
    using deliver handle by (simp add: q_def)
  note ends = expire_moved [OF assms(3), of m']
  note that = that [OF run]
  show thesis
  proof (cases "attemptsOf f2i m + 1 < cap")
    case True
    with that [of "m'\<lparr>msg_Expiration := ''''\<rparr>"] link k m' ends show thesis by simp
  next
    case False
    with that [of m'] link k m' ends show thesis by simp
  qed
qed

lemma failing_rounds:
  fixes c :: consumer
  defines "q \<equiv> qs_Name (co_spec c)" and "cap \<equiv> am_MaxAttempts (cn_cfg (co_conn c))"
  assumes "\<And>ctx m. handler ctx m \<noteq> None" "cap < 2 ^ 31"
    and "waiting q [m] (cw_broker w)" "0 \<le> attemptsOf f2i m" "attemptsOf f2i m + int n = cap" "0 < n" "cw_link w = None"
  shows "\<exists>w' m'. consume_loop c f2i now ctx handler (concat (replicate n [Delivered, Expired])) w = (None, w')
     \<and> waiting q [] (cw_broker w') \<and> msgs (cw_broker w') (DLQName q) = msgs (cw_broker w) (DLQName q) @ [m']
     \<and> msg_Body m' = msg_Body m \<and> attemptsOf f2i m' = cap"
  using assms(5-9)
proof (induction n arbitrary: m w)
  case (Suc n)
  have bound: "attemptsOf f2i m < 2 ^ 31 - 1" using Suc.prems(3) assms(4) by simp
  obtain w' m' where
    run: "consume_loop c f2i now ctx handler (Delivered # Expired # concat (replicate n [Delivered, Expired])) w =
       consume_loop c f2i now ctx handler (concat (replicate n [Delivered, Expired])) w'" "cw_link w' = None"
    and m': "msg_Body m' = msg_Body m" "attemptsOf f2i m' = attemptsOf f2i m + 1"
    and more_: "attemptsOf f2i m + 1 < cap \<Longrightarrow> waiting q [m'] (cw_broker w') \<and> msgs (cw_broker w') (DLQName q) = msgs (cw_broker w) (DLQName q)"
    and last: "cap \<le> attemptsOf f2i m + 1 \<Longrightarrow> waiting q [] (cw_broker w') \<and> msgs (cw_broker w') (DLQName q) = msgs (cw_broker w) (DLQName q) @ [m']"
    using failing_round [where c = c and m = m and w = w and handler = handler and f2i = f2i and now = now and ctx = ctx
        and evs = "concat (replicate n [Delivered, Expired])",
        folded q_def cap_def, OF Suc.prems(1) assms(3) Suc.prems(2) bound Suc.prems(5)] by blast
  show ?case
  proof (cases n)
    case 0
    with run last m' Suc.prems(3) show ?thesis by force
  next
    case (Suc k)
    with more_ Suc.prems(3) have st: "waiting q [m'] (cw_broker w')" "msgs (cw_broker w') (DLQName q) = msgs (cw_broker w) (DLQName q)"
      by auto
    from Suc.IH [OF st(1)] m' Suc.prems Suc run st(2) show ?thesis by simp
  qed
qed simp

text \<open>
  C24. A poison message ends in the dead-letter queue after exactly \<open>MaxAttempts\<close> deliveries:
  when the handler always fails, the broker answers and the channel stays up, that many rounds of delivery and
  expiry take a message from its first delivery to the dead-letter queue, with its body and
  the attempt count in its header, and leave the queue and the retry queue empty.
\<close>

theorem poison_message_dead_lettered:
  assumes "\<And>ctx m. handler ctx m \<noteq> None"
    and "0 < am_MaxAttempts (cn_cfg (co_conn c))" "am_MaxAttempts (cn_cfg (co_conn c)) < 2 ^ 31"
    and "waiting (qs_Name (co_spec c)) [m] (cw_broker w)" "cw_link w = None" "map_of (msg_Headers m) HeaderAttempts = None"
    and "n = nat (am_MaxAttempts (cn_cfg (co_conn c)))"
  shows "\<exists>w' m'. Consume c f2i now ctx handler (concat (replicate n [Delivered, Expired])) w = (None, w')
     \<and> waiting (qs_Name (co_spec c)) [] (cw_broker w')
     \<and> msgs (cw_broker w') (DLQName (qs_Name (co_spec c))) = msgs (cw_broker w) (DLQName (qs_Name (co_spec c))) @ [m']
     \<and> msg_Body m' = msg_Body m \<and> attemptsOf f2i m' = am_MaxAttempts (cn_cfg (co_conn c))"
proof -
  have "attemptsOf f2i m = 0" using assms(6) by (simp add: attemptsOf_def)
  moreover obtain w0 where "\<forall>evs. Consume c f2i now ctx handler evs w = consume_loop c f2i now ctx handler evs w0"
    "cw_broker w0 = cw_broker w" "cw_link w0 = cw_link w"
    using Consume_quiet [of w c f2i now ctx handler] assms(4) consumer_ready_queues by (auto simp: waiting_def)
  ultimately show ?thesis
    using failing_rounds [where c = c and w = w0 and m = m and n = n and f2i = f2i and now = now and ctx = ctx and handler = handler] assms
    by simp
qed

lemma cw_log_say [simp]: "cw_log (say ls w) = cw_log w @ ls"
  by (simp add: say_def)

lemma log_grows:
  "prefix (cw_log w) (cw_log (consumer_nack ctx tag w))" "prefix (cw_log w) (cw_log (consumer_ack ctx tag w))"
  using send_frame_frame(2) [of "nack_frame tag" w] send_frame_frame(2) [of "ack_frame tag" w]
  by (auto simp: consumer_nack_def consumer_ack_def split: prod.split option.split)

lemma publishRaw_log: "cw_log (snd (publishRaw k body hs x w)) = cw_log w"
  using send_frame_frame(2) [of "publish_frame \<lparr>msg_RoutingKey = k, msg_Headers = hs, msg_Body = body, msg_Expiration = x\<rparr>" w]
  by (auto simp: publishRaw_def split: prod.split option.split)

text \<open>
  A consumer that was closed, successfully or not, holds its channel no longer; stopping it
  afterwards asks the broker for nothing.
\<close>

lemma closed_then_stopped:
  assumes "Consumer_Close c b = (r, b')"
  shows "Chan (cn_conn (co_conn c)) (co_channel c) \<notin> set (br_open b')
     \<and> consumer_cancel c (w\<lparr>cw_broker := b'\<rparr>) = (w\<lparr>cw_broker := b'\<rparr>)"
  using assms
  by (auto simp: Consumer_Close_def consumer_cancel_def channel_Close_def close_resource_def split: prod.splits option.splits)

text \<open>
  Exhaustion is visible: the delivery that uses up the attempts logs an error line that
  carries the handler's error and the trace id of the message, before anything is sent, unless
  the logger is configured above the error level.
\<close>

theorem exhausted_delivery_logged:
  assumes "handler (contextFor c ctx (snd d)) (snd d) = Some err"
    and "am_MaxAttempts (cn_cfg (co_conn c)) \<le> wrap32 (attemptsOf f2i (snd d) + 1)"
    and "map_of (msg_Headers (snd d)) HeaderTraceID = Some (HString traceID)" "traceID \<noteq> ''''"
    and "lg_level (co_log c) \<le> ErrorLevel"
  shows "\<exists>line rest. cw_log (handle c f2i now ctx d handler w) = cw_log w @ line # rest
     \<and> line_level line = ErrorLevel \<and> line_err line = Some err \<and> (FieldTraceID, traceID) \<in> set (line_fields line)"
proof -
  let ?ctx = "contextFor c ctx (snd d)"
  let ?q = "qs_Name (co_spec c)" and ?w0 = "handled (snd d, Some err) w"
  define oc where "oc = decide (Some err) (attemptsOf f2i (snd d)) (am_MaxAttempts (cn_cfg (co_conn c)))
      (am_InitialBackoff (cn_cfg (co_conn c))) (am_MaxBackoff (cn_cfg (co_conn c)))"
  have run: "handle c f2i now ctx d handler w = deadLetter c now ?ctx d oc err ?w0"
    using handle_failed [where handler = handler and c = c and ctx = ctx and d = d and f2i = f2i and now = now and w = w] assms(1,2)
    by (simp add: oc_def)
  define line where "line = \<lparr>line_level = ErrorLevel, line_fields = lg_fields (Ctx ?ctx) @ [(''attempts'', Itoa (oc_Attempt oc)),
      (''queue'', ?q), (''dlq'', DLQName ?q)], line_err = Some err,
      line_msg = ''attempts exhausted, the message goes to the dead-letter queue''\<rparr>"
  have level: "\<not> ErrorLevel < lg_level (Ctx ?ctx)"
    using assms(3,4,5) by (auto simp: contextFor_def Let_def)
  have trace: "(FieldTraceID, traceID) \<in> set (lg_fields (Ctx ?ctx))"
    using assms(3,4) by (auto simp: contextFor_def Ctx_def Let_def)
  have w1: "say (emit (Ctx ?ctx) ErrorLevel [(''attempts'', Itoa (oc_Attempt oc)), (''queue'', ?q), (''dlq'', DLQName ?q)] (Some err)
      ''attempts exhausted, the message goes to the dead-letter queue'') ?w0 = say [line] ?w0"
    using level by (simp add: emit_def line_def)
  obtain r w2 where pub: "publishRaw (DLQName ?q) (msg_Body (snd d)) (retryHeaders now (snd d) (oc_Attempt oc) (err_text err)) [] (say [line] ?w0) = (r, w2)"
    by force
  have w2: "cw_log w2 = cw_log w @ [line]" using publishRaw_log [of _ _ _ _ "say [line] ?w0"] pub by (metis snd_conv cw_log_say handled_sel(3))
  have "prefix (cw_log w @ [line]) (cw_log (handle c f2i now ctx d handler w))"
  proof (cases r)
    case None
    then show ?thesis using log_grows(2) [of w2 ?ctx "fst d"] by (simp add: run deadLetter_def Let_def w1 pub w2)
  next
    case (Some e)
    let ?w3 = "say (emit (Ctx ?ctx) ErrorLevel [] (Some e) ''could not publish to the DLQ, falling back to nack'') w2"
    have "prefix (cw_log w @ [line]) (cw_log ?w3)" by (simp add: w2)
    with log_grows(1) [of ?w3 ?ctx "fst d"] Some show ?thesis
      by (simp add: run deadLetter_def Let_def w1 pub)
  qed
  then have "\<exists>rest. cw_log (handle c f2i now ctx d handler w) = cw_log w @ line # rest" by (auto simp: prefix_def)
  then show ?thesis using trace by (auto simp: line_def)
qed

section \<open>Witnesses\<close>

definition demo_spec :: queue_spec where
  "demo_spec = \<lparr>qs_Name = ''mail'', qs_RoutingKeys = [''user.*''], qs_Durable = True\<rparr>"

definition demo_amqp :: amqp_config where
  "demo_amqp = \<lparr>am_URL = ''amqp://localhost/'', am_Exchange = ''dizen.events'', am_Prefetch = 10, am_MaxAttempts = 2,
     am_InitialBackoff = Second, am_MaxBackoff = Minute, am_PublishTimeout = Second, am_ReconnectDelay = Second\<rparr>"

definition demo_logger :: logger where
  "demo_logger = \<lparr>lg_level = InfoLevel, lg_sinks = [], lg_fields = []\<rparr>"

definition demo_consumer :: consumer where
  "demo_consumer = \<lparr>co_conn = \<lparr>cn_conn = 0, cn_channel = 1, cn_cfg = demo_amqp\<rparr>, co_channel = 2, co_spec = demo_spec,
     co_tag = ''mail-1'', co_log = demo_logger\<rparr>"

definition demo_message :: message where
  "demo_message = \<lparr>msg_RoutingKey = ''user.registered'', msg_Headers = [(HeaderTraceID, HString ''4bf9'')],
     msg_Body = ''{}'', msg_Expiration = ''''\<rparr>"

definition demo_broker :: "reply list \<Rightarrow> (nat \<times> string \<times> message) list \<Rightarrow> message list \<Rightarrow> broker" where
  "demo_broker replies unacked ms =
     \<lparr>br_exchanges = [(''dizen.events'', ''topic'')],
      br_queues =
        [(''mail.dlq'', \<lparr>q_durable = True, q_args = [], q_messages = []\<rparr>),
         (''mail'', \<lparr>q_durable = True, q_args = dead_letter_args ''mail.dlq'', q_messages = ms\<rparr>),
         (''mail.retry'', \<lparr>q_durable = True, q_args = dead_letter_args ''mail'', q_messages = []\<rparr>)],
      br_bindings = [(''mail'', ''user.*'', ''dizen.events'')], br_unacked = unacked, br_tag = 7, br_open = [], br_fresh = 3,
      br_prefetch = [], br_confirms = [], br_script = replies\<rparr>"

definition demo_cworld :: "reply list \<Rightarrow> (nat \<times> string \<times> message) list \<Rightarrow> message list \<Rightarrow> cworld" where
  "demo_cworld replies unacked ms = \<lparr>cw_broker = demo_broker replies unacked ms, cw_log = [], cw_link = None, cw_handled = []\<rparr>"

definition demo_failing :: "go_ctx \<Rightarrow> message \<Rightarrow> go_error option" where
  "demo_failing ctx m = Some (Sentinel ''boom'')"

definition demo_goctx :: go_ctx where
  "demo_goctx = \<lparr>ctx_logger = None,
     ctx_span = \<lparr>span_trace_id = '''', span_span_id = '''', span_valid = False\<rparr>, ctx_md = None, ctx_peer = None\<rparr>"

lemmas demo_consumer_defs = demo_spec_def demo_amqp_def demo_logger_def demo_consumer_def demo_message_def
  demo_broker_def demo_cworld_def demo_failing_def demo_goctx_def

theorem failed_delivery_not_lost_witness:
  "\<exists>b'. b' = cw_broker (handle demo_consumer (\<lambda>x. 0) ''now'' demo_goctx (6, demo_message) demo_failing
         ((demo_cworld [Fail br_NotFound] [(6, ''mail'', demo_message)] [])\<lparr>cw_link := Some 1\<rparr>))
     \<and> (map_of (br_unacked b') 6 = Some (''mail'', demo_message) \<or> msgs b' ''mail.retry'' \<noteq> [] \<or> msgs b' ''mail.dlq'' \<noteq> [])"
proof -
  let ?w = "(demo_cworld [Fail br_NotFound] [(6, ''mail'', demo_message)] [])\<lparr>cw_link := Some 1\<rparr>"
  define b' where "b' = cw_broker (handle demo_consumer (\<lambda>x. 0) ''now'' demo_goctx (6, demo_message) demo_failing ?w)"
  have q: "qs_Name (co_spec demo_consumer) = ''mail''" "RetryQueueName ''mail'' = ''mail.retry''" "DLQName ''mail'' = ''mail.dlq''" by code_simp+
  have held: "holds (qs_Name (co_spec demo_consumer)) (6, demo_message) (cw_broker ?w)" by code_simp
  have fails: "demo_failing (contextFor demo_consumer demo_goctx (snd (6 :: nat, demo_message))) (snd (6 :: nat, demo_message)) = Some (Sentinel ''boom'')"
    by (simp add: demo_failing_def)
  obtain new where new: "\<forall>k. msgs b' k = msgs (cw_broker ?w) k @ new k"
    "map_of (br_unacked b') 6 = Some (''mail'', demo_message) \<or> new ''mail.retry'' \<noteq> [] \<or> new ''mail.dlq'' \<noteq> []"
    using failed_delivery_not_lost [OF held fails b'_def] unfolding q fst_conv snd_conv by blast
  have "msgs b' k \<noteq> []" if "new k \<noteq> []" for k using new(1) that by simp
  with new(2) have "map_of (br_unacked b') 6 = Some (''mail'', demo_message) \<or> msgs b' ''mail.retry'' \<noteq> [] \<or> msgs b' ''mail.dlq'' \<noteq> []" by blast
  then show ?thesis using b'_def by blast
qed

theorem poison_message_dead_lettered_witness:
  "\<exists>w' m'. Consume demo_consumer (\<lambda>x. 0) ''now'' demo_goctx demo_failing [Delivered, Expired, Delivered, Expired]
       (demo_cworld [] [] [demo_message]) = (None, w')
     \<and> msgs (cw_broker w') ''mail.dlq'' = [m'] \<and> msg_Body m' = ''{}'' \<and> attemptsOf (\<lambda>x. 0) m' = 2"
proof -
  have "waiting (qs_Name (co_spec demo_consumer)) [demo_message] (cw_broker (demo_cworld [] [] [demo_message]))" by code_simp
  moreover have "map_of (msg_Headers demo_message) HeaderAttempts = None" by code_simp
  moreover have "am_MaxAttempts (cn_cfg (co_conn demo_consumer)) = 2" "DLQName (qs_Name (co_spec demo_consumer)) = ''mail.dlq''"
    "msgs (cw_broker (demo_cworld [] [] [demo_message])) ''mail.dlq'' = []" "msg_Body demo_message = ''{}''"
    "cw_link (demo_cworld [] [] [demo_message]) = None" by code_simp+
  ultimately show ?thesis
    using poison_message_dead_lettered [of demo_failing demo_consumer demo_message "demo_cworld [] [] [demo_message]" 2 "\<lambda>x. 0" "''now''" demo_goctx]
    by (simp add: demo_failing_def numeral_2_eq_2) blast
qed

theorem exhausted_delivery_logged_witness:
  "\<exists>line rest. cw_log (handle demo_consumer (\<lambda>x. 1) ''now'' demo_goctx
         (6, demo_message\<lparr>msg_Headers := [(HeaderAttempts, HInt32 1), (HeaderTraceID, HString ''4bf9'')]\<rparr>) demo_failing
         (demo_cworld [] [] [])) = line # rest
     \<and> (FieldTraceID, ''4bf9'') \<in> set (line_fields line)"
proof -
  let ?m = "demo_message\<lparr>msg_Headers := [(HeaderAttempts, HInt32 1), (HeaderTraceID, HString ''4bf9'')]\<rparr>"
  have "attemptsOf (\<lambda>x. 1) ?m = 1" "am_MaxAttempts (cn_cfg (co_conn demo_consumer)) = 2" "cw_log (demo_cworld [] [] []) = []"
    "lg_level (co_log demo_consumer) \<le> ErrorLevel" by code_simp+
  then show ?thesis
    using exhausted_delivery_logged [of demo_failing demo_consumer demo_goctx "(6, ?m)" "Sentinel ''boom''" "\<lambda>x. 1" "''4bf9''" "''now''" "demo_cworld [] [] []"]
    by (auto simp: demo_failing_def in_i32_def)
qed

end
