(* ===== verification/Amqp_Shutdown.thy ===== *)
theory Amqp_Shutdown
  imports Go_Prelude
begin

text \<open>
  The shutdown of a consumer (\<open>pkg/amqp/consumer.go\<close>: \<open>stop\<close>, \<open>cancel\<close>,
  \<open>drain\<close>, \<open>keepDrained\<close>, \<open>Close\<close>) as a step relation on the goroutines involved: the
  one that runs \<open>Consume\<close>, the drain it starts, the one that calls \<open>Close\<close>, and the reader
  that \<open>keepDrained\<close> starts. Each is a program counter; they share the \<open>rpc\<close> mutex, the
  \<open>deliveries\<close> channel and the connection.

  The client library is as the comments of \<open>consumer.go\<close> describe it: one goroutine
  dispatches the frames of the connection in order, a delivery is handed over only when somebody
  reads the deliveries channel, and everything behind it waits; a reply goes to the caller that
  waits for it, and the reply to a cancel or a close closes the deliveries channel. The broker
  answers each request and sends at most as many deliveries as the prefetch leaves unsettled.
  The timer of the drain may fire at any moment, and the channel may be lost at any moment (the
  connection drops, a heartbeat fails, the broker closes the channel): then nothing sent on it
  arrives any more, the deliveries channel is closed and a call that waits for a reply returns an
  error.
  The runs start where \<open>Consume\<close> has its subscription and has stored its deliveries channel, so
  \<open>keepDrained\<close> always finds one; the call of \<open>channel.Consume\<close> before that point, which waits
  for its reply without the mutex, is outside these runs. A \<open>Close\<close> on a channel that is
  already closed waits for no reply.
\<close>

section \<open>State\<close>

datatype frame = DeliverFrame | CancelOkFrame | CloseOkFrame
datatype request = CancelRequest | CloseRequest
datatype who = Stopper | Closer

text \<open>Where \<open>Consume\<close> is: in its loop, in the handler, or in \<open>stop\<close> and \<open>cancel\<close>.\<close>

datatype stop_pc = SLooping | SHandling | SStart | SLock | SCheck | SWaitCancelOk | SUnlock | SWaitDrained | SReturned
datatype drain_pc = DOff | DReading | DDone | DGaveUp
datatype close_pc = CIdle | CStart | CLock | CCheck | CWaitCloseOk | CUnlock | CHalt | CWaitStopped | CReturned
datatype keeper_pc = KOff | KReading | KStopped

record shut =
  sh_frames :: "frame list" \<comment> \<open>sent by the broker, not dispatched yet\<close>
  sh_owed :: "request list" \<comment> \<open>what the broker has not answered yet\<close>
  sh_budget :: nat \<comment> \<open>how many more deliveries the prefetch allows\<close>
  sh_open :: bool \<comment> \<open>the AMQP channel is open\<close>
  sh_closed :: bool \<comment> \<open>the deliveries channel is closed\<close>
  sh_rpc :: "who option" \<comment> \<open>the holder of the mutex\<close>
  sh_stop :: stop_pc
  sh_drain :: drain_pc
  sh_close :: close_pc
  sh_keeper :: keeper_pc
  sh_halt :: bool

definition consuming :: "nat \<Rightarrow> shut" where
  "consuming prefetch = \<lparr>sh_frames = [], sh_owed = [], sh_budget = prefetch, sh_open = True, sh_closed = False, sh_rpc = None,
     sh_stop = SLooping, sh_drain = DOff, sh_close = CIdle, sh_keeper = KOff, sh_halt = False\<rparr>"

section \<open>Steps\<close>

text \<open>The loop of \<open>Consume\<close>: take a delivery and handle it, or leave when the channel is closed.\<close>

inductive loop_step :: "shut \<Rightarrow> shut \<Rightarrow> bool" where
  take_delivery: "sh_stop s = SLooping \<Longrightarrow> \<not> sh_closed s \<Longrightarrow> sh_frames s = DeliverFrame # fs
    \<Longrightarrow> loop_step s (s\<lparr>sh_frames := fs, sh_stop := SHandling\<rparr>)"
| handled: "sh_stop s = SHandling \<Longrightarrow> loop_step s (s\<lparr>sh_stop := SLooping, sh_budget := sh_budget s + 1\<rparr>)"
| connection_closed: "sh_stop s = SLooping \<Longrightarrow> sh_closed s \<Longrightarrow> loop_step s (s\<lparr>sh_stop := SReturned\<rparr>)"
| ctx_done: "sh_stop s = SLooping \<Longrightarrow> loop_step s (s\<lparr>sh_stop := SStart\<rparr>)"

text \<open>\<open>stop\<close>: start the drain, cancel, wait for the drain.\<close>

inductive stop_step :: "shut \<Rightarrow> shut \<Rightarrow> bool" where
  start_drain: "sh_stop s = SStart \<Longrightarrow> stop_step s (s\<lparr>sh_drain := DReading, sh_stop := SLock\<rparr>)"
| drained: "sh_stop s = SWaitDrained \<Longrightarrow> sh_drain s \<in> {DDone, DGaveUp} \<Longrightarrow> stop_step s (s\<lparr>sh_stop := SReturned\<rparr>)"

inductive cancel_step :: "shut \<Rightarrow> shut \<Rightarrow> bool" where
  cancel_lock: "sh_stop s = SLock \<Longrightarrow> sh_rpc s = None \<Longrightarrow> cancel_step s (s\<lparr>sh_rpc := Some Stopper, sh_stop := SCheck\<rparr>)"
| cancel_is_closed: "sh_stop s = SCheck \<Longrightarrow> \<not> sh_open s \<Longrightarrow> cancel_step s (s\<lparr>sh_stop := SUnlock\<rparr>)"
| cancel_request: "sh_stop s = SCheck \<Longrightarrow> sh_open s
    \<Longrightarrow> cancel_step s (s\<lparr>sh_owed := sh_owed s @ [CancelRequest], sh_stop := SWaitCancelOk\<rparr>)"
| cancel_unlock: "sh_stop s = SUnlock \<Longrightarrow> cancel_step s (s\<lparr>sh_rpc := None, sh_stop := SWaitDrained\<rparr>)"

text \<open>\<open>drain\<close>: read until the library closes the deliveries channel, or until the timer fires.\<close>

inductive drain_step :: "shut \<Rightarrow> shut \<Rightarrow> bool" where
  drain_read: "sh_drain s = DReading \<Longrightarrow> \<not> sh_closed s \<Longrightarrow> sh_frames s = DeliverFrame # fs \<Longrightarrow> drain_step s (s\<lparr>sh_frames := fs\<rparr>)"
| drain_ends: "sh_drain s = DReading \<Longrightarrow> sh_closed s \<Longrightarrow> drain_step s (s\<lparr>sh_drain := DDone\<rparr>)"
| drain_gives_up: "sh_drain s = DReading \<Longrightarrow> drain_step s (s\<lparr>sh_drain := DGaveUp\<rparr>)"

inductive keeper_step :: "shut \<Rightarrow> shut \<Rightarrow> bool" where
  keeper_read: "sh_keeper s = KReading \<Longrightarrow> \<not> sh_closed s \<Longrightarrow> sh_frames s = DeliverFrame # fs \<Longrightarrow> keeper_step s (s\<lparr>sh_frames := fs\<rparr>)"
| keeper_ends: "sh_keeper s = KReading \<Longrightarrow> sh_closed s \<Longrightarrow> keeper_step s (s\<lparr>sh_keeper := KStopped\<rparr>)"
| keeper_halts: "sh_keeper s = KReading \<Longrightarrow> sh_halt s \<Longrightarrow> keeper_step s (s\<lparr>sh_keeper := KStopped\<rparr>)"

text \<open>\<open>Close\<close>: keep the deliveries moving, lock, close the channel, unlock, release.\<close>

inductive close_step :: "shut \<Rightarrow> shut \<Rightarrow> bool" where
  keep_drained: "sh_close s = CStart \<Longrightarrow> close_step s (s\<lparr>sh_keeper := KReading, sh_close := CLock\<rparr>)"
| close_lock: "sh_close s = CLock \<Longrightarrow> sh_rpc s = None \<Longrightarrow> close_step s (s\<lparr>sh_rpc := Some Closer, sh_close := CCheck\<rparr>)"
| close_is_closed: "sh_close s = CCheck \<Longrightarrow> \<not> sh_open s \<Longrightarrow> close_step s (s\<lparr>sh_close := CUnlock\<rparr>)"
| close_request: "sh_close s = CCheck \<Longrightarrow> sh_open s
    \<Longrightarrow> close_step s (s\<lparr>sh_owed := sh_owed s @ [CloseRequest], sh_close := CWaitCloseOk\<rparr>)"
| close_unlock: "sh_close s = CUnlock \<Longrightarrow> close_step s (s\<lparr>sh_rpc := None, sh_close := CHalt\<rparr>)"
| close_halt: "sh_close s = CHalt \<Longrightarrow> close_step s (s\<lparr>sh_halt := True, sh_close := CWaitStopped\<rparr>)"
| close_released: "sh_close s = CWaitStopped \<Longrightarrow> sh_keeper s = KStopped \<Longrightarrow> close_step s (s\<lparr>sh_close := CReturned\<rparr>)"

text \<open>The library's dispatcher: replies to the caller that waits, deliveries to a closed channel dropped.\<close>

inductive reader_step :: "shut \<Rightarrow> shut \<Rightarrow> bool" where
  reply_cancel: "sh_frames s = CancelOkFrame # fs \<Longrightarrow> sh_stop s = SWaitCancelOk
    \<Longrightarrow> reader_step s (s\<lparr>sh_frames := fs, sh_closed := True, sh_stop := SUnlock\<rparr>)"
| reply_close: "sh_frames s = CloseOkFrame # fs \<Longrightarrow> sh_close s = CWaitCloseOk
    \<Longrightarrow> reader_step s (s\<lparr>sh_frames := fs, sh_closed := True, sh_open := False, sh_close := CUnlock\<rparr>)"
| drop_delivery: "sh_frames s = DeliverFrame # fs \<Longrightarrow> sh_closed s \<Longrightarrow> reader_step s (s\<lparr>sh_frames := fs\<rparr>)"

fun reply_of :: "request \<Rightarrow> frame" where
  "reply_of CancelRequest = CancelOkFrame"
| "reply_of CloseRequest = CloseOkFrame"

text \<open>The broker answers, or sends one more delivery.\<close>

inductive broker_step :: "shut \<Rightarrow> shut \<Rightarrow> bool" where
  broker_answers: "sh_owed s = r # rs \<Longrightarrow> broker_step s (s\<lparr>sh_owed := rs, sh_frames := sh_frames s @ [reply_of r]\<rparr>)"
| broker_delivers: "sh_open s \<Longrightarrow> sh_budget s = Suc n \<Longrightarrow> broker_step s (s\<lparr>sh_budget := n, sh_frames := sh_frames s @ [DeliverFrame]\<rparr>)"

text \<open>
  The loss of the channel: nothing that was on its way arrives, the library closes the deliveries
  channel, and whoever waits in \<open>channel.Cancel\<close> or \<open>channel.Close\<close> gets an error, which
  \<open>cancel\<close> logs and \<open>Close\<close> reports; both then release the mutex.
\<close>

definition lost :: "shut \<Rightarrow> shut" where
  "lost s = s\<lparr>sh_frames := [], sh_owed := [], sh_open := False, sh_closed := True,
     sh_stop := (if sh_stop s = SWaitCancelOk then SUnlock else sh_stop s),
     sh_close := (if sh_close s = CWaitCloseOk then CUnlock else sh_close s)\<rparr>"

inductive loss_step :: "shut \<Rightarrow> shut \<Rightarrow> bool" where
  channel_lost: "sh_open s \<Longrightarrow> loss_step s (lost s)"

text \<open>What the goroutines, the library and the broker do by themselves once the context is done.\<close>

inductive down_step :: "shut \<Rightarrow> shut \<Rightarrow> bool" where
  by_stop: "stop_step s t \<Longrightarrow> down_step s t"
| by_cancel: "cancel_step s t \<Longrightarrow> down_step s t"
| by_drain: "drain_step s t \<Longrightarrow> down_step s t"
| by_keeper: "keeper_step s t \<Longrightarrow> down_step s t"
| by_close: "close_step s t \<Longrightarrow> down_step s t"
| by_reader: "reader_step s t \<Longrightarrow> down_step s t"
| by_broker: "broker_step s t \<Longrightarrow> down_step s t"

text \<open>The same with a channel that may be lost in between.\<close>

inductive ending_step :: "shut \<Rightarrow> shut \<Rightarrow> bool" where
  end_down: "down_step s t \<Longrightarrow> ending_step s t"
| end_loss: "loss_step s t \<Longrightarrow> ending_step s t"

text \<open>Everything that can happen to a consumer, \<open>Close\<close> being called at any moment.\<close>

inductive any_step :: "shut \<Rightarrow> shut \<Rightarrow> bool" where
  any_ending: "ending_step s t \<Longrightarrow> any_step s t"
| any_loop: "loop_step s t \<Longrightarrow> any_step s t"
| close_called: "sh_close s = CIdle \<Longrightarrow> any_step s (s\<lparr>sh_close := CStart\<rparr>)"

inductive reached :: "nat \<Rightarrow> shut \<Rightarrow> bool" where
  reached_init: "reached prefetch (consuming prefetch)"
| reached_step: "reached prefetch s \<Longrightarrow> any_step s t \<Longrightarrow> reached prefetch t"

lemmas shut_steps = loop_step.simps stop_step.simps cancel_step.simps drain_step.simps keeper_step.simps close_step.simps
  reader_step.simps broker_step.simps loss_step.simps down_step.simps ending_step.simps any_step.simps

section \<open>The invariant\<close>

text \<open>Which program counters hold the mutex, and which ones have a drain or a keeper running.\<close>

definition stop_locked :: "stop_pc \<Rightarrow> bool" where "stop_locked pc \<longleftrightarrow> pc \<in> {SCheck, SWaitCancelOk, SUnlock}"
definition close_locked :: "close_pc \<Rightarrow> bool" where "close_locked pc \<longleftrightarrow> pc \<in> {CCheck, CWaitCloseOk, CUnlock}"
definition stop_draining :: "stop_pc \<Rightarrow> bool" where
  "stop_draining pc \<longleftrightarrow> pc \<in> {SLock, SCheck, SWaitCancelOk, SUnlock, SWaitDrained}"
definition stop_cancelled :: "stop_pc \<Rightarrow> bool" where "stop_cancelled pc \<longleftrightarrow> pc \<in> {SUnlock, SWaitDrained}"
definition close_keeping :: "close_pc \<Rightarrow> bool" where
  "close_keeping pc \<longleftrightarrow> pc \<in> {CLock, CCheck, CWaitCloseOk, CUnlock, CHalt}"

definition close_finished :: "close_pc \<Rightarrow> bool" where
  "close_finished pc \<longleftrightarrow> pc \<in> {CUnlock, CHalt, CWaitStopped, CReturned}"

definition lock_inv :: "shut \<Rightarrow> bool" where
  "lock_inv s \<longleftrightarrow> \<not> (stop_locked (sh_stop s) \<and> close_locked (sh_close s))
     \<and> sh_rpc s = (if stop_locked (sh_stop s) then Some Stopper else if close_locked (sh_close s) then Some Closer else None)"

text \<open>The replies on their way: those among the frames, then those the broker still owes.\<close>

definition replies :: "shut \<Rightarrow> frame list" where
  "replies s = filter (\<lambda>f. f \<noteq> DeliverFrame) (sh_frames s) @ map reply_of (sh_owed s)"

definition reply_inv :: "shut \<Rightarrow> bool" where
  "reply_inv s \<longleftrightarrow> replies s = (if sh_stop s = SWaitCancelOk then [CancelOkFrame] else [])
     @ (if sh_close s = CWaitCloseOk then [CloseOkFrame] else [])"

text \<open>While \<open>stop\<close> waits, the drain reads the deliveries, has given up, or there is nothing left to read.\<close>

definition drain_inv :: "shut \<Rightarrow> bool" where
  "drain_inv s \<longleftrightarrow> (\<not> sh_open s \<longrightarrow> sh_closed s)
     \<and> (stop_draining (sh_stop s) \<longrightarrow> sh_drain s \<noteq> DOff)
     \<and> (sh_drain s = DDone \<longrightarrow> sh_closed s)
     \<and> (stop_cancelled (sh_stop s) \<longrightarrow> sh_closed s)"

text \<open>Likewise for \<open>Close\<close> and the reader it starts.\<close>

definition keeper_inv :: "shut \<Rightarrow> bool" where
  "keeper_inv s \<longleftrightarrow> (close_keeping (sh_close s) \<longrightarrow> sh_keeper s \<noteq> KOff \<and> (sh_keeper s = KStopped \<longrightarrow> sh_closed s))
     \<and> (sh_close s = CWaitStopped \<longrightarrow> sh_halt s \<and> sh_keeper s \<noteq> KOff)
     \<and> (sh_halt s \<longrightarrow> sh_close s = CWaitStopped \<or> sh_close s = CReturned)"

text \<open>Once \<open>Close\<close> has its reply, or found the channel closed, the channel is closed for good.\<close>

definition finish_inv :: "shut \<Rightarrow> bool" where
  "finish_inv s \<longleftrightarrow> (close_finished (sh_close s) \<longrightarrow> \<not> sh_open s)"

definition shut_inv :: "shut \<Rightarrow> bool" where
  "shut_inv s \<longleftrightarrow> lock_inv s \<and> reply_inv s \<and> drain_inv s \<and> keeper_inv s \<and> finish_inv s"

lemmas pc_defs = stop_locked_def close_locked_def stop_draining_def stop_cancelled_def close_keeping_def close_finished_def

lemma reply_of_not_Deliver [simp]: "reply_of r \<noteq> DeliverFrame"
  by (cases r) simp_all

lemma any_step_preserves:
  assumes "any_step s t" "P s" "Q s"
    and "\<And>s t. loop_step s t \<Longrightarrow> P s \<Longrightarrow> Q s \<Longrightarrow> P t" "\<And>s t. stop_step s t \<Longrightarrow> P s \<Longrightarrow> Q s \<Longrightarrow> P t"
    and "\<And>s t. cancel_step s t \<Longrightarrow> P s \<Longrightarrow> Q s \<Longrightarrow> P t" "\<And>s t. drain_step s t \<Longrightarrow> P s \<Longrightarrow> Q s \<Longrightarrow> P t"
    and "\<And>s t. keeper_step s t \<Longrightarrow> P s \<Longrightarrow> Q s \<Longrightarrow> P t" "\<And>s t. close_step s t \<Longrightarrow> P s \<Longrightarrow> Q s \<Longrightarrow> P t"
    and "\<And>s t. reader_step s t \<Longrightarrow> P s \<Longrightarrow> Q s \<Longrightarrow> P t" "\<And>s t. broker_step s t \<Longrightarrow> P s \<Longrightarrow> Q s \<Longrightarrow> P t"
    and "\<And>s. P s \<Longrightarrow> Q s \<Longrightarrow> P (lost s)" "\<And>s. sh_close s = CIdle \<Longrightarrow> P s \<Longrightarrow> Q s \<Longrightarrow> P (s\<lparr>sh_close := CStart\<rparr>)"
  shows "P t"
  using assms by (auto elim!: any_step.cases ending_step.cases down_step.cases loss_step.cases)

lemmas step_elims = loop_step.cases stop_step.cases cancel_step.cases drain_step.cases keeper_step.cases close_step.cases
  reader_step.cases broker_step.cases

text \<open>A lost channel leaves every goroutine on the same side of the mutex, the drain and the keeper.\<close>

lemma lost_pc [simp]:
  "stop_locked (sh_stop (lost s)) = stop_locked (sh_stop s)" "close_locked (sh_close (lost s)) = close_locked (sh_close s)"
  "stop_draining (sh_stop (lost s)) = stop_draining (sh_stop s)" "close_keeping (sh_close (lost s)) = close_keeping (sh_close s)"
  "sh_stop (lost s) \<noteq> SWaitCancelOk" "sh_close (lost s) \<noteq> CWaitCloseOk"
  "sh_close (lost s) = CWaitStopped \<longleftrightarrow> sh_close s = CWaitStopped" "sh_close (lost s) = CReturned \<longleftrightarrow> sh_close s = CReturned"
  by (auto simp: lost_def pc_defs)

lemma lost_fields [simp]:
  "sh_frames (lost s) = []" "sh_owed (lost s) = []" "\<not> sh_open (lost s)" "sh_closed (lost s)" "sh_rpc (lost s) = sh_rpc s"
  "sh_drain (lost s) = sh_drain s" "sh_keeper (lost s) = sh_keeper s" "sh_halt (lost s) = sh_halt s"
  by (simp_all add: lost_def)

lemma lost_inv:
  "lock_inv s \<Longrightarrow> lock_inv (lost s)" "drain_inv s \<Longrightarrow> drain_inv (lost s)" "keeper_inv s \<Longrightarrow> keeper_inv (lost s)"
  "reply_inv (lost s)"
  by (simp_all add: lock_inv_def drain_inv_def keeper_inv_def reply_inv_def replies_def)

lemma lock_inv_step: "any_step s t \<Longrightarrow> lock_inv s \<Longrightarrow> lock_inv t"
  by (erule any_step_preserves [where P = lock_inv and Q = "\<lambda>_. True"], assumption, rule TrueI; (erule step_elims)?;
      (erule lost_inv)?; simp add: lock_inv_def pc_defs split: if_splits)

lemma drain_inv_step: "any_step s t \<Longrightarrow> drain_inv s \<Longrightarrow> drain_inv t"
  by (erule any_step_preserves [where P = drain_inv and Q = "\<lambda>_. True"], assumption, rule TrueI; (erule step_elims)?;
      (erule lost_inv)?; simp add: drain_inv_def pc_defs)

lemma keeper_inv_step: "any_step s t \<Longrightarrow> keeper_inv s \<Longrightarrow> keeper_inv t"
  by (erule any_step_preserves [where P = keeper_inv and Q = "\<lambda>_. True"], assumption, rule TrueI; (erule step_elims)?;
      (erule lost_inv)?; (simp add: keeper_inv_def pc_defs; fail)?; simp add: keeper_inv_def pc_defs; elim disjE; simp)

lemma finish_inv_step: "any_step s t \<Longrightarrow> finish_inv s \<Longrightarrow> finish_inv t"
  by (erule any_step_preserves [where P = finish_inv and Q = "\<lambda>_. True"], assumption, rule TrueI; (erule step_elims)?;
      simp add: finish_inv_def pc_defs)

lemma reply_inv_step: "any_step s t \<Longrightarrow> lock_inv s \<Longrightarrow> reply_inv s \<Longrightarrow> reply_inv t"
  by (erule any_step_preserves [where P = reply_inv and Q = lock_inv], assumption, assumption; (erule step_elims)?;
      (rule lost_inv)?;
      (simp add: reply_inv_def replies_def; fail)?; simp add: reply_inv_def replies_def lock_inv_def pc_defs split: if_splits)

lemma reached_inv: "reached prefetch s \<Longrightarrow> shut_inv s"
proof (induction rule: reached.induct)
  case (reached_init prefetch)
  show ?case
    by (simp add: shut_inv_def lock_inv_def reply_inv_def drain_inv_def keeper_inv_def finish_inv_def replies_def consuming_def pc_defs)
next
  case (reached_step prefetch s t)
  then show ?case
    using lock_inv_step reply_inv_step drain_inv_step keeper_inv_step finish_inv_step unfolding shut_inv_def by blast
qed

section \<open>Progress\<close>

text \<open>
  The one state of a shutdown that nothing inside the program leaves: the drain has given up,
  \<open>stop\<close> waits for the reply to its cancel, which is behind a delivery nobody reads any more,
  and \<open>Close\<close> has not been called.
\<close>

definition stalled :: "shut \<Rightarrow> bool" where
  "stalled s \<longleftrightarrow> sh_stop s = SWaitCancelOk \<and> sh_drain s = DGaveUp \<and> sh_close s = CIdle \<and> sh_open s \<and> \<not> sh_closed s
     \<and> sh_frames s \<noteq> [] \<and> hd (sh_frames s) = DeliverFrame"

text \<open>Otherwise whoever waits for a reply gets it: the broker answers, or the frames in front of it are read.\<close>

lemma unread_stalled:
  assumes "shut_inv s" "sh_stop s = SWaitCancelOk \<or> sh_close s = CWaitCloseOk" "\<not> sh_closed s"
    and "sh_drain s \<noteq> DReading" "sh_keeper s \<noteq> KReading" "sh_frames s = DeliverFrame # fs" "\<nexists>t. down_step s t"
  shows "stalled s"
proof -
  have "sh_close s \<notin> {CStart, CHalt, CWaitStopped}"
    using assms(1,5,7) by (cases "sh_keeper s") (auto simp: shut_inv_def keeper_inv_def
        intro: by_close keep_drained close_halt close_released)
  then show ?thesis
    using assms by (cases "sh_drain s"; cases "sh_keeper s"; cases "sh_close s")
      (simp_all add: stalled_def shut_inv_def drain_inv_def keeper_inv_def finish_inv_def lock_inv_def pc_defs)
qed

lemma waiting_progress:
  assumes inv: "shut_inv s" and wait: "sh_stop s = SWaitCancelOk \<or> sh_close s = CWaitCloseOk" and stuck: "\<nexists>t. down_step s t"
  shows "stalled s"
proof -
  have Nil: "sh_owed s = []"
    using stuck by (cases "sh_owed s") (blast intro: by_broker broker_answers)+
  have rep: "filter (\<lambda>f. f \<noteq> DeliverFrame) (sh_frames s) = (if sh_stop s = SWaitCancelOk then [CancelOkFrame] else [])
      @ (if sh_close s = CWaitCloseOk then [CloseOkFrame] else [])"
    using inv Nil by (simp add: shut_inv_def reply_inv_def replies_def)
  then obtain f fs where fr: "sh_frames s = f # fs"
    using wait by (cases "sh_frames s") (auto split: if_splits)
  have "f = DeliverFrame"
  proof (cases f)
    case CancelOkFrame
    then have "sh_stop s = SWaitCancelOk" using rep fr by (auto split: if_splits)
    then show ?thesis using stuck fr CancelOkFrame by (blast intro: by_reader reply_cancel)
  next
    case CloseOkFrame
    then have "sh_close s = CWaitCloseOk" using rep fr by (auto split: if_splits)
    then show ?thesis using stuck fr CloseOkFrame by (blast intro: by_reader reply_close)
  qed
  moreover have "\<not> sh_closed s" "sh_drain s \<noteq> DReading" "sh_keeper s \<noteq> KReading"
    using stuck fr \<open>f = DeliverFrame\<close> by (blast intro: by_reader drop_delivery by_drain drain_gives_up by_keeper keeper_read)+
  ultimately show ?thesis using unread_stalled [OF inv wait] fr stuck by blast
qed

text \<open>Whoever holds the mutex moves, so nobody else waits for it forever.\<close>

lemma locked_progress:
  assumes inv: "shut_inv s" and "sh_rpc s = Some w" and stuck: "\<nexists>t. down_step s t"
  shows "stalled s"
proof -
  have "stop_locked (sh_stop s) \<or> close_locked (sh_close s)"
    using assms by (auto simp: shut_inv_def lock_inv_def split: if_splits)
  then consider "sh_stop s = SCheck" | "sh_stop s = SUnlock" | "sh_close s = CCheck" | "sh_close s = CUnlock"
    | "sh_stop s = SWaitCancelOk \<or> sh_close s = CWaitCloseOk"
    by (auto simp: pc_defs)
  then show ?thesis
    using waiting_progress [OF inv] stuck
    by cases (blast intro: by_cancel by_close cancel_is_closed cancel_request cancel_unlock close_is_closed close_request close_unlock)+
qed

lemma stop_progress:
  assumes inv: "shut_inv s" and "sh_stop s \<notin> {SLooping, SHandling, SReturned}" and stuck: "\<nexists>t. down_step s t"
  shows "stalled s"
proof (cases "sh_stop s")
  case SStart
  then show ?thesis using stuck by (blast intro: by_stop start_drain)
next
  case SLock
  then show ?thesis using locked_progress [OF inv] stuck by (cases "sh_rpc s") (blast intro: by_cancel cancel_lock)+
next
  case SWaitDrained
  then have "sh_drain s \<noteq> DOff" using inv by (auto simp: shut_inv_def drain_inv_def pc_defs)
  then show ?thesis using SWaitDrained stuck by (cases "sh_drain s") (blast intro: by_stop drained by_drain drain_gives_up)+
qed (use assms locked_progress [OF inv] in \<open>auto simp: shut_inv_def lock_inv_def pc_defs\<close>)

lemma close_locked_progress:
  assumes inv: "shut_inv s" and "close_locked (sh_close s)"
  shows "\<exists>t. down_step s t"
proof (rule ccontr)
  assume stuck: "\<nexists>t. down_step s t"
  obtain w where "sh_rpc s = Some w"
    using assms by (cases "sh_rpc s") (auto simp: shut_inv_def lock_inv_def split: if_splits)
  then have "stalled s" using locked_progress [OF inv] stuck by blast
  then show False using assms(2) by (simp add: stalled_def pc_defs)
qed

lemma close_progress:
  assumes inv: "shut_inv s" and "sh_close s \<notin> {CIdle, CReturned}"
  shows "\<exists>t. down_step s t"
proof (cases "sh_close s")
  case CStart
  then show ?thesis by (blast intro: by_close keep_drained)
next
  case CLock
  then show ?thesis
    using locked_progress [OF inv] by (cases "sh_rpc s") (auto simp: stalled_def intro: by_close close_lock)
next
  case CHalt
  then show ?thesis by (blast intro: by_close close_halt)
next
  case CWaitStopped
  then have "sh_halt s" "sh_keeper s \<noteq> KOff" using inv by (auto simp: shut_inv_def keeper_inv_def)
  then show ?thesis using CWaitStopped by (cases "sh_keeper s") (blast intro: by_close close_released by_keeper keeper_halts)+
qed (use assms close_locked_progress in \<open>simp_all add: pc_defs\<close>)

section \<open>Termination\<close>

text \<open>A rank that every step of the shutdown lowers: what each goroutine has left to do, the replies
  and deliveries still to come, and the frames still to read.\<close>

fun stop_rank :: "stop_pc \<Rightarrow> nat" where
  "stop_rank SStart = 10"
| "stop_rank SLock = 8"
| "stop_rank SCheck = 7"
| "stop_rank SWaitCancelOk = 4"
| "stop_rank SUnlock = 3"
| "stop_rank SWaitDrained = 2"
| "stop_rank _ = 0"

fun close_rank :: "close_pc \<Rightarrow> nat" where
  "close_rank CStart = 12"
| "close_rank CLock = 10"
| "close_rank CCheck = 9"
| "close_rank CWaitCloseOk = 6"
| "close_rank CUnlock = 5"
| "close_rank CHalt = 4"
| "close_rank CWaitStopped = 3"
| "close_rank _ = 0"

definition shut_rank :: "shut \<Rightarrow> nat" where
  "shut_rank s = stop_rank (sh_stop s) + close_rank (sh_close s) + 2 * sh_budget s + 2 * length (sh_owed s) + length (sh_frames s)
     + (if sh_drain s = DReading then 1 else 0) + (if sh_keeper s = KReading then 1 else 0)
     + (if sh_open s then 1 else 0)"

lemma down_step_rank: "down_step s t \<Longrightarrow> shut_rank t < shut_rank s"
  by (erule down_step.cases; hypsubst; erule step_elims; simp add: shut_rank_def)

lemma lost_rank: "sh_open s \<Longrightarrow> shut_rank (lost s) < shut_rank s"
  by (cases "sh_stop s"; cases "sh_close s") (simp_all add: shut_rank_def lost_def)

lemma ending_step_rank: "ending_step s t \<Longrightarrow> shut_rank t < shut_rank s"
  by (auto elim!: ending_step.cases loss_step.cases simp: down_step_rank lost_rank)

lemma ending_steps_rank: "(ending_step ^^ n) s t \<Longrightarrow> n + shut_rank t \<le> shut_rank s"
  by (induction n arbitrary: t) (auto dest!: ending_step_rank, fastforce)

lemma ending_step_stopping:
  assumes "ending_step s t" and stop: "sh_stop s \<notin> {SLooping, SHandling}"
  shows "sh_stop t \<notin> {SLooping, SHandling}"
  using assms(1)
proof cases
  case end_down
  then show ?thesis using stop by cases (erule step_elims; simp)+
next
  case end_loss
  then show ?thesis using stop by cases (simp add: lost_def)
qed

text \<open>Once \<open>Close\<close> is called or the channel is gone, that stays so.\<close>

definition doomed :: "shut \<Rightarrow> bool" where "doomed s \<longleftrightarrow> sh_close s \<noteq> CIdle \<or> \<not> sh_open s"

lemma ending_step_doomed:
  assumes "ending_step s t" and "doomed s"
  shows "doomed t"
  using assms(1)
proof cases
  case end_down
  then show ?thesis using assms(2) by cases (erule step_elims; simp add: doomed_def)+
next
  case end_loss
  then show ?thesis by cases (simp add: doomed_def)
qed

lemma ending_steps_doomed: "ending_step\<^sup>*\<^sup>* s t \<Longrightarrow> doomed s \<Longrightarrow> doomed t"
  by (induction rule: rtranclp_induct) (simp, metis ending_step_doomed)

lemma ending_steps_reached: "ending_step\<^sup>*\<^sup>* s t \<Longrightarrow> reached prefetch s \<Longrightarrow> reached prefetch t"
  by (induction rule: rtranclp_induct) (auto intro: reached_step any_ending)

lemma ending_steps_stopping: "ending_step\<^sup>*\<^sup>* s t \<Longrightarrow> sh_stop s \<notin> {SLooping, SHandling} \<Longrightarrow> sh_stop t \<notin> {SLooping, SHandling}"
  by (induction rule: rtranclp_induct) (simp, metis ending_step_stopping)

lemma down_steps_end: "\<exists>t. down_step\<^sup>*\<^sup>* s t \<and> (\<nexists>u. down_step t u)"
proof (induction "shut_rank s" arbitrary: s rule: less_induct)
  case less
  then show ?case by (metis converse_rtranclp_into_rtranclp down_step_rank rtranclp.rtrancl_refl)
qed

section \<open>Properties\<close>

text \<open>A consumer whose delivery waits and whose context is done, with \<open>Close\<close> called at the same moment.\<close>

definition racing :: shut where
  "racing = (consuming 1)\<lparr>sh_budget := 0, sh_frames := [DeliverFrame], sh_stop := SStart, sh_close := CStart\<rparr>"

lemmas down_reached = reached_step [OF _ any_ending, OF _ end_down]

lemma stopping_reached: "reached 1 ((consuming 1)\<lparr>sh_budget := 0, sh_frames := [DeliverFrame], sh_stop := SStart\<rparr>)"
proof -
  let ?a = "(consuming 1)\<lparr>sh_budget := 0, sh_frames := [DeliverFrame]\<rparr>"
  have "reached 1 ?a"
    using down_reached [OF reached_init by_broker, OF broker_delivers [of "consuming 1" 0]] by (simp add: consuming_def)
  moreover have "any_step ?a (?a\<lparr>sh_stop := SStart\<rparr>)"
    by (rule any_loop, rule ctx_done) (simp add: consuming_def)
  ultimately show ?thesis by (auto intro: reached_step)
qed

lemma racing_reached: "reached 1 racing"
  using reached_step [OF stopping_reached close_called] by (simp add: racing_def consuming_def)

text \<open>C7. The shutdown of a consumer ends, with one exception. However \<open>Consume\<close> (its context done),
  the drain and its timer, \<open>Close\<close>, its keeper, the library, the broker and a loss of the
  channel interleave, only finitely many steps (at most the rank of the state) can be taken. When
  the program, the library and the broker have none left, \<open>Consume\<close> has returned, and so has
  \<open>Close\<close> if it was called; or the state is stalled: the drain gave up on its timer while the
  reply to the cancel was still behind an unread delivery. The exception is excluded as soon as
  \<open>Close\<close> has been called or the channel was lost.\<close>

theorem shutdown_terminates:
  assumes "reached prefetch s" and "sh_stop s \<notin> {SLooping, SHandling}"
  shows "(\<forall>n t. (ending_step ^^ n) s t \<longrightarrow> n \<le> shut_rank s)
    \<and> (\<exists>t. down_step\<^sup>*\<^sup>* s t \<and> (\<nexists>u. down_step t u))
    \<and> (\<forall>t. ending_step\<^sup>*\<^sup>* s t \<and> (\<nexists>u. down_step t u) \<longrightarrow>
        sh_stop t = SReturned \<and> sh_close t \<in> {CIdle, CReturned}
        \<or> sh_stop t = SWaitCancelOk \<and> sh_drain t = DGaveUp \<and> sh_close t = CIdle \<and> sh_open t \<and> \<not> sh_closed t
          \<and> sh_frames t \<noteq> [] \<and> hd (sh_frames t) = DeliverFrame
          \<and> sh_close s = CIdle \<and> sh_open s)"
proof (intro conjI allI impI)
  fix n t assume "(ending_step ^^ n) s t"
  then show "n \<le> shut_rank s" using ending_steps_rank by fastforce
next
  show "\<exists>t. down_step\<^sup>*\<^sup>* s t \<and> (\<nexists>u. down_step t u)" by (rule down_steps_end)
next
  fix t assume t: "ending_step\<^sup>*\<^sup>* s t \<and> (\<nexists>u. down_step t u)"
  then have "shut_inv t" using assms(1) ending_steps_reached reached_inv by blast
  then have "sh_stop t = SReturned \<and> sh_close t \<in> {CIdle, CReturned} \<or> stalled t"
    using t stop_progress close_progress ending_steps_stopping [OF _ assms(2)] by blast
  then show "sh_stop t = SReturned \<and> sh_close t \<in> {CIdle, CReturned}
      \<or> sh_stop t = SWaitCancelOk \<and> sh_drain t = DGaveUp \<and> sh_close t = CIdle \<and> sh_open t \<and> \<not> sh_closed t
        \<and> sh_frames t \<noteq> [] \<and> hd (sh_frames t) = DeliverFrame \<and> sh_close s = CIdle \<and> sh_open s"
    using t ending_steps_doomed [of s t] by (auto simp: stalled_def doomed_def)
qed

lemma shutdown_terminates_witness:
  "sh_stop racing \<notin> {SLooping, SHandling} \<and> sh_close racing = CStart
    \<and> (\<exists>t. down_step\<^sup>*\<^sup>* racing t \<and> (\<nexists>u. down_step t u) \<and> sh_stop t = SReturned \<and> sh_close t \<in> {CIdle, CReturned})"
proof -
  have s: "sh_stop racing \<notin> {SLooping, SHandling}" by (simp add: racing_def)
  note T = shutdown_terminates [OF racing_reached s]
  obtain t where t: "down_step\<^sup>*\<^sup>* racing t" "\<nexists>u. down_step t u" using T by blast
  then have "ending_step\<^sup>*\<^sup>* racing t" by (metis end_down mono_rtranclp)
  then show ?thesis using s t T by (auto simp: racing_def intro!: exI [of _ t])
qed

text \<open>C25. Once \<open>Consume\<close> has its subscription, at most one goroutine waits for a reply of the
  channel at any time, the one that holds the mutex, and the replies on their way (sent or still
  owed) are exactly the one it waits for: no waiter can take the other's reply. (The call of
  \<open>channel.Consume\<close> that makes the subscription waits without the mutex and comes before.)\<close>

theorem one_reply_waiter:
  assumes "reached prefetch s"
  shows "\<not> (sh_stop s = SWaitCancelOk \<and> sh_close s = CWaitCloseOk)
    \<and> (sh_stop s = SWaitCancelOk \<longrightarrow> sh_rpc s = Some Stopper \<and> replies s = [CancelOkFrame])
    \<and> (sh_close s = CWaitCloseOk \<longrightarrow> sh_rpc s = Some Closer \<and> replies s = [CloseOkFrame])
    \<and> (sh_stop s \<noteq> SWaitCancelOk \<and> sh_close s \<noteq> CWaitCloseOk \<longrightarrow> replies s = [])"
  using reached_inv [OF assms] by (auto simp: shut_inv_def lock_inv_def reply_inv_def pc_defs split: if_splits)

lemma one_reply_waiter_witness: "reached 1 racing \<and> replies racing = []"
  using one_reply_waiter [OF racing_reached] racing_reached by (simp add: racing_def consuming_def)

text \<open>A delivery on its way when the context ended, the timer fired before it was read, and the reply to
  the cancel behind it.\<close>

definition stuck_stop :: shut where
  "stuck_stop = (consuming 1)\<lparr>sh_budget := 0, sh_frames := [DeliverFrame, CancelOkFrame], sh_rpc := Some Stopper,
     sh_stop := SWaitCancelOk, sh_drain := DGaveUp\<rparr>"

lemma stuck_stop_reached: "reached 1 stuck_stop"
proof -
  let ?a = "(consuming 1)\<lparr>sh_budget := 0, sh_frames := [DeliverFrame], sh_stop := SStart\<rparr>"
  let ?b = "?a\<lparr>sh_drain := DGaveUp, sh_rpc := Some Stopper, sh_stop := SWaitCancelOk, sh_owed := [CancelRequest]\<rparr>"
  have "reached 1 (?a\<lparr>sh_drain := DReading, sh_stop := SLock\<rparr>)"
    using down_reached [OF stopping_reached by_stop, OF start_drain] by (simp add: consuming_def)
  from down_reached [OF this by_drain, OF drain_gives_up] have "reached 1 (?a\<lparr>sh_drain := DGaveUp, sh_stop := SLock\<rparr>)"
    by (simp add: consuming_def)
  from down_reached [OF this by_cancel, OF cancel_lock]
  have "reached 1 (?a\<lparr>sh_drain := DGaveUp, sh_rpc := Some Stopper, sh_stop := SCheck\<rparr>)" by (simp add: consuming_def)
  from down_reached [OF this by_cancel, OF cancel_request] have "reached 1 ?b" by (simp add: consuming_def)
  from down_reached [OF this by_broker, OF broker_answers [of _ CancelRequest "[]"]] show ?thesis
    by (simp add: stuck_stop_def consuming_def)
qed

text \<open>C40. \<open>drainTimeout\<close> does not bound the shutdown, it can block it: a state is reachable in which
  the drain has given up, the broker has confirmed the cancellation, and \<open>Consume\<close> still waits
  for that confirmation, which is behind a delivery nobody reads; the only things that can happen
  in it are a call of \<open>Close\<close> by somebody else and the loss of the channel.\<close>

theorem drain_timeout_does_not_bound_stop:
  "\<exists>s. reached 1 s \<and> sh_drain s = DGaveUp \<and> sh_owed s = [] \<and> CancelOkFrame \<in> set (sh_frames s) \<and> sh_stop s = SWaitCancelOk
    \<and> Collect (any_step s) = {s\<lparr>sh_close := CStart\<rparr>, lost s}"
proof (intro exI conjI)
  show "Collect (any_step stuck_stop) = {stuck_stop\<lparr>sh_close := CStart\<rparr>, lost stuck_stop}"
    by (auto simp: shut_steps stuck_stop_def consuming_def)
qed (rule stuck_stop_reached, simp_all add: stuck_stop_def consuming_def)

end
