(* ===== verification/Health.thy ===== *)
theory Health
  imports Go_Prelude
begin

text \<open>
  \<open>pkg/health\<close>: the registry of dependency checks and the two probes over HTTP. The probes
  of a report run concurrently, each writing its own slot of the result; the order in which
  they finish is an argument of \<open>Check\<close>.
\<close>

section \<open>Checks and reports\<close>

datatype health_status = StatusUp | StatusDown

text \<open>A probe, under the timeout it is given: its error and the time it took.\<close>

record check =
  ck_Name :: string
  ck_Probe :: "duration \<Rightarrow> go_error option \<times> duration"
  ck_Critical :: bool

record check_result =
  re_Name :: string
  re_Status :: health_status
  re_Critical :: bool
  re_Latency :: duration
  re_Error :: string

record report =
  rp_Status :: health_status
  rp_Service :: string
  rp_Version :: string
  rp_Checks :: "check_result list"

definition Ready :: "report \<Rightarrow> bool" where
  "Ready r = (rp_Status r = StatusUp)"

record registry =
  rg_checks :: "check list"
  rg_service :: string
  rg_version :: string
  rg_timeout :: duration

definition DefaultTimeout :: duration where "DefaultTimeout = 2 * Second"

definition NewRegistry :: "string \<Rightarrow> string \<Rightarrow> registry" where
  "NewRegistry service version =
     \<lparr>rg_checks = [], rg_service = service, rg_version = version, rg_timeout = DefaultTimeout\<rparr>"

definition Register :: "check \<Rightarrow> registry \<Rightarrow> registry" where
  "Register c r = r\<lparr>rg_checks := rg_checks r @ [c]\<rparr>"

definition SetTimeout :: "duration \<Rightarrow> registry \<Rightarrow> registry" where
  "SetTimeout d r = r\<lparr>rg_timeout := d\<rparr>"

section \<open>Running the checks\<close>

definition run_check :: "check \<Rightarrow> duration \<Rightarrow> check_result" where
  "run_check c timeout =
     (case ck_Probe c timeout of (err, elapsed) \<Rightarrow>
        (let result = \<lparr>re_Name = ck_Name c, re_Status = StatusUp, re_Critical = ck_Critical c,
                        re_Latency = elapsed, re_Error = ''''\<rparr>
         in case err of
              None \<Rightarrow> result
            | Some e \<Rightarrow> result\<lparr>re_Status := StatusDown, re_Error := err_text e\<rparr>))"

definition zero_result :: check_result where
  "zero_result = \<lparr>re_Name = '''', re_Status = StatusUp, re_Critical = False, re_Latency = 0, re_Error = ''''\<rparr>"

text \<open>\<open>results[i] = run(...)\<close> by the goroutines, in the order \<open>order\<close>.\<close>

definition run_all_checks :: "nat list \<Rightarrow> check list \<Rightarrow> duration \<Rightarrow> check_result list" where
  "run_all_checks order checks timeout =
     fold (\<lambda>i results. results[i := run_check (checks ! i) timeout]) order (replicate (length checks) zero_result)"

fun overall :: "check_result list \<Rightarrow> health_status" where
  "overall [] = StatusUp"
| "overall (r # rs) = (if re_Status r = StatusDown \<and> re_Critical r then StatusDown else overall rs)"

definition Check :: "nat list \<Rightarrow> registry \<Rightarrow> report" where
  "Check order r =
     (let results = run_all_checks order (rg_checks r) (rg_timeout r)
      in \<lparr>rp_Status = overall results, rp_Service = rg_service r, rp_Version = rg_version r, rp_Checks = results\<rparr>)"

section \<open>The handlers\<close>

record http_response =
  hr_Code :: int
  hr_Headers :: "(string \<times> string) list"
  hr_Body :: string

text \<open>\<open>enc\<close> is the JSON encoder.\<close>

definition writeJSON :: "('a \<Rightarrow> string) \<Rightarrow> int \<Rightarrow> 'a \<Rightarrow> http_response" where
  "writeJSON enc code body =
     \<lparr>hr_Code = code,
      hr_Headers = [(''Content-Type'', ''application/json; charset=utf-8''), (''Cache-Control'', ''no-store'')],
      hr_Body = enc body\<rparr>"

definition LivenessHandler :: "((string \<times> string) list \<Rightarrow> string) \<Rightarrow> string \<Rightarrow> string \<Rightarrow> http_response" where
  "LivenessHandler enc service version =
     writeJSON enc 200 [(''status'', ''up''), (''service'', service), (''version'', version)]"

definition ReadinessHandler :: "(report \<Rightarrow> string) \<Rightarrow> nat list \<Rightarrow> registry \<Rightarrow> http_response" where
  "ReadinessHandler enc order r =
     (let report = Check order r;
          code = (if \<not> Ready report then 503 else 200)
      in writeJSON enc code report)"

section \<open>Lemmas\<close>

lemma overall_Up: "overall rs = StatusUp \<longleftrightarrow> (\<forall>r\<in>set rs. re_Critical r \<longrightarrow> re_Status r = StatusUp)"
  by (induction rs) (auto, (metis health_status.exhaust)+)

lemma length_fold_update:
  "length (fold (\<lambda>i rs. rs[i := f i]) order rs) = length rs"
  by (induction order arbitrary: rs) auto

lemma nth_fold_update:
  "j < length rs \<Longrightarrow> fold (\<lambda>i rs. rs[i := f i]) order rs ! j = (if j \<in> set order then f j else rs ! j)"
  by (induction order arbitrary: rs) (auto simp: nth_list_update)

lemma run_all_checks_map:
  assumes "set order = {..<length checks}"
  shows "run_all_checks order checks timeout = map (\<lambda>c. run_check c timeout) checks"
  by (rule nth_equalityI) (auto simp: run_all_checks_def length_fold_update nth_fold_update assms)

lemma run_check_status [simp]:
  "re_Status (run_check c t) = (if fst (ck_Probe c t) = None then StatusUp else StatusDown)"
  "re_Critical (run_check c t) = ck_Critical c" "re_Name (run_check c t) = ck_Name c"
  by (auto simp: run_check_def Let_def split: prod.split option.split)

lemma Readiness_code:
  assumes "set order = {..<length (rg_checks r)}"
  shows "hr_Code (ReadinessHandler enc order r) =
    (if \<forall>c\<in>set (rg_checks r). ck_Critical c \<longrightarrow> fst (ck_Probe c (rg_timeout r)) = None then 200 else 503)"
  by (auto simp: ReadinessHandler_def Check_def Ready_def writeJSON_def Let_def overall_Up run_all_checks_map [OF assms])

section \<open>Properties\<close>

text \<open>
  C37. Readiness: whatever order the concurrent probes finish in, the answer is 200 exactly if
  every critical dependency answered its probe and 503 otherwise, so that a non-critical one
  never takes the service out of rotation; and the report lists every registered check, in
  registration order, with its own outcome.
\<close>

theorem ready_iff_critical_up:
  assumes "set order = {..<length (rg_checks r)}"
  shows "hr_Code (ReadinessHandler enc order r) =
       (if \<forall>c\<in>set (rg_checks r). ck_Critical c \<longrightarrow> fst (ck_Probe c (rg_timeout r)) = None then 200 else 503)
     \<and> map re_Name (rp_Checks (Check order r)) = map ck_Name (rg_checks r)
     \<and> map re_Status (rp_Checks (Check order r)) =
         map (\<lambda>c. if fst (ck_Probe c (rg_timeout r)) = None then StatusUp else StatusDown) (rg_checks r)"
  by (simp add: Readiness_code [OF assms] Check_def Let_def run_all_checks_map [OF assms] comp_def)

definition demo_check :: "string \<Rightarrow> bool \<Rightarrow> go_error option \<Rightarrow> check" where
  "demo_check name critical err = \<lparr>ck_Name = name, ck_Probe = \<lambda>t. (err, t), ck_Critical = critical\<rparr>"

theorem ready_iff_critical_up_witness:
  "hr_Code (ReadinessHandler (\<lambda>_. '''') [1, 0]
     (Register (demo_check ''redis'' False (Some ctx_Canceled)) (Register (demo_check ''postgres'' True None) (NewRegistry ''tours'' ''v1'')))) = 200"
proof -
  let ?r = "Register (demo_check ''redis'' False (Some ctx_Canceled)) (Register (demo_check ''postgres'' True None) (NewRegistry ''tours'' ''v1''))"
  have "set [1, 0] = {..<length (rg_checks ?r)}"
    by (auto simp: Register_def NewRegistry_def lessThan_Suc)
  from ready_iff_critical_up [OF this] show ?thesis
    by (auto simp: Register_def NewRegistry_def demo_check_def)
qed

end
