(* ===== verification/Cache.thy ===== *)
theory Cache
  imports Health
begin

text \<open>
  \<open>pkg/cache\<close>: the keys of a service's namespace and the read cache over Redis.

  The Redis client is not code of the repository: it is a record of operations on a state of
  its own type, and \<open>redis_laws\<close> states the documented behaviour the cache relies on, over a
  view of that state (the stored bytes with their expiry, and the server's clock). The JSON
  codec is a parameter as well.
\<close>

section \<open>Keys\<close>

definition Separator :: string where "Separator = '':''"

record namespace =
  ns_service :: string

definition NewNamespace :: "string \<Rightarrow> namespace" where
  "NewNamespace service = \<lparr>ns_service = service\<rparr>"

definition Key :: "namespace \<Rightarrow> string list \<Rightarrow> string" where
  "Key n segments = Join (ns_service n # segments) Separator"

definition Versioned :: "namespace \<Rightarrow> string \<Rightarrow> string \<Rightarrow> int \<Rightarrow> string" where
  "Versioned n entity ident version = Key n [entity, ident, ''v'' @ Itoa version]"

definition Prefix :: "namespace \<Rightarrow> string list \<Rightarrow> string" where
  "Prefix n segments = Key n segments @ Separator"

section \<open>The client\<close>

type_synonym cursor = nat \<comment> \<open>uint64\<close>

record 'r redis_client =
  rc_Get :: "string \<Rightarrow> 'r \<Rightarrow> (go_error + bytes) \<times> 'r"
  rc_Set :: "string \<Rightarrow> bytes \<Rightarrow> duration \<Rightarrow> 'r \<Rightarrow> go_error option \<times> 'r"
  rc_Del :: "string list \<Rightarrow> 'r \<Rightarrow> go_error option \<times> 'r"
  rc_Scan :: "cursor \<Rightarrow> string \<Rightarrow> nat \<Rightarrow> 'r \<Rightarrow> (go_error + string list \<times> cursor) \<times> 'r"
  rc_Ping :: "'r \<Rightarrow> go_error option \<times> 'r"
  rc_Close :: "'r \<Rightarrow> go_error option \<times> 'r"

definition redis_Nil :: go_error where "redis_Nil = Sentinel ''redis: nil''"

record redis_options =
  ro_Addr :: string
  ro_DialTimeout :: duration
  ro_ReadTimeout :: duration
  ro_PoolSize :: int

section \<open>The cache\<close>

definition cache_ErrNotFound :: go_error where
  "cache_ErrNotFound = Sentinel ''cache: key not found''"

definition CheckName :: string where "CheckName = ''redis''"

definition ErrEmptyPrefix :: go_error where
  "ErrEmptyPrefix = Sentinel ''cache: DeleteByPrefix requires a non-empty prefix''"

definition scanBatchSize :: nat where "scanBatchSize = 256"

record cache_config =
  cc_URL :: string
  cc_Namespace :: string
  cc_DefaultTTL :: duration
  cc_DialTimeout :: duration
  cc_ReadTimeout :: duration
  cc_PoolSize :: int

record 'r redis_cache =
  ca_client :: "'r redis_client"
  ca_namespace :: namespace
  ca_defaultTTL :: duration

definition NewRedisWithClient :: "'r redis_client \<Rightarrow> cache_config \<Rightarrow> string \<Rightarrow> 'r redis_cache" where
  "NewRedisWithClient client cfg serviceName =
     (let namespace = cc_Namespace cfg;
          namespace = (if namespace = '''' then serviceName else namespace);
          ttl = cc_DefaultTTL cfg;
          ttl = (if ttl \<le> 0 then 5 * Minute else ttl)
      in \<lparr>ca_client = client, ca_namespace = NewNamespace namespace, ca_defaultTTL = ttl\<rparr>)"

text \<open>\<open>parseURL\<close> and \<open>newClient\<close> are the client library's constructors.\<close>

definition NewRedis ::
  "(string \<Rightarrow> go_error + redis_options) \<Rightarrow> (redis_options \<Rightarrow> 'r redis_client) \<Rightarrow> cache_config \<Rightarrow> string \<Rightarrow> 'r
   \<Rightarrow> (go_error + 'r redis_cache) \<times> 'r" where
  "NewRedis parseURL newClient cfg serviceName r =
     (case parseURL (cc_URL cfg) of
        Inl err \<Rightarrow> (Inl (Errorf ''REDIS_URL could not be parsed'' err), r)
      | Inr opts \<Rightarrow>
          (let opts = opts\<lparr>ro_DialTimeout := cc_DialTimeout cfg, ro_ReadTimeout := cc_ReadTimeout cfg,
                           ro_PoolSize := cc_PoolSize cfg\<rparr>;
               client = newClient opts
           in case rc_Ping client r of
                (Some err, r) \<Rightarrow>
                  (let r = snd (rc_Close client r)
                   in (Inl (Errorf ''connecting to Redis'' err), r))
              | (None, r) \<Rightarrow> (Inr (NewRedisWithClient client cfg serviceName), r)))"

definition Namespace :: "'r redis_cache \<Rightarrow> namespace" where
  "Namespace c = ca_namespace c"

text \<open>The decoded value stands for what \<open>Get\<close> writes through \<open>dest\<close>.\<close>

definition Get :: "(bytes \<Rightarrow> go_error + 'v) \<Rightarrow> 'r redis_cache \<Rightarrow> string \<Rightarrow> 'r \<Rightarrow> (go_error + 'v) \<times> 'r" where
  "Get unmarshal c key r =
     (case rc_Get (ca_client c) key r of
        (Inl err, r) \<Rightarrow>
          if errors_Is err redis_Nil then (Inl cache_ErrNotFound, r)
          else (Inl (Errorf (''reading the cache key '' @ quote key) err), r)
      | (Inr raw, r) \<Rightarrow>
          (case unmarshal raw of
             Inl _ \<Rightarrow> (let r = snd (rc_Del (ca_client c) [key] r) in (Inl cache_ErrNotFound, r))
           | Inr v \<Rightarrow> (Inr v, r)))"

definition Set :: "('v \<Rightarrow> go_error + bytes) \<Rightarrow> 'r redis_cache \<Rightarrow> string \<Rightarrow> 'v \<Rightarrow> duration \<Rightarrow> 'r \<Rightarrow> go_error option \<times> 'r" where
  "Set marsh c key v ttl r =
     (case marsh v of
        Inl err \<Rightarrow> (Some (Errorf (''serializing the value for the cache key '' @ quote key) err), r)
      | Inr raw \<Rightarrow>
          (let ttl = (if ttl = 0 then ca_defaultTTL c else ttl) in
           case rc_Set (ca_client c) key raw ttl r of
             (Some err, r) \<Rightarrow> (Some (Errorf (''writing the cache key '' @ quote key) err), r)
           | (None, r) \<Rightarrow> (None, r)))"

definition Delete :: "'r redis_cache \<Rightarrow> string list \<Rightarrow> 'r \<Rightarrow> go_error option \<times> 'r" where
  "Delete c keys r =
     (if length keys = 0 then (None, r)
      else case rc_Del (ca_client c) keys r of
             (Some err, r) \<Rightarrow> (Some (Errorf (''deleting '' @ Itoa (int (length keys)) @ '' cache keys'') err), r)
           | (None, r) \<Rightarrow> (None, r))"

text \<open>The loop runs until the server returns the cursor 0; \<open>None\<close> is a loop still running.\<close>

fun scan_loop :: "nat \<Rightarrow> 'r redis_cache \<Rightarrow> string \<Rightarrow> cursor \<Rightarrow> 'r \<Rightarrow> (go_error option \<times> 'r) option" where
  "scan_loop 0 c pre cursor r = None"
| "scan_loop (Suc fuel) c pre cursor r =
     (case rc_Scan (ca_client c) cursor (pre @ ''*'') scanBatchSize r of
        (Inl err, r) \<Rightarrow> Some (Some (Errorf (''scanning the cache prefix '' @ quote pre) err), r)
      | (Inr (keys, next), r) \<Rightarrow>
          (case (if length keys > 0 then Delete c keys r else (None, r)) of
             (Some err, r) \<Rightarrow> Some (Some err, r)
           | (None, r) \<Rightarrow> if next = 0 then Some (None, r) else scan_loop fuel c pre next r))"

definition DeleteByPrefix :: "nat \<Rightarrow> 'r redis_cache \<Rightarrow> string \<Rightarrow> 'r \<Rightarrow> (go_error option \<times> 'r) option" where
  "DeleteByPrefix fuel c pre r =
     (if pre = '''' then Some (Some ErrEmptyPrefix, r) else scan_loop fuel c pre 0 r)"

definition cache_Ping :: "'r redis_cache \<Rightarrow> 'r \<Rightarrow> go_error option \<times> 'r" where
  "cache_Ping c r =
     (case rc_Ping (ca_client c) r of
        (Some err, r) \<Rightarrow> (Some (Errorf ''pinging Redis'' err), r)
      | (None, r) \<Rightarrow> (None, r))"

definition cache_Close :: "'r redis_cache \<Rightarrow> 'r \<Rightarrow> go_error option \<times> 'r" where
  "cache_Close c r =
     (case rc_Close (ca_client c) r of
        (Some err, r) \<Rightarrow> (Some (Errorf ''closing the Redis connection'' err), r)
      | (None, r) \<Rightarrow> (None, r))"

text \<open>The probe in a state of the server, with \<open>took\<close> the time the ping takes.\<close>

definition cache_HealthCheck :: "'r redis_cache \<Rightarrow> duration \<Rightarrow> 'r \<Rightarrow> check" where
  "cache_HealthCheck c took r =
     \<lparr>ck_Name = CheckName, ck_Probe = \<lambda>timeout. (fst (cache_Ping c r), took), ck_Critical = False\<rparr>"

section \<open>What Redis documents\<close>

record 'r redis_view =
  rv_data :: "'r \<Rightarrow> string \<Rightarrow> (bytes \<times> timestamp option) option"
  rv_clock :: "'r \<Rightarrow> timestamp"
  rv_left :: "cursor \<Rightarrow> string set" \<comment> \<open>the part of the keyspace a scan at this cursor has not visited\<close>
  rv_rank :: "cursor \<Rightarrow> nat" \<comment> \<open>how many calls a scan at this cursor still takes at most\<close>
  rv_match :: "string \<Rightarrow> string \<Rightarrow> bool" \<comment> \<open>glob pattern, key\<close>

definition live :: "'r redis_view \<Rightarrow> 'r \<Rightarrow> string \<Rightarrow> bytes option" where
  "live V r k = (case rv_data V r k of
       None \<Rightarrow> None
     | Some (v, None) \<Rightarrow> Some v
     | Some (v, Some t) \<Rightarrow> if rv_clock V r < t then Some v else None)"

text \<open>\<open>GET\<close> answers the live value and leaves the data alone.\<close>

definition get_law :: "'r redis_client \<Rightarrow> 'r redis_view \<Rightarrow> bool" where
  "get_law cl V \<longleftrightarrow> (\<forall>k r res r'. rc_Get cl k r = (res, r') \<longrightarrow>
     rv_data V r' = rv_data V r \<and> rv_clock V r' = rv_clock V r
     \<and> (case res of Inr v \<Rightarrow> live V r k = Some v | Inl e \<Rightarrow> errors_Is e redis_Nil \<longrightarrow> live V r k = None))"

text \<open>
  \<open>SET\<close> with a positive expiry (whole milliseconds) stores the value until then. The keys
  named to \<open>DEL\<close> are gone after it succeeded; a failed command changed nothing, or was
  carried out.
\<close>

definition set_law :: "'r redis_client \<Rightarrow> 'r redis_view \<Rightarrow> bool" where
  "set_law cl V \<longleftrightarrow> (\<forall>k v ttl r r'. rc_Set cl k v ttl r = (None, r') \<and> ttl > 0 \<and> ttl mod Millisecond = 0 \<longrightarrow>
     rv_data V r' = (rv_data V r)(k \<mapsto> (v, Some (rv_clock V r + ttl))) \<and> rv_clock V r' = rv_clock V r)"

definition del_law :: "'r redis_client \<Rightarrow> 'r redis_view \<Rightarrow> bool" where
  "del_law cl V \<longleftrightarrow> (\<forall>ks r err r'. rc_Del cl ks r = (err, r') \<longrightarrow>
     rv_data V r' = (rv_data V r) |` (- set ks) \<or> (err \<noteq> None \<and> rv_data V r' = rv_data V r))"

text \<open>
  \<open>SCAN\<close> changes nothing, returns keys of the pattern only, and a full iteration (from
  the cursor 0 until the cursor 0 is returned) visits the whole keyspace: what a cursor had not
  visited was either returned or is left to the next cursor.
\<close>

definition scan_law :: "'r redis_client \<Rightarrow> 'r redis_view \<Rightarrow> bool" where
  "scan_law cl V \<longleftrightarrow> rv_left V 0 = UNIV \<and>
     (\<forall>cur pat n r res r'. rc_Scan cl cur pat n r = (res, r') \<longrightarrow>
        rv_data V r' = rv_data V r
        \<and> (case res of Inl e \<Rightarrow> True
           | Inr (ks, nxt) \<Rightarrow>
               (\<forall>k\<in>set ks. rv_match V pat k)
               \<and> (\<forall>k. rv_match V pat k \<and> rv_data V r k \<noteq> None \<and> k \<in> rv_left V cur
                     \<longrightarrow> k \<in> set ks \<or> (nxt \<noteq> 0 \<and> k \<in> rv_left V nxt))
               \<and> (nxt \<noteq> 0 \<longrightarrow> rv_rank V nxt < rv_rank V cur)))"

text \<open>
  \<open>MATCH\<close> takes a glob: a star matches any sequence, and a character that is not one of the
  special ones matches itself. So a text without them followed by a star matches the keys that
  start with it; of other patterns nothing is assumed.
\<close>

definition glob_special :: "char \<Rightarrow> bool" where
  "glob_special ch \<longleftrightarrow> ch \<in> {CHR ''*'', CHR ''?'', CHR ''['', CHR '']'', CHR 0x5C}"

definition glob_law :: "'r redis_view \<Rightarrow> bool" where
  "glob_law V \<longleftrightarrow> (\<forall>pre k. list_all (\<lambda>ch. \<not> glob_special ch) pre \<longrightarrow> rv_match V (pre @ ''*'') k = HasPrefix k pre)"

definition redis_laws :: "'r redis_client \<Rightarrow> 'r redis_view \<Rightarrow> bool" where
  "redis_laws cl V \<longleftrightarrow> get_law cl V \<and> set_law cl V \<and> del_law cl V \<and> scan_law cl V \<and> glob_law V"

section \<open>Lemmas on keys\<close>

lemma char_of_digit: "n < 10 \<Longrightarrow> (of_char (char_of (48 + n) :: char) :: nat) = 48 + n"
  by (simp add: of_char_of)

definition digit_val :: "char \<Rightarrow> nat" where
  "digit_val c = of_char c - 48"

text \<open>Reading decimal digits back, the inverse of \<^const>\<open>digits10\<close>.\<close>

definition read10 :: "string \<Rightarrow> nat" where
  "read10 s = foldl (\<lambda>n c. 10 * n + digit_val c) 0 s"

lemma read10_digits10: "read10 (digits10 n) = n"
proof (induction n rule: digits10.induct)
  case (1 n)
  show ?case
  proof (cases "n < 10")
    case True then show ?thesis by (subst digits10.simps) (simp add: read10_def digit_val_def char_of_digit)
  next
    case False
    then have "read10 (digits10 (n div 10)) = n div 10" by (rule "1")
    moreover have "digit_val (char_of (48 + n mod 10)) = n mod 10"
      by (simp add: digit_val_def char_of_digit)
    ultimately show ?thesis using False by (subst digits10.simps) (simp add: read10_def)
  qed
qed

lemma digits10_chars: "c \<in> set (digits10 n) \<Longrightarrow> 48 \<le> (of_char c :: nat) \<and> (of_char c :: nat) < 58"
proof (induction n rule: digits10.induct)
  case (1 n)
  then show ?case using mod_less_divisor [of 10 n]
    by (subst (asm) digits10.simps) (auto simp: char_of_digit split: if_splits)
qed

lemma Itoa_inj: "Itoa m = Itoa n \<Longrightarrow> m = n"
proof -
  have minus: "CHR ''-'' \<notin> set (digits10 k)" for k using digits10_chars [of "CHR ''-''" k] by auto
  have cons: "digits10 k \<noteq> CHR ''-'' # s" for k s using minus [of k] by (metis list.set_intros(1))
  have inj: "digits10 a = digits10 b \<Longrightarrow> a = b" for a b by (metis read10_digits10)
  show "Itoa m = Itoa n \<Longrightarrow> m = n"
    by (auto simp: Itoa_def cons cons [symmetric] dest!: inj split: if_splits) 
qed

lemma Itoa_no_colon: "CHR '':'' \<notin> set (Itoa n)"
  using digits10_chars [of "CHR '':''"] by (auto simp: Itoa_def)

lemma append_sep_cancel:
  "c \<notin> set s \<Longrightarrow> c \<notin> set t \<Longrightarrow> s @ c # xs = t @ c # ys \<longleftrightarrow> s = t \<and> xs = ys"
proof (induction s arbitrary: t)
  case Nil then show ?case by (cases t) auto
next
  case (Cons a s) then show ?case by (cases t) auto
qed

lemma append_sep_neq: "c \<notin> set s \<Longrightarrow> s \<noteq> t @ c # ys"
  by auto

lemma Join_inj:
  assumes "\<forall>s\<in>set xs. CHR '':'' \<notin> set s" "\<forall>s\<in>set ys. CHR '':'' \<notin> set s" "xs \<noteq> []" "ys \<noteq> []"
  shows "Join xs '':'' = Join ys '':'' \<longleftrightarrow> xs = ys"
  using assms
proof (induction xs arbitrary: ys)
  case (Cons x xs)
  then obtain y ys' where ys: "ys = y # ys'" by (cases ys) auto
  show ?case using Cons.prems Cons.IH [of ys'] unfolding ys
    by (cases "xs = []"; cases "ys' = []") (auto simp: Join_Cons append_sep_cancel)
qed simp

lemma Key_extend: "Key n (xs @ ys) = (if ys = [] then Key n xs else Prefix n xs @ Join ys Separator)"
proof -
  have "Join (s # xs @ ys) sep = (if ys = [] then Join (s # xs) sep else Join (s # xs) sep @ sep @ Join ys sep)" for s sep
    by (induction xs arbitrary: s) (auto simp: Join_Cons)
  then show ?thesis by (simp add: Key_def Prefix_def)
qed

section \<open>Lemmas on the cache\<close>

lemma Get_dead:
  assumes "get_law (ca_client c) V" "live V r k = None"
  shows "fst (Get unmarshal c k r) = Inl cache_ErrNotFound
    \<or> (\<exists>e. fst (Get unmarshal c k r) = Inl (Errorf (''reading the cache key '' @ quote k) e))"
proof -
  obtain res r1 where g: "rc_Get (ca_client c) k r = (res, r1)" by (cases "rc_Get (ca_client c) k r")
  with assms show ?thesis by (cases res) (fastforce simp: get_law_def Get_def)+
qed

lemma Get_live:
  assumes "get_law (ca_client c) V" "live V r k = Some raw" "unmarshal raw = Inr v"
  shows "fst (Get unmarshal c k r) = Inr v \<or> (\<exists>e. fst (Get unmarshal c k r) = Inl (Errorf (''reading the cache key '' @ quote k) e))"
proof -
  obtain res r1 where g: "rc_Get (ca_client c) k r = (res, r1)" by (cases "rc_Get (ca_client c) k r")
  with assms show ?thesis by (cases res) (fastforce simp: get_law_def Get_def)+
qed

lemma Set_stores:
  assumes "set_law (ca_client c) V" "Set marsh c k v ttl r = (None, r')"
    and "t = (if ttl = 0 then ca_defaultTTL c else ttl)" "0 < t" "t mod Millisecond = 0"
  shows "\<exists>raw. marsh v = Inr raw \<and> rv_data V r' = (rv_data V r)(k \<mapsto> (raw, Some (rv_clock V r + t)))"
proof -
  obtain raw where "marsh v = Inr raw" "rc_Set (ca_client c) k raw t r = (None, r')"
    using assms(2,3) by (auto simp: Set_def Let_def split: prod.splits sum.splits option.splits)
  then show ?thesis using assms(1,4,5) by (auto simp: set_law_def)
qed

lemma Delete_ok:
  assumes "del_law (ca_client c) V" "Delete c ks r = (None, r')"
  shows "rv_data V r' = (rv_data V r) |` (- set ks)"
proof (cases "ks = []")
  case True then show ?thesis using assms(2) by (auto simp: Delete_def restrict_map_def)
next
  case False
  then have "rc_Del (ca_client c) ks r = (None, r')"
    using assms(2) by (auto simp: Delete_def split: prod.splits option.splits)
  then show ?thesis using assms(1) by (fastforce simp: del_law_def)
qed

lemma Delete_scope:
  assumes "del_law (ca_client c) V" "Delete c ks r = (err, r')" "k \<notin> set ks"
  shows "rv_data V r' k = rv_data V r k"
proof (cases "ks = []")
  case True then show ?thesis using assms(2) by (auto simp: Delete_def)
next
  case False
  then obtain err' where "rc_Del (ca_client c) ks r = (err', r')"
    using assms(2) by (auto simp: Delete_def split: prod.splits option.splits)
  then show ?thesis using assms(1,3) unfolding del_law_def by (metis ComplI restrict_map_def)
qed

text \<open>One page: what it deletes, and what is left for the pages to come.\<close>

lemma scan_page:
  assumes "del_law (ca_client c) V" "scan_law (ca_client c) V"
    and "rc_Scan (ca_client c) cur (pre @ ''*'') scanBatchSize r = (Inr (ks, nxt), r1)" "Delete c ks r1 = (err, r2)"
  shows "\<not> rv_match V (pre @ ''*'') k \<Longrightarrow> rv_data V r2 k = rv_data V r k"
    and "err = None \<Longrightarrow> rv_match V (pre @ ''*'') k \<Longrightarrow> rv_data V r2 k \<noteq> None \<Longrightarrow>
      rv_data V r k \<noteq> None \<and> (k \<in> rv_left V cur \<longrightarrow> nxt \<noteq> 0 \<and> k \<in> rv_left V nxt)"
    and "nxt \<noteq> 0 \<Longrightarrow> rv_rank V nxt < rv_rank V cur"
proof -
  let ?m = "rv_match V (pre @ ''*'')"
  have same: "rv_data V r1 = rv_data V r" using assms(2,3) by (auto simp: scan_law_def)
  have page: "\<forall>k\<in>set ks. ?m k" and found: "\<forall>k. ?m k \<and> rv_data V r k \<noteq> None \<and> k \<in> rv_left V cur \<longrightarrow> k \<in> set ks \<or> (nxt \<noteq> 0 \<and> k \<in> rv_left V nxt)"
    and rank: "nxt \<noteq> 0 \<longrightarrow> rv_rank V nxt < rv_rank V cur"
    using assms(2,3) by (fastforce simp: scan_law_def)+
  show "nxt \<noteq> 0 \<Longrightarrow> rv_rank V nxt < rv_rank V cur" using rank by simp
  show "\<not> ?m k \<Longrightarrow> rv_data V r2 k = rv_data V r k"
    using Delete_scope [OF assms(1,4)] page same by auto
  have "rv_data V r2 = (rv_data V r) |` (- set ks)" if "err = None"
    using Delete_ok [OF assms(1)] assms(4) that same by simp
  then show "err = None \<Longrightarrow> ?m k \<Longrightarrow> rv_data V r2 k \<noteq> None \<Longrightarrow>
      rv_data V r k \<noteq> None \<and> (k \<in> rv_left V cur \<longrightarrow> nxt \<noteq> 0 \<and> k \<in> rv_left V nxt)"
    using found by (auto simp: restrict_map_def split: if_splits)
qed

lemma scan_loop_clears:
  assumes "del_law (ca_client c) V" "scan_law (ca_client c) V" "rv_rank V cur < fuel"
    and "\<forall>k. rv_match V (pre @ ''*'') k \<and> rv_data V r k \<noteq> None \<longrightarrow> k \<in> rv_left V cur"
  shows "\<exists>err r'. scan_loop fuel c pre cur r = Some (err, r')
    \<and> (\<forall>k. \<not> rv_match V (pre @ ''*'') k \<longrightarrow> rv_data V r' k = rv_data V r k)
    \<and> (err = None \<longrightarrow> (\<forall>k. rv_match V (pre @ ''*'') k \<longrightarrow> rv_data V r' k = None))"
  using assms(3,4)
proof (induction fuel arbitrary: cur r)
  case (Suc fuel)
  let ?m = "rv_match V (pre @ ''*'')"
  obtain res r1 where scan: "rc_Scan (ca_client c) cur (pre @ ''*'') scanBatchSize r = (res, r1)"
    by (cases "rc_Scan (ca_client c) cur (pre @ ''*'') scanBatchSize r")
  show ?case
  proof (cases res)
    case (Inl e)
    then show ?thesis using scan assms(2) by (auto simp: scan_law_def)
  next
    case (Inr page)
    obtain ks nxt where page: "page = (ks, nxt)" by (cases page)
    obtain err r2 where del: "Delete c ks r1 = (err, r2)" by (cases "Delete c ks r1")
    have guard: "(if length ks > 0 then Delete c ks r1 else (None, r1)) = (err, r2)"
      using del by (auto simp: Delete_def)
    note pg = scan_page [OF assms(1,2) scan [unfolded Inr page] del]
    show ?thesis
    proof (cases "err = None \<and> nxt \<noteq> 0")
      case False
      have "rv_data V r2 k = None" if "err = None" "?m k" for k
        using pg(2) [of k] Suc.prems(2) False that by blast
      then show ?thesis using scan Inr page guard pg(1) False by (auto split: option.split)
    next
      case True
      then have "\<forall>k. ?m k \<and> rv_data V r2 k \<noteq> None \<longrightarrow> k \<in> rv_left V nxt" using pg(2) Suc.prems(2) by blast
      then obtain err' r' where "scan_loop fuel c pre nxt r2 = Some (err', r')"
        "\<forall>k. \<not> ?m k \<longrightarrow> rv_data V r' k = rv_data V r2 k" "err' = None \<longrightarrow> (\<forall>k. ?m k \<longrightarrow> rv_data V r' k = None)"
        using Suc.IH [of nxt r2] pg(3) True Suc.prems(1) by auto
      then show ?thesis using scan Inr page guard pg(1) True by simp
    qed
  qed
qed simp

section \<open>Properties\<close>

text \<open>
  C14. Two services, entities, identifiers or versions never share a cache key: with segments
  that hold no separator, \<open>Versioned\<close> is injective, and the key of an entry lies under the
  prefix of an entity exactly if it is of that service and entity.
\<close>

theorem versioned_keys_distinct:
  assumes "\<forall>s\<in>{ns_service n, entity, ident, ns_service n', entity', ident'}. CHR '':'' \<notin> set s"
  shows "(Versioned n entity ident version = Versioned n' entity' ident' version'
          \<longleftrightarrow> n = n' \<and> entity = entity' \<and> ident = ident' \<and> version = version')
     \<and> (HasPrefix (Versioned n entity ident version) (Prefix n' [entity']) \<longleftrightarrow> n = n' \<and> entity = entity')"
proof -
  have v: "\<forall>s\<in>set [ns_service n, entity, ident, ''v'' @ Itoa version]. CHR '':'' \<notin> set s"
    "\<forall>s\<in>set [ns_service n', entity', ident', ''v'' @ Itoa version']. CHR '':'' \<notin> set s"
    using assms by (auto simp: Itoa_no_colon)
  have "Versioned n entity ident version = Versioned n' entity' ident' version'
    \<longleftrightarrow> [ns_service n, entity, ident, ''v'' @ Itoa version] = [ns_service n', entity', ident', ''v'' @ Itoa version']"
    unfolding Versioned_def Key_def Separator_def by (rule Join_inj [OF v]) simp_all
  moreover have "prefix (Prefix n' [entity']) (Versioned n entity ident version) \<longleftrightarrow> n = n' \<and> entity = entity'"
    using v by (auto simp: prefix_def Prefix_def Versioned_def Key_def Separator_def append_sep_cancel)
  ultimately show ?thesis by (auto simp: HasPrefix_prefix dest: Itoa_inj)
qed

theorem versioned_keys_distinct_witness:
  "Versioned (NewNamespace ''tours'') ''item'' ''1'' 1 \<noteq> Versioned (NewNamespace ''booking'') ''item'' ''1'' 1
   \<and> \<not> HasPrefix (Versioned (NewNamespace ''tours'') ''tour12'' ''1'' 1) (Prefix (NewNamespace ''tours'') [''tour''])"
  using versioned_keys_distinct [of "NewNamespace ''tours''" "''item''" "''1''" "NewNamespace ''booking''" "''item''" "''1''" 1 1]
    versioned_keys_distinct [of "NewNamespace ''tours''" "''tour12''" "''1''" "NewNamespace ''tours''" "''tour''" "''1''" 1 1]
  by (simp add: NewNamespace_def)

text \<open>
  C35. What was cached is read back until it expires. After a successful \<open>Set\<close> with a ttl that
  is a positive number of whole milliseconds, or zero, which stands for the default TTL (and not
  for an entry without expiry), and while the entry is not written again: a \<open>Get\<close> before the
  lifetime has passed returns the value, and one after it the not-found error; in both cases the
  alternative is the error of a read that Redis did not answer.
\<close>

theorem cached_until_expiry:
  assumes "redis_laws (ca_client c) V" "Set marsh c k v ttl r = (None, r1)"
    and "t = (if ttl = 0 then ca_defaultTTL c else ttl)" "0 < t" "t mod Millisecond = 0"
    and "\<And>raw. marsh v = Inr raw \<Longrightarrow> unmarshal raw = Inr v"
    and "rv_data V r2 k = rv_data V r1 k"
  shows "fst (Get unmarshal c k r2) = (if rv_clock V r2 < rv_clock V r + t then Inr v else Inl cache_ErrNotFound)
    \<or> (\<exists>e. fst (Get unmarshal c k r2) = Inl (Errorf (''reading the cache key '' @ quote k) e))"
proof -
  have laws: "get_law (ca_client c) V" "set_law (ca_client c) V" using assms(1) by (simp_all add: redis_laws_def)
  obtain raw where raw: "marsh v = Inr raw" "rv_data V r1 = (rv_data V r)(k \<mapsto> (raw, Some (rv_clock V r + t)))"
    using Set_stores [OF laws(2) assms(2-5)] by auto
  then have live: "live V r2 k = (if rv_clock V r2 < rv_clock V r + t then Some raw else None)"
    using assms(7) by (simp add: live_def)
  show ?thesis
    using live Get_dead [where unmarshal = unmarshal, OF laws(1), of r2 k]
      Get_live [where unmarshal = unmarshal, OF laws(1) _ assms(6) [OF raw(1)], of r2 k] by auto
qed

text \<open>
  C36. Invalidating a group: for a non-empty prefix in which no character is special in a glob
  (star, question mark, brackets, backslash), once the scan is given as many round trips as the
  server needs, \<open>DeleteByPrefix\<close> returns; if it returns no error no key under the prefix is
  left, and in any case no other key is touched.
\<close>

theorem prefix_invalidated:
  assumes "redis_laws (ca_client c) V" "pre \<noteq> ''''" "rv_rank V 0 < fuel"
    and "list_all (\<lambda>ch. \<not> glob_special ch) pre"
  shows "\<exists>err r'. DeleteByPrefix fuel c pre r = Some (err, r')
    \<and> (\<forall>k. \<not> HasPrefix k pre \<longrightarrow> rv_data V r' k = rv_data V r k)
    \<and> (err = None \<longrightarrow> (\<forall>k. HasPrefix k pre \<longrightarrow> rv_data V r' k = None))"
proof -
  have "scan_law (ca_client c) V" "del_law (ca_client c) V" "\<And>k. rv_match V (pre @ ''*'') k = HasPrefix k pre"
    using assms(1,4) by (simp_all add: redis_laws_def glob_law_def)
  then show ?thesis
    using scan_loop_clears [of c V 0 fuel pre r] assms by (auto simp: DeleteByPrefix_def scan_law_def)
qed

section \<open>A Redis in memory, and the properties at work on it\<close>

record mem_redis =
  mr_data :: "(string \<times> bytes \<times> timestamp option) list"
  mr_clock :: timestamp

definition mem_live :: "mem_redis \<Rightarrow> string \<Rightarrow> bytes option" where
  "mem_live r k = (case map_of (mr_data r) k of
       None \<Rightarrow> None | Some (v, None) \<Rightarrow> Some v
     | Some (v, Some t) \<Rightarrow> if mr_clock r < t then Some v else None)"

text \<open>The scan takes two calls: the keys of fewer than ten bytes, then the others.\<close>

definition mem_client :: "mem_redis redis_client" where
  "mem_client = \<lparr>
     rc_Get = \<lambda>k r. (case mem_live r k of None \<Rightarrow> Inl redis_Nil | Some v \<Rightarrow> Inr v, r),
     rc_Set = \<lambda>k v ttl r. (None, r\<lparr>mr_data := AList.update k (v, if ttl > 0 then Some (mr_clock r + ttl) else None) (mr_data r)\<rparr>),
     rc_Del = \<lambda>ks r. (None, r\<lparr>mr_data := filter (\<lambda>e. fst e \<notin> set ks) (mr_data r)\<rparr>),
     rc_Scan = \<lambda>cur pat n r. (let ks = filter (\<lambda>k. HasPrefix k (butlast pat)) (map fst (mr_data r)) in
        Inr (if cur = 0 then (filter (\<lambda>k. length k < 10) ks, 1) else (filter (\<lambda>k. length k \<ge> 10) ks, 0)), r),
     rc_Ping = \<lambda>r. (None, r), rc_Close = \<lambda>r. (None, r)\<rparr>"

definition mem_view :: "mem_redis redis_view" where
  "mem_view = \<lparr>rv_data = \<lambda>r. map_of (mr_data r), rv_clock = mr_clock,
     rv_left = \<lambda>cur. if cur = 0 then UNIV else {k. length k \<ge> 10}, rv_rank = \<lambda>cur. if cur = 0 then 1 else 0,
     rv_match = \<lambda>pat k. HasPrefix k (butlast pat)\<rparr>"

lemma map_of_filter_keys: "map_of (filter (\<lambda>e. fst e \<notin> S) xs) = (map_of xs) |` (- S)"
  by (induction xs) (auto simp: restrict_map_def fun_eq_iff)

lemma mem_live_eq: "mem_live r k = live mem_view r k"
  by (auto simp: mem_live_def live_def mem_view_def split: option.split)

lemma mem_redis_laws: "redis_laws mem_client mem_view"
proof -
  have "get_law mem_client mem_view"
    by (auto simp: get_law_def mem_client_def mem_live_eq split: option.split)
  moreover have "set_law mem_client mem_view"
    by (auto simp: set_law_def mem_client_def mem_view_def update_conv')
  moreover have "del_law mem_client mem_view"
    by (auto simp: del_law_def mem_client_def mem_view_def map_of_filter_keys)
  moreover have "scan_law mem_client mem_view"
    by (auto simp: scan_law_def mem_client_def mem_view_def Let_def map_of_eq_None_iff not_less split: if_splits)
  moreover have "glob_law mem_view"
    by (simp add: glob_law_def mem_view_def)
  ultimately show ?thesis by (simp add: redis_laws_def)
qed

definition demo_cache :: "mem_redis redis_cache" where
  "demo_cache = NewRedisWithClient mem_client
     \<lparr>cc_URL = ''redis://localhost:6379/0'', cc_Namespace = '''', cc_DefaultTTL = 0, cc_DialTimeout = 5 * Second,
      cc_ReadTimeout = 3 * Second, cc_PoolSize = 10\<rparr> ''tours''"

theorem cached_until_expiry_witness:
  "fst (Get Inr demo_cache ''k'' (\<lparr>mr_data = [(''k'', ''v'', Some (5 * Minute))], mr_clock = 5 * Minute - 1\<rparr>)) = Inr ''v''"
proof -
  let ?r = "\<lparr>mr_data = [], mr_clock = 0\<rparr>"
  let ?r1 = "\<lparr>mr_data = [(''k'', ''v'', Some (5 * Minute))], mr_clock = 0\<rparr>"
  let ?r2 = "\<lparr>mr_data = [(''k'', ''v'', Some (5 * Minute))], mr_clock = 5 * Minute - 1\<rparr>"
  have client: "ca_client demo_cache = mem_client" "ca_defaultTTL demo_cache = 5 * Minute"
    by (simp_all add: demo_cache_def NewRedisWithClient_def Let_def)
  have set: "Set Inr demo_cache ''k'' ''v'' 0 ?r = (None, ?r1)"
    by (simp add: Set_def client mem_client_def)
  have "fst (Get Inr demo_cache ''k'' ?r2) = Inr ''v''
    \<or> (\<exists>e. fst (Get Inr demo_cache ''k'' ?r2) = Inl (Errorf (''reading the cache key '' @ quote ''k'') e))"
    using cached_until_expiry [where unmarshal = Inr and ?r2.0 = ?r2 and V = mem_view and t = "5 * Minute",
        OF _ set] client mem_redis_laws by (simp add: mem_view_def)
  moreover have "rc_Get mem_client ''k'' ?r2 = (Inr ''v'', ?r2)" by (simp add: mem_client_def mem_live_def)
  ultimately show ?thesis by (simp add: Get_def client)
qed

theorem prefix_invalidated_witness:
  "\<exists>r'. DeleteByPrefix 2 demo_cache ''tours:'' \<lparr>mr_data = [(''tours:t1'', ''a'', None), (''tours:t1:title'', ''b'', None), (''booking:b1'', ''c'', None)], mr_clock = 0\<rparr>
          = Some (None, r') \<and> rv_data mem_view r' ''tours:t1:title'' = None \<and> rv_data mem_view r' ''booking:b1'' = Some (''c'', None)"
proof -
  let ?r = "\<lparr>mr_data = [(''tours:t1'', ''a'', None), (''tours:t1:title'', ''b'', None), (''booking:b1'', ''c'', None)], mr_clock = 0\<rparr>"
  have client: "ca_client demo_cache = mem_client" by (simp add: demo_cache_def NewRedisWithClient_def Let_def)
  have run: "map_option fst (DeleteByPrefix 2 demo_cache ''tours:'' ?r) = Some None" by code_simp
  obtain err r' where "DeleteByPrefix 2 demo_cache ''tours:'' ?r = Some (err, r')"
    "\<forall>k. \<not> HasPrefix k ''tours:'' \<longrightarrow> rv_data mem_view r' k = rv_data mem_view ?r k"
    "err = None \<longrightarrow> (\<forall>k. HasPrefix k ''tours:'' \<longrightarrow> rv_data mem_view r' k = None)"
    using prefix_invalidated [of demo_cache mem_view "''tours:''" 2 ?r] mem_redis_laws client
    by (auto simp: mem_view_def glob_special_def)
  with run show ?thesis by (auto simp: HasPrefix_def mem_view_def)
qed

text \<open>
  An entry that cannot be decoded is a miss for the caller, and it is removed so that the next
  write starts from nothing.
\<close>

lemma poisoned_entry_dropped:
  assumes "redis_laws (ca_client c) V" "rc_Get (ca_client c) k r = (Inr raw, r1)" "unmarshal raw = Inl e"
    and "rc_Del (ca_client c) [k] r1 = (None, r2)"
  shows "Get unmarshal c k r = (Inl cache_ErrNotFound, r2) \<and> live V r2 k = None"
proof -
  have "rv_data V r2 = (rv_data V r1) |` (- set [k])"
    using assms(1,4) by (fastforce simp: redis_laws_def del_law_def)
  then show ?thesis using assms(2-4) by (simp add: Get_def live_def)
qed

text \<open>A cache that does not answer is reported and never takes the service out of rotation.\<close>

lemma cache_never_unready:
  assumes "set order = {..<length (rg_checks g)}" "set order' = {..length (rg_checks g)}"
  shows "Ready (Check order' (Register (cache_HealthCheck c took r) g)) = Ready (Check order g)"
proof -
  have "set order' = {..<length (rg_checks g @ [cache_HealthCheck c took r])}" using assms(2) by auto
  then show ?thesis
    by (simp add: Ready_def Check_def Register_def Let_def overall_Up run_all_checks_map [OF assms(1)] run_all_checks_map ball_Un)
      (simp add: cache_HealthCheck_def)
qed

end
