(* ===== verification/Jwt.thy ===== *)
theory Jwt
  imports Go_Prelude
begin

text \<open>
  \<open>pkg/jwt\<close>: the key set with its active key, issuing and verifying access tokens, the
  published JWKS, and loading the keys from PEM configuration (with the escaping of
  \<open>cmd/keygen\<close>).

  The cryptography, the PEM and X.509 codecs and the golang-jwt parser are parameters
  (\<open>codec\<close>, \<open>jwt_lib\<close>); \<open>codec_doc\<close> and \<open>jwt_lib_doc\<close> are the documented
  behaviour the theorems rely on. A signed token is a value of an arbitrary type \<open>'tok\<close>.
\<close>

section \<open>Keys\<close>

definition ErrNoSigningKey :: go_error where "ErrNoSigningKey = Sentinel ''jwt: no active signing key''"
definition ErrUnknownKey :: go_error where "ErrUnknownKey = Sentinel ''jwt: unknown kid''"
definition ErrInvalidKey :: go_error where "ErrInvalidKey = Sentinel ''jwt: invalid key''"

record key =
  key_ID :: string
  key_Public :: bytes
  key_Private :: bytes

definition CanSign :: "key \<Rightarrow> bool" where
  "CanSign k = (key_Private k \<noteq> [])"

text \<open>A parsed key: an Ed25519 one by its bytes, or one of another type, by the type's name.\<close>

datatype parsed_key = Ed25519Key bytes | OtherKey string

record 'b codec =
  cd_KeyID :: "bytes \<Rightarrow> string" \<comment> \<open>base64url of the first 8 bytes of the SHA-256\<close>
  cd_PublicOf :: "bytes \<Rightarrow> bytes" \<comment> \<open>the public half of a private key\<close>
  cd_Decode :: "bytes \<Rightarrow> ('b \<times> bytes) option" \<comment> \<open>pem.Decode: the block and the rest\<close>
  cd_Encode :: "'b \<Rightarrow> bytes" \<comment> \<open>pem.EncodeToMemory\<close>
  cd_PKCS8 :: "'b \<Rightarrow> go_error + parsed_key"
  cd_PKIX :: "'b \<Rightarrow> go_error + parsed_key"
  cd_MarshalPKCS8 :: "bytes \<Rightarrow> go_error + 'b"
  cd_MarshalPKIX :: "bytes \<Rightarrow> go_error + 'b"
  cd_Base64 :: "bytes \<Rightarrow> string"

definition PublicKeySize :: nat where "PublicKeySize = 32"

record key_set =
  ks_keys :: "(string \<times> key) list" \<comment> \<open>map[string]Key\<close>
  ks_activeKID :: string

definition NewKeySet :: key_set where
  "NewKeySet = \<lparr>ks_keys = [], ks_activeKID = ''''\<rparr>"

definition Add :: "'b codec \<Rightarrow> key \<Rightarrow> key_set \<Rightarrow> go_error option \<times> key_set" where
  "Add cd key0 s =
     (if length (key_Public key0) \<noteq> PublicKeySize
      then (Some (Wrapped (err_text ErrInvalidKey @ '': the public key of '' @ quote (key_ID key0) @ '' is not Ed25519'')
              [ErrInvalidKey]), s)
      else (let key = (if key_ID key0 = '''' then key0\<lparr>key_ID := cd_KeyID cd (key_Public key0)\<rparr> else key0);
                s = s\<lparr>ks_keys := AList.update (key_ID key) key (ks_keys s)\<rparr>
            in (None, if ks_activeKID s = '''' \<and> CanSign key then s\<lparr>ks_activeKID := key_ID key\<rparr> else s)))"

definition SetActive :: "string \<Rightarrow> key_set \<Rightarrow> go_error option \<times> key_set" where
  "SetActive kid s =
     (case map_of (ks_keys s) kid of
        None \<Rightarrow> (Some (Wrapped (err_text ErrUnknownKey @ '': '' @ kid) [ErrUnknownKey]), s)
      | Some key \<Rightarrow>
          if \<not> CanSign key
          then (Some (Wrapped (err_text ErrNoSigningKey @ '': '' @ kid @ '' has no private half'') [ErrNoSigningKey]), s)
          else (None, s\<lparr>ks_activeKID := kid\<rparr>))"

definition zero_key :: key where
  "zero_key = \<lparr>key_ID = '''', key_Public = [], key_Private = []\<rparr>"

definition Active :: "key_set \<Rightarrow> go_error + key" where
  "Active s =
     (if ks_activeKID s = '''' then Inl ErrNoSigningKey
      else Inr (case map_of (ks_keys s) (ks_activeKID s) of None \<Rightarrow> zero_key | Some k \<Rightarrow> k))"

definition Get :: "string \<Rightarrow> key_set \<Rightarrow> go_error + key" where
  "Get kid s =
     (case map_of (ks_keys s) kid of
        None \<Rightarrow> Inl (Wrapped (err_text ErrUnknownKey @ '': '' @ kid) [ErrUnknownKey])
      | Some key \<Rightarrow> Inr key)"

text \<open>Go iterates over a map in no particular order; the order of this list is one of them.\<close>

definition Keys :: "key_set \<Rightarrow> key list" where
  "Keys s = map snd (ks_keys s)"

section \<open>PEM\<close>

text \<open>\<open>strings.ReplaceAll\<close> for a pattern of two characters and one of a single character.\<close>

fun replace_pair :: "char \<Rightarrow> char \<Rightarrow> string \<Rightarrow> string \<Rightarrow> string" where
  "replace_pair a b new (c # d # cs) =
     (if c = a \<and> d = b then new @ replace_pair a b new cs else c # replace_pair a b new (d # cs))"
| "replace_pair a b new cs = cs"

definition replace_char :: "char \<Rightarrow> string \<Rightarrow> string \<Rightarrow> string" where
  "replace_char a new s = concat (map (\<lambda>c. if c = a then new else [c]) s)"

abbreviation backslash :: char where "backslash \<equiv> CHR 0x5C"
abbreviation newline :: char where "newline \<equiv> CHR 0x0A"

definition normalizePEM :: "string \<Rightarrow> bytes" where
  "normalizePEM pem = replace_pair backslash (CHR ''n'') [newline] pem"

definition escape :: "bytes \<Rightarrow> string" where
  "escape pem = replace_char newline [backslash, CHR ''n''] (TrimSpace pem)"

definition ParsePrivateKeyPEM :: "'b codec \<Rightarrow> bytes \<Rightarrow> go_error + key" where
  "ParsePrivateKeyPEM cd data =
     (case cd_Decode cd data of
        None \<Rightarrow> Inl (Wrapped (err_text ErrInvalidKey @ '': the private key is not valid PEM'') [ErrInvalidKey])
      | Some (block, _) \<Rightarrow>
          (case cd_PKCS8 cd block of
             Inl err \<Rightarrow> Inl (Wrapped (err_text ErrInvalidKey @ '': '' @ err_text err) [ErrInvalidKey, err])
           | Inr (OtherKey t) \<Rightarrow>
               Inl (Wrapped (err_text ErrInvalidKey @ '': the key is '' @ t @ '', not Ed25519'') [ErrInvalidKey])
           | Inr (Ed25519Key private) \<Rightarrow>
               (let public = cd_PublicOf cd private in
                Inr \<lparr>key_ID = cd_KeyID cd public, key_Public = public, key_Private = private\<rparr>)))"

definition ParsePublicKeyPEM :: "'b codec \<Rightarrow> bytes \<Rightarrow> go_error + key" where
  "ParsePublicKeyPEM cd data =
     (case cd_Decode cd data of
        None \<Rightarrow> Inl (Wrapped (err_text ErrInvalidKey @ '': the public key is not valid PEM'') [ErrInvalidKey])
      | Some (block, _) \<Rightarrow>
          (case cd_PKIX cd block of
             Inl err \<Rightarrow> Inl (Wrapped (err_text ErrInvalidKey @ '': '' @ err_text err) [ErrInvalidKey, err])
           | Inr (OtherKey t) \<Rightarrow>
               Inl (Wrapped (err_text ErrInvalidKey @ '': the key is '' @ t @ '', not Ed25519'') [ErrInvalidKey])
           | Inr (Ed25519Key public) \<Rightarrow>
               Inr \<lparr>key_ID = cd_KeyID cd public, key_Public = public, key_Private = []\<rparr>))"

definition EncodePrivateKeyPEM :: "'b codec \<Rightarrow> key \<Rightarrow> go_error + bytes" where
  "EncodePrivateKeyPEM cd k =
     (case cd_MarshalPKCS8 cd (key_Private k) of
        Inl err \<Rightarrow> Inl (Errorf ''encoding the private key'' err)
      | Inr block \<Rightarrow> Inr (cd_Encode cd block))"

definition EncodePublicKeyPEM :: "'b codec \<Rightarrow> key \<Rightarrow> go_error + bytes" where
  "EncodePublicKeyPEM cd k =
     (case cd_MarshalPKIX cd (key_Public k) of
        Inl err \<Rightarrow> Inl (Errorf ''encoding the public key'' err)
      | Inr block \<Rightarrow> Inr (cd_Encode cd block))"

definition nextPublicKey :: "'b codec \<Rightarrow> bytes \<Rightarrow> go_error + (key \<times> bytes) option" where
  "nextPublicKey cd data0 =
     (let data = TrimSpace data0 in
      if data = [] then Inr None
      else (case cd_Decode cd data of
              None \<Rightarrow> Inr None
            | Some (block, rest) \<Rightarrow>
                (case ParsePublicKeyPEM cd (cd_Encode cd block) of
                   Inl err \<Rightarrow> Inl err
                 | Inr key \<Rightarrow> Inr (Some (key, rest)))))"

text \<open>
  The loop of \<open>addPublicKeys\<close>, with a bound on its rounds; \<open>None\<close> when the bound is
  reached. A decoded block is not empty, so one round more than the length of the data is enough.
\<close>

fun addPublicKeys :: "nat \<Rightarrow> 'b codec \<Rightarrow> bytes \<Rightarrow> key_set \<Rightarrow> (go_error option \<times> key_set) option" where
  "addPublicKeys 0 cd data s = None"
| "addPublicKeys (Suc n) cd data s =
     (case nextPublicKey cd data of
        Inl err \<Rightarrow> Some (Some err, s)
      | Inr None \<Rightarrow> Some (None, s)
      | Inr (Some (key, remaining)) \<Rightarrow>
          if (case Get (key_ID key) s of Inl _ \<Rightarrow> False | Inr existing \<Rightarrow> CanSign existing)
          then addPublicKeys n cd remaining s
          else (case Add cd key s of
                  (Some err, s') \<Rightarrow> Some (Some err, s')
                | (None, s') \<Rightarrow> addPublicKeys n cd remaining s'))"

record jwt_config =
  jc_Issuer :: string
  jc_Audience :: "string list"
  jc_AccessTokenTTL :: duration
  jc_PrivateKeyPEM :: string
  jc_PublicKeysPEM :: string
  jc_ClockSkew :: duration

definition load_private :: "'b codec \<Rightarrow> jwt_config \<Rightarrow> go_error + key_set" where
  "load_private cd cfg =
     (if jc_PrivateKeyPEM cfg \<noteq> ''''
      then (case ParsePrivateKeyPEM cd (normalizePEM (jc_PrivateKeyPEM cfg)) of
              Inl err \<Rightarrow> Inl err
            | Inr key \<Rightarrow> (case Add cd key NewKeySet of (Some err, _) \<Rightarrow> Inl err | (None, s) \<Rightarrow> Inr s))
      else Inr NewKeySet)"

definition LoadKeySet :: "'b codec \<Rightarrow> jwt_config \<Rightarrow> (go_error + key_set) option" where
  "LoadKeySet cd cfg =
     (case load_private cd cfg of
        Inl err \<Rightarrow> Some (Inl err)
      | Inr s \<Rightarrow>
          if jc_PublicKeysPEM cfg \<noteq> ''''
          then (let data = normalizePEM (jc_PublicKeysPEM cfg) in
                case addPublicKeys (Suc (length data)) cd data s of
                  None \<Rightarrow> None
                | Some (Some err, _) \<Rightarrow> Some (Inl err)
                | Some (None, s') \<Rightarrow>
                    if Keys s' = []
                    then Some (Inl (Wrapped (err_text ErrInvalidKey @ '': the public keys are set but contain no PEM block'')
                           [ErrInvalidKey]))
                    else Some (Inr s'))
          else Some (Inr s))"

section \<open>The published key set\<close>

record jwk =
  jwk_KeyType :: string
  jwk_Curve :: string
  jwk_KeyID :: string
  jwk_Use :: string
  jwk_Algorithm :: string
  jwk_X :: string

definition JWKS :: "'b codec \<Rightarrow> key_set \<Rightarrow> jwk list" where
  "JWKS cd s =
     map (\<lambda>k. \<lparr>jwk_KeyType = ''OKP'', jwk_Curve = ''Ed25519'', jwk_KeyID = key_ID k, jwk_Use = ''sig'',
               jwk_Algorithm = ''EdDSA'', jwk_X = cd_Base64 cd (key_Public k)\<rparr>) (Keys s)"

section \<open>Claims and tokens\<close>

record jwt_claims =
  cl_Subject :: string
  cl_Issuer :: string
  cl_Audience :: "string list"
  cl_ID :: string
  cl_IssuedAt :: "timestamp option"
  cl_NotBefore :: "timestamp option"
  cl_ExpiresAt :: "timestamp option"
  cl_SessionVersion :: int
  cl_SessionID :: string
  cl_Scope :: "string list"

definition HasScope :: "jwt_claims \<Rightarrow> string \<Rightarrow> bool" where
  "HasScope c scope = (scope \<in> set (cl_Scope c))"

record token_request =
  tr_UserID :: string
  tr_SessionID :: string
  tr_SessionVersion :: int
  tr_Scope :: "string list"
  tr_Audience :: "string list"

record jwt_token =
  tk_Alg :: string
  tk_KID :: "string option" \<comment> \<open>the kid header, if it is a string\<close>
  tk_Claims :: jwt_claims

record parse_options =
  po_ValidMethods :: "string list"
  po_Issuer :: string
  po_Leeway :: duration

text \<open>
  \<open>jl_Sign\<close> is \<open>SignedString\<close>; \<open>jl_Parse opts keyfunc now\<close> is
  \<open>ParseWithClaims\<close>; \<open>jl_Signed pub s tok\<close> says that \<open>s\<close> is the token \<open>tok\<close> with a
  signature that the public key \<open>pub\<close> verifies.
\<close>

record 'tok jwt_lib =
  jl_Sign :: "jwt_token \<Rightarrow> bytes \<Rightarrow> go_error + 'tok"
  jl_Parse :: "parse_options \<Rightarrow> (jwt_token \<Rightarrow> go_error + bytes) \<Rightarrow> timestamp \<Rightarrow> 'tok \<Rightarrow> go_error + jwt_token"
  jl_Signed :: "bytes \<Rightarrow> 'tok \<Rightarrow> jwt_token \<Rightarrow> bool"
  jl_Valid :: "jwt_token \<Rightarrow> bool" \<comment> \<open>the field Valid of a parsed token\<close>

abbreviation ErrTokenExpired :: go_error where
  "ErrTokenExpired \<equiv> Sentinel ''token has invalid claims: token is expired''"

definition ErrExpired :: go_error where "ErrExpired = Sentinel ''jwt: the token has expired''"
definition ErrInvalidToken :: go_error where "ErrInvalidToken = Sentinel ''jwt: invalid token''"
definition ErrMissingKID :: go_error where "ErrMissingKID = Sentinel ''jwt: the token carries no kid''"
definition ErrWrongAlgorithm :: go_error where "ErrWrongAlgorithm = Sentinel ''jwt: unexpected signing algorithm''"

definition in_time :: "parse_options \<Rightarrow> timestamp \<Rightarrow> jwt_claims \<Rightarrow> bool" where
  "in_time opts now c \<longleftrightarrow>
     (case cl_ExpiresAt c of None \<Rightarrow> True | Some t \<Rightarrow> now - po_Leeway opts < t)
     \<and> (case cl_NotBefore c of None \<Rightarrow> True | Some t \<Rightarrow> t \<le> now + po_Leeway opts)"

section \<open>Issuing\<close>

definition DefaultAccessTokenTTL :: duration where "DefaultAccessTokenTTL = 15 * Minute"

record issuer =
  is_keys :: key_set
  is_cfg :: jwt_config

definition NewIssuer :: "key_set \<Rightarrow> jwt_config \<Rightarrow> go_error + issuer" where
  "NewIssuer keys cfg =
     (case Active keys of
        Inl err \<Rightarrow> Inl err
      | Inr _ \<Rightarrow> Inr \<lparr>is_keys = keys,
          is_cfg = (if jc_AccessTokenTTL cfg \<le> 0 then cfg\<lparr>jc_AccessTokenTTL := DefaultAccessTokenTTL\<rparr> else cfg)\<rparr>)"

text \<open>\<open>jwt.NewNumericDate\<close>: times are cut to whole seconds.\<close>

definition NumericDate :: "timestamp \<Rightarrow> timestamp" where
  "NumericDate t = t - t mod Second"

lemma NumericDate_idem [simp]: "NumericDate (NumericDate t) = NumericDate t"
  by (simp add: NumericDate_def minus_mod_eq_mult_div)

text \<open>\<open>uuid\<close> and \<open>now\<close> are the fresh identifier and the current time.\<close>

definition Issue ::
  "'tok jwt_lib \<Rightarrow> issuer \<Rightarrow> string \<Rightarrow> timestamp \<Rightarrow> token_request \<Rightarrow> go_error + ('tok \<times> jwt_claims)" where
  "Issue L i uuid now req =
     (case Active (is_keys i) of
        Inl err \<Rightarrow> Inl err
      | Inr key \<Rightarrow>
          (let audience = (if tr_Audience req = [] then jc_Audience (is_cfg i) else tr_Audience req);
               claims = \<lparr>cl_Subject = tr_UserID req, cl_Issuer = jc_Issuer (is_cfg i), cl_Audience = audience, cl_ID = uuid,
                         cl_IssuedAt = Some (NumericDate now), cl_NotBefore = Some (NumericDate now),
                         cl_ExpiresAt = Some (NumericDate (now + jc_AccessTokenTTL (is_cfg i))),
                         cl_SessionVersion = tr_SessionVersion req, cl_SessionID = tr_SessionID req, cl_Scope = tr_Scope req\<rparr>
           in case jl_Sign L \<lparr>tk_Alg = ''EdDSA'', tk_KID = Some (key_ID key), tk_Claims = claims\<rparr> (key_Private key) of
                Inl err \<Rightarrow> Inl (Errorf ''signing the token'' err)
              | Inr token \<Rightarrow> Inr (token, claims)))"

section \<open>Verifying\<close>

record verifier =
  vf_keys :: key_set
  vf_cfg :: jwt_config

definition NewVerifier :: "key_set \<Rightarrow> jwt_config \<Rightarrow> verifier" where
  "NewVerifier keys cfg = \<lparr>vf_keys = keys, vf_cfg = cfg\<rparr>"

definition keyFor :: "verifier \<Rightarrow> jwt_token \<Rightarrow> go_error + bytes" where
  "keyFor v tok =
     (if tk_Alg tok \<noteq> ''EdDSA''
      then Inl (Wrapped (err_text ErrWrongAlgorithm @ '': '' @ tk_Alg tok) [ErrWrongAlgorithm])
      else (case tk_KID tok of
              None \<Rightarrow> Inl ErrMissingKID
            | Some kid \<Rightarrow>
                if kid = '''' then Inl ErrMissingKID
                else (case Get kid (vf_keys v) of Inl err \<Rightarrow> Inl err | Inr key \<Rightarrow> Inr (key_Public key))))"

definition checkAudience :: "verifier \<Rightarrow> jwt_claims \<Rightarrow> go_error option" where
  "checkAudience v c =
     (if jc_Audience (vf_cfg v) = [] then None
      else if \<exists>want\<in>set (jc_Audience (vf_cfg v)). want \<in> set (cl_Audience c) then None
      else Some (Wrapped (err_text ErrInvalidToken @ '': the audience does not match'') [ErrInvalidToken]))"

definition translate :: "go_error \<Rightarrow> go_error" where
  "translate err =
     (if errors_Is err ErrTokenExpired then ErrExpired
      else if errors_Is err ErrUnknownKey \<or> errors_Is err ErrMissingKID \<or> errors_Is err ErrWrongAlgorithm then err
      else Wrapped (err_text ErrInvalidToken @ '': '' @ err_text err) [ErrInvalidToken, err])"

definition verify_options :: "verifier \<Rightarrow> parse_options" where
  "verify_options v = \<lparr>po_ValidMethods = [''EdDSA''], po_Issuer = jc_Issuer (vf_cfg v), po_Leeway = jc_ClockSkew (vf_cfg v)\<rparr>"

definition Verify :: "'tok jwt_lib \<Rightarrow> verifier \<Rightarrow> timestamp \<Rightarrow> 'tok \<Rightarrow> go_error + jwt_claims" where
  "Verify L v now token =
     (case jl_Parse L (verify_options v) (keyFor v) now token of
        Inl err \<Rightarrow> Inl (translate err)
      | Inr parsed \<Rightarrow>
          if \<not> jl_Valid L parsed then Inl ErrInvalidToken
          else (case checkAudience v (tk_Claims parsed) of
                  Some err \<Rightarrow> Inl err
                | None \<Rightarrow> Inr (tk_Claims parsed)))"

section \<open>What the libraries document\<close>

definition codec_doc :: "'b codec \<Rightarrow> bool" where
  "codec_doc cd \<longleftrightarrow>
     (\<forall>data block rest. cd_Decode cd data = Some (block, rest) \<longrightarrow> length rest < length data)
     \<and> (\<forall>block. cd_Decode cd (cd_Encode cd block) = Some (block, []))
     \<and> (\<forall>block p. cd_PKIX cd block = Inr (Ed25519Key p) \<longrightarrow> length p = PublicKeySize)
     \<and> (\<forall>block p. cd_PKCS8 cd block = Inr (Ed25519Key p) \<longrightarrow> p \<noteq> [] \<and> length (cd_PublicOf cd p) = PublicKeySize)
     \<and> (\<forall>p. cd_KeyID cd p \<noteq> '''')"

text \<open>
  \<open>ParseWithClaims\<close> accepts a token only if its algorithm is among the valid methods, the key
  the key function selects verifies its signature, the issuer is the expected one (an empty
  expectation is not checked) and the time is within bounds, and then returns the signed token,
  marked valid; it accepts every such token; it reports the error of the key function, and an
  expired token as such. Signing with a private key makes a token its public half (\<open>pub\<close>)
  verifies; the claims survive the encoding when their times are whole seconds, the precision
  of a numeric date (texts are taken to be valid UTF-8).
\<close>

definition issuer_ok :: "parse_options \<Rightarrow> jwt_claims \<Rightarrow> bool" where
  "issuer_ok opts c \<longleftrightarrow> po_Issuer opts = '''' \<or> cl_Issuer c = po_Issuer opts"

definition whole_seconds :: "jwt_claims \<Rightarrow> bool" where
  "whole_seconds c \<longleftrightarrow>
     list_all (\<lambda>t. case t of None \<Rightarrow> True | Some t \<Rightarrow> NumericDate t = t) [cl_IssuedAt c, cl_NotBefore c, cl_ExpiresAt c]"

definition jwt_lib_doc :: "(bytes \<Rightarrow> bytes) \<Rightarrow> 'tok jwt_lib \<Rightarrow> bool" where
  "jwt_lib_doc pub L \<longleftrightarrow>
     (\<forall>tok k s. whole_seconds (tk_Claims tok) \<and> jl_Sign L tok k = Inr s \<longrightarrow> jl_Signed L (pub k) s tok)
     \<and> (\<forall>o' kf now s tok. jl_Parse L o' kf now s = Inr tok \<longleftrightarrow>
          (tk_Alg tok \<in> set (po_ValidMethods o') \<and> issuer_ok o' (tk_Claims tok) \<and> in_time o' now (tk_Claims tok)
           \<and> (\<exists>k. kf tok = Inr k \<and> jl_Signed L k s tok)))
     \<and> (\<forall>o' kf now s tok. jl_Parse L o' kf now s = Inr tok \<longrightarrow> jl_Valid L tok)
     \<and> (\<forall>o' kf now s tok k e. jl_Signed L k s tok \<and> tk_Alg tok \<in> set (po_ValidMethods o') \<and> kf tok = Inl e \<longrightarrow>
          (\<exists>e'. jl_Parse L o' kf now s = Inl e' \<and> (\<forall>x. errors_Is e (Sentinel x) \<longrightarrow> errors_Is e' (Sentinel x))
             \<and> (errors_Is e' ErrTokenExpired \<longrightarrow> errors_Is e ErrTokenExpired)))"

lemma jwt_lib_docD:
  assumes "jwt_lib_doc pub L"
  shows "jl_Sign L tok k = Inr s \<Longrightarrow> whole_seconds (tk_Claims tok) \<Longrightarrow> jl_Signed L (pub k) s tok"
    and "jl_Parse L opts kf now s = Inr tok \<longleftrightarrow>
      tk_Alg tok \<in> set (po_ValidMethods opts) \<and> issuer_ok opts (tk_Claims tok) \<and> in_time opts now (tk_Claims tok)
      \<and> (\<exists>k. kf tok = Inr k \<and> jl_Signed L k s tok)"
    and "jl_Signed L k s tok \<Longrightarrow> tk_Alg tok \<in> set (po_ValidMethods opts) \<Longrightarrow> kf tok = Inl e \<Longrightarrow>
      \<exists>e'. jl_Parse L opts kf now s = Inl e' \<and> (\<forall>x. errors_Is e (Sentinel x) \<longrightarrow> errors_Is e' (Sentinel x))
        \<and> (errors_Is e' ErrTokenExpired \<longrightarrow> errors_Is e ErrTokenExpired)"
    and "jl_Parse L opts kf now s = Inr tok \<Longrightarrow> jl_Valid L tok"
proof -
  note doc = assms [unfolded jwt_lib_doc_def]
  show "jl_Sign L tok k = Inr s \<Longrightarrow> whole_seconds (tk_Claims tok) \<Longrightarrow> jl_Signed L (pub k) s tok" using conjunct1 [OF doc] by simp
  show "jl_Parse L opts kf now s = Inr tok \<longleftrightarrow>
      tk_Alg tok \<in> set (po_ValidMethods opts) \<and> issuer_ok opts (tk_Claims tok) \<and> in_time opts now (tk_Claims tok)
      \<and> (\<exists>k. kf tok = Inr k \<and> jl_Signed L k s tok)"
    by (rule conjunct1 [OF conjunct2 [OF doc], rule_format])
  show "jl_Signed L k s tok \<Longrightarrow> tk_Alg tok \<in> set (po_ValidMethods opts) \<Longrightarrow> kf tok = Inl e \<Longrightarrow>
      \<exists>e'. jl_Parse L opts kf now s = Inl e' \<and> (\<forall>x. errors_Is e (Sentinel x) \<longrightarrow> errors_Is e' (Sentinel x))
        \<and> (errors_Is e' ErrTokenExpired \<longrightarrow> errors_Is e ErrTokenExpired)"
    by (rule conjunct2 [OF conjunct2 [OF conjunct2 [OF doc]], rule_format]) blast
  show "jl_Parse L opts kf now s = Inr tok \<Longrightarrow> jl_Valid L tok"
    by (rule conjunct1 [OF conjunct2 [OF conjunct2 [OF doc]], rule_format])
qed

lemma Verify_accepts:
  assumes "jwt_lib_doc pub L"
  shows "Verify L v now token = Inr claims \<longleftrightarrow>
    (\<exists>tok. jl_Parse L (verify_options v) (keyFor v) now token = Inr tok \<and> checkAudience v claims = None \<and> tk_Claims tok = claims)"
  using jwt_lib_docD(4) [OF assms] by (auto simp: Verify_def split: sum.splits option.splits if_splits)

section \<open>Lemmas: the key set\<close>

text \<open>Every key is filed under its own identifier, and the active one can sign.\<close>

definition ks_inv :: "key_set \<Rightarrow> bool" where
  "ks_inv s \<longleftrightarrow> (\<forall>i k. map_of (ks_keys s) i = Some k \<longrightarrow> key_ID k = i \<and> i \<noteq> '''' \<and> length (key_Public k) = PublicKeySize)
     \<and> (ks_activeKID s \<noteq> '''' \<longrightarrow> (\<exists>k. map_of (ks_keys s) (ks_activeKID s) = Some k \<and> CanSign k))"

lemma ks_inv_New [simp]: "ks_inv NewKeySet"
  by (simp add: ks_inv_def NewKeySet_def)

lemma Add_spec:
  assumes "Add cd k s = (None, s')"
  obtains k' where "k' = (if key_ID k = '''' then k\<lparr>key_ID := cd_KeyID cd (key_Public k)\<rparr> else k)"
    "length (key_Public k') = PublicKeySize" "CanSign k' = CanSign k"
    "map_of (ks_keys s') = (map_of (ks_keys s))(key_ID k' \<mapsto> k')"
    "ks_activeKID s' = (if ks_activeKID s = '''' \<and> CanSign k then key_ID k' else ks_activeKID s)"
  using assms by (auto simp: Add_def Let_def update_conv' CanSign_def split: if_splits)

lemma Add_inv:
  assumes "ks_inv s" "Add cd k s = (None, s')" "\<And>p. cd_KeyID cd p \<noteq> ''''"
    and "CanSign k \<or> key_ID k \<noteq> ks_activeKID s \<or> ks_activeKID s = ''''" "key_ID k \<noteq> ''''"
  shows "ks_inv s'"
  using assms(2)
proof (rule Add_spec)
  fix k'
  assume "k' = (if key_ID k = '''' then k\<lparr>key_ID := cd_KeyID cd (key_Public k)\<rparr> else k)"
    and len: "length (key_Public k') = PublicKeySize" and "CanSign k' = CanSign k"
    and keys: "map_of (ks_keys s') = (map_of (ks_keys s))(key_ID k' \<mapsto> k')"
    and act: "ks_activeKID s' = (if ks_activeKID s = '''' \<and> CanSign k then key_ID k' else ks_activeKID s)"
  then have "k' = k" using assms(5) by simp
  note facts = keys [unfolded this] act [unfolded this] len [unfolded this]
  have "key_ID x = i \<and> i \<noteq> [] \<and> length (key_Public x) = PublicKeySize" if "map_of (ks_keys s') i = Some x" for i x
    using that assms(1,5) facts(1,3) by (cases "i = key_ID k") (simp_all add: ks_inv_def)
  moreover have "\<exists>x. map_of (ks_keys s') (ks_activeKID s') = Some x \<and> CanSign x" if "ks_activeKID s' \<noteq> []"
    using that assms(1,4) facts(1,2) by (cases "ks_activeKID s' = key_ID k") (auto simp: ks_inv_def split: if_splits)
  ultimately show ?thesis by (simp add: ks_inv_def)
qed

lemma ParsePublicKeyPEM_spec:
  assumes "codec_doc cd" "ParsePublicKeyPEM cd data = Inr k"
  shows "length (key_Public k) = PublicKeySize \<and> key_ID k = cd_KeyID cd (key_Public k) \<and> key_ID k \<noteq> '''' \<and> \<not> CanSign k"
  using assms by (auto simp: ParsePublicKeyPEM_def codec_doc_def CanSign_def split: option.splits sum.splits parsed_key.splits)

lemma ParsePrivateKeyPEM_spec:
  assumes "codec_doc cd" "ParsePrivateKeyPEM cd data = Inr k"
  shows "length (key_Public k) = PublicKeySize \<and> key_ID k \<noteq> '''' \<and> CanSign k"
  using assms by (auto simp: ParsePrivateKeyPEM_def codec_doc_def CanSign_def Let_def split: option.splits sum.splits parsed_key.splits)

lemma nextPublicKey_spec:
  assumes "codec_doc cd" "nextPublicKey cd data = Inr (Some (k, rest))"
  shows "length rest < length data" "length (key_Public k) = PublicKeySize" "key_ID k \<noteq> ''''" "\<not> CanSign k"
proof -
  have "length (TrimSpace data) \<le> length data"
    unfolding TrimSpace_def by (simp add: le_trans [OF length_dropWhile_le])
  moreover from assms(2) obtain block where "cd_Decode cd (TrimSpace data) = Some (block, rest)"
    "ParsePublicKeyPEM cd (cd_Encode cd block) = Inr k"
    by (auto simp: nextPublicKey_def Let_def split: if_splits option.splits sum.splits)
  moreover have "length rest < length (TrimSpace data)" using assms(1) calculation(2) by (auto simp: codec_doc_def)
  ultimately have "length rest < length data" "length (key_Public k) = PublicKeySize \<and> key_ID k = cd_KeyID cd (key_Public k)
      \<and> key_ID k \<noteq> [] \<and> \<not> CanSign k"
    using ParsePublicKeyPEM_spec [OF assms(1), of "cd_Encode cd block" k] by (linarith, blast)
  then show "length rest < length data" "length (key_Public k) = PublicKeySize" "key_ID k \<noteq> []" "\<not> CanSign k" by blast+
qed

lemma addPublicKeys_spec:
  assumes "codec_doc cd"
  shows "length data < n \<Longrightarrow> ks_inv s \<Longrightarrow>
     \<exists>r s'. addPublicKeys n cd data s = Some (r, s') \<and> ks_inv s' \<and> ks_activeKID s' = ks_activeKID s
       \<and> (\<forall>i k. map_of (ks_keys s) i = Some k \<and> CanSign k \<longrightarrow> map_of (ks_keys s') i = Some k)"
proof (induction n arbitrary: data s)
  case (Suc n)
  show ?case
  proof (cases "nextPublicKey cd data")
    case (Inr found)
    show ?thesis
    proof (cases found)
      case (Some kr)
      obtain k rest where kr: "kr = (k, rest)" by force
      note next_ = nextPublicKey_spec [OF assms, of data k rest]
      have k: "length rest < n" "length (key_Public k) = PublicKeySize" "key_ID k \<noteq> ''''" "\<not> CanSign k"
        using next_ Inr Some kr Suc.prems(1) by auto
      show ?thesis
      proof (cases "case Get (key_ID k) s of Inl _ \<Rightarrow> False | Inr existing \<Rightarrow> CanSign existing")
        case True
        with Suc.IH [OF k(1) Suc.prems(2)] Inr Some kr show ?thesis by simp
      next
        case False
        obtain s1 where add: "Add cd k s = (None, s1)" using k(2) by (auto simp: Add_def Let_def)
        have fresh: "map_of (ks_keys s) (key_ID k) = Some k0 \<Longrightarrow> \<not> CanSign k0" for k0
          using False by (auto simp: Get_def split: option.splits)
        have inv: "ks_inv s1"
          using Suc.prems(2) assms fresh k(3) by (intro Add_inv [OF _ add]) (auto simp: codec_doc_def ks_inv_def)
        have "ks_activeKID s1 = ks_activeKID s" "map_of (ks_keys s1) = (map_of (ks_keys s))(key_ID k \<mapsto> k)"
          using add k(3,4) by (auto elim!: Add_spec)
        moreover from this have "map_of (ks_keys s1) i = Some ka" if "map_of (ks_keys s) i = Some ka" "CanSign ka" for i ka
          using that fresh by auto
        ultimately show ?thesis using Suc.IH [OF k(1) inv] Inr Some kr False add by fastforce
      qed
    qed (use Inr Suc.prems in simp)
  qed (use Suc.prems in simp)
qed simp

lemma LoadKeySet_spec:
  assumes "codec_doc cd"
  shows "\<exists>res. LoadKeySet cd cfg = Some res \<and>
     (\<forall>s. res = Inr s \<longrightarrow> ks_inv s
        \<and> (jc_PrivateKeyPEM cfg \<noteq> '''' \<longrightarrow>
             (\<exists>k. ParsePrivateKeyPEM cd (normalizePEM (jc_PrivateKeyPEM cfg)) = Inr k \<and> Active s = Inr k \<and> CanSign k))
        \<and> (jc_PublicKeysPEM cfg \<noteq> '''' \<longrightarrow> Keys s \<noteq> []))"
proof (cases "load_private cd cfg")
  case (Inl e)
  then show ?thesis by (simp add: LoadKeySet_def)
next
  case (Inr s)
  let ?data = "normalizePEM (jc_PublicKeysPEM cfg)"
  have s: "ks_inv s \<and> (jc_PrivateKeyPEM cfg \<noteq> '''' \<longrightarrow>
      (\<exists>k. ParsePrivateKeyPEM cd (normalizePEM (jc_PrivateKeyPEM cfg)) = Inr k \<and> ks_activeKID s = key_ID k \<and> key_ID k \<noteq> ''''
         \<and> map_of (ks_keys s) (key_ID k) = Some k \<and> CanSign k))"
  proof (cases "jc_PrivateKeyPEM cfg = ''''")
    case False
    then obtain k where k: "ParsePrivateKeyPEM cd (normalizePEM (jc_PrivateKeyPEM cfg)) = Inr k" "Add cd k NewKeySet = (None, s)"
      using Inr by (auto simp: load_private_def split: sum.splits prod.splits option.splits)
    note spec = ParsePrivateKeyPEM_spec [OF assms k(1)]
    have "ks_inv s" by (rule Add_inv [OF _ k(2)]) (use assms spec in \<open>auto simp: codec_doc_def\<close>)
    moreover have "ks_activeKID s = key_ID k \<and> map_of (ks_keys s) (key_ID k) = Some k"
      using k(2) spec by (auto simp: NewKeySet_def elim!: Add_spec)
    ultimately show ?thesis using k(1) spec by simp
  qed (use Inr in \<open>simp add: load_private_def\<close>)
  obtain r s' where add: "addPublicKeys (Suc (length ?data)) cd ?data s = Some (r, s')" "ks_inv s'"
    "ks_activeKID s' = ks_activeKID s" "\<forall>i k. map_of (ks_keys s) i = Some k \<and> CanSign k \<longrightarrow> map_of (ks_keys s') i = Some k"
    using addPublicKeys_spec [OF assms, of ?data "Suc (length ?data)" s] s by auto
  show ?thesis
    using s add Inr by (cases r) (auto simp: LoadKeySet_def Let_def Active_def)
qed

section \<open>Properties\<close>

text \<open>
  C30. Loading the keys always ends, and a set that loads is usable: every key is filed under its
  own identifier and the active one, if any, can sign. When a private key is configured it is
  the active one, and listing its public half among the verification keys does not take its
  private half away.
\<close>

theorem LoadKeySet_usable:
  assumes "codec_doc cd"
  shows "\<exists>res. LoadKeySet cd cfg = Some res \<and>
     (\<forall>s. res = Inr s \<longrightarrow> ks_inv s
        \<and> (jc_PrivateKeyPEM cfg \<noteq> '''' \<longrightarrow>
             (\<exists>k. ParsePrivateKeyPEM cd (normalizePEM (jc_PrivateKeyPEM cfg)) = Inr k \<and> Active s = Inr k \<and> CanSign k))
        \<and> (jc_PublicKeysPEM cfg \<noteq> '''' \<longrightarrow> Keys s \<noteq> []))"
  by (rule LoadKeySet_spec [OF assms])

text \<open>
  C16. Round trip: a token the issuer mints is accepted by every verifier that has the signing
  key's public half under the same identifier, expects the same issuer and an audience of the
  token, from the moment of issue (less the tolerated skew) until its expiry; and the verifier
  reads exactly the claims the issuer wrote.
\<close>

theorem issued_token_verifies:
  assumes "jwt_lib_doc pub L" "ks_inv (is_keys i)" "Issue L i uuid now req = Inr (token, claims)"
    and "Active (is_keys i) = Inr k" "Get (key_ID k) (vf_keys v) = Inr k'" "key_Public k' = pub (key_Private k)"
    and "jc_Issuer (vf_cfg v) = jc_Issuer (is_cfg i)"
    and "jc_Audience (vf_cfg v) = [] \<or> set (jc_Audience (vf_cfg v)) \<inter> set (cl_Audience claims) \<noteq> {}"
    and "NumericDate now \<le> later + jc_ClockSkew (vf_cfg v)"
    and "later - jc_ClockSkew (vf_cfg v) < NumericDate (now + jc_AccessTokenTTL (is_cfg i))"
  shows "Verify L v later token = Inr claims"
proof -
  let ?tok = "\<lparr>tk_Alg = ''EdDSA'', tk_KID = Some (key_ID k), tk_Claims = claims\<rparr>"
  have issued: "jl_Sign L ?tok (key_Private k) = Inr token" "cl_Issuer claims = jc_Issuer (is_cfg i)"
    "cl_NotBefore claims = Some (NumericDate now)" "cl_ExpiresAt claims = Some (NumericDate (now + jc_AccessTokenTTL (is_cfg i)))"
    "whole_seconds claims"
    using assms(3,4) by (auto simp: Issue_def Let_def whole_seconds_def split: sum.splits)
  have kid: "key_ID k \<noteq> ''''"
    using assms(2,4) by (auto simp: Active_def ks_inv_def split: if_splits)
  have signed_: "jl_Signed L (pub (key_Private k)) token ?tok" using jwt_lib_docD(1) [OF assms(1) issued(1)] issued(5) by simp
  have "jl_Parse L (verify_options v) (keyFor v) later token = Inr ?tok"
    using assms(5-7,9,10) issued signed_ kid
    by (simp add: jwt_lib_docD(2) [OF assms(1)] verify_options_def keyFor_def in_time_def issuer_ok_def)
  moreover have "checkAudience v claims = None" using assms(8) by (auto simp: checkAudience_def)
  ultimately show ?thesis by (auto simp: Verify_accepts [OF assms(1)])
qed

text \<open>
  C10. Only a token that some known key signed is accepted: when \<open>Verify\<close> returns claims, they
  are those of an EdDSA token that names the identifier of a key in the set and carries a
  signature that key verifies, with the configured issuer, within its time bounds, and meant
  for one of the configured audiences. (An empty issuer or no audience in the configuration is
  not checked.)
\<close>

theorem verified_token_genuine:
  assumes "jwt_lib_doc pub L" "Verify L v now token = Inr claims"
  shows "\<exists>kid k. Get kid (vf_keys v) = Inr k \<and> kid \<noteq> ''''
     \<and> jl_Signed L (key_Public k) token \<lparr>tk_Alg = ''EdDSA'', tk_KID = Some kid, tk_Claims = claims\<rparr>
     \<and> (jc_Issuer (vf_cfg v) = '''' \<or> cl_Issuer claims = jc_Issuer (vf_cfg v)) \<and> in_time (verify_options v) now claims
     \<and> (jc_Audience (vf_cfg v) = [] \<or> set (jc_Audience (vf_cfg v)) \<inter> set (cl_Audience claims) \<noteq> {})"
proof -
  from assms(2) obtain tok where tok: "jl_Parse L (verify_options v) (keyFor v) now token = Inr tok"
    "checkAudience v claims = None" "tk_Claims tok = claims"
    by (auto simp: Verify_accepts [OF assms(1)])
  then obtain key where key: "keyFor v tok = Inr key" "jl_Signed L key token tok" "tk_Alg tok = ''EdDSA''"
    "jc_Issuer (vf_cfg v) = '''' \<or> cl_Issuer claims = jc_Issuer (vf_cfg v)" "in_time (verify_options v) now claims"
    by (auto simp: jwt_lib_docD(2) [OF assms(1)] verify_options_def issuer_ok_def)
  from key(1,3) obtain kid k where "tk_KID tok = Some kid" "kid \<noteq> ''''" "Get kid (vf_keys v) = Inr k" "key = key_Public k"
    by (auto simp: keyFor_def split: option.splits if_splits sum.splits)
  moreover from this have "tok = \<lparr>tk_Alg = ''EdDSA'', tk_KID = Some kid, tk_Claims = claims\<rparr>" using key(3) tok(3) by (cases tok) simp
  ultimately show ?thesis using key tok(2) by (auto simp: checkAudience_def split: if_splits)
qed

text \<open>
  C28. Rotation signs no user out: adding a key under another identifier keeps every key that
  verified before, so a token that verified still does.
\<close>

theorem rotation_keeps_tokens:
  assumes "jwt_lib_doc pub L" "Add cd k s = (None, s')" "key_ID k \<noteq> ''''"
    and "\<And>k0. map_of (ks_keys s) (key_ID k) = Some k0 \<Longrightarrow> key_Public k0 = key_Public k"
    and "Verify L (NewVerifier s cfg) now token = Inr claims"
  shows "Verify L (NewVerifier s' cfg) now token = Inr claims"
proof -
  let ?v = "NewVerifier s cfg" and ?v' = "NewVerifier s' cfg"
  from assms(5) obtain tok where tok: "jl_Parse L (verify_options ?v) (keyFor ?v) now token = Inr tok"
    "checkAudience ?v claims = None" "tk_Claims tok = claims"
    by (auto simp: Verify_accepts [OF assms(1)])
  have keys: "map_of (ks_keys s') = (map_of (ks_keys s))(key_ID k \<mapsto> k)" using assms(2,3) by (auto elim!: Add_spec)
  have same: "keyFor ?v' tok = Inr x" if "keyFor ?v tok = Inr x" for x
    using that assms(4) keys by (auto simp: keyFor_def Get_def NewVerifier_def split: option.splits if_splits)
  have "verify_options ?v' = verify_options ?v" by (simp add: verify_options_def NewVerifier_def)
  then have "jl_Parse L (verify_options ?v') (keyFor ?v') now token = Inr tok"
    using tok(1) same by (auto simp: jwt_lib_docD(2) [OF assms(1)])
  moreover have "checkAudience ?v' claims = checkAudience ?v claims" by (simp add: checkAudience_def NewVerifier_def)
  ultimately show ?thesis using tok(2,3) by (auto simp: Verify_accepts [OF assms(1)])
qed

text \<open>
  A token signed with a key that has been retired is refused, and the caller can tell why:
  the error is \<open>ErrUnknownKey\<close> and not \<open>ErrExpired\<close>, expired or not.
\<close>

theorem retired_key_refused:
  assumes "jwt_lib_doc pub L"
    and "jl_Signed L p token \<lparr>tk_Alg = ''EdDSA'', tk_KID = Some kid, tk_Claims = claims\<rparr>"
    and "kid \<noteq> []" "map_of (ks_keys (vf_keys v)) kid = None"
  shows "\<exists>e. Verify L v now token = Inl e \<and> errors_Is e ErrUnknownKey \<and> \<not> errors_Is e ErrTokenExpired"
proof -
  let ?e = "Wrapped (err_text ErrUnknownKey @ '': '' @ kid) [ErrUnknownKey]"
  have "keyFor v \<lparr>tk_Alg = ''EdDSA'', tk_KID = Some kid, tk_Claims = claims\<rparr> = Inl ?e"
    using assms(3,4) by (simp add: keyFor_def Get_def)
  with jwt_lib_docD(3) [OF assms(1,2), of "verify_options v" "keyFor v" ?e now]
  obtain e' where e': "jl_Parse L (verify_options v) (keyFor v) now token = Inl e'"
    "\<forall>x. errors_Is ?e (Sentinel x) \<longrightarrow> errors_Is e' (Sentinel x)"
    "errors_Is e' ErrTokenExpired \<longrightarrow> errors_Is ?e ErrTokenExpired"
    by (auto simp: verify_options_def)
  then have "errors_Is e' ErrUnknownKey" "\<not> errors_Is e' ErrTokenExpired" by (simp_all add: ErrUnknownKey_def)
  with e' show ?thesis by (simp add: Verify_def translate_def)
qed

text \<open>
  The published key set is public: replacing or removing the private halves of the keys does
  not change the document.
\<close>

theorem JWKS_public_only:
  assumes "map fst (ks_keys s) = map fst (ks_keys s')"
    and "map (\<lambda>(i, k). (key_ID k, key_Public k)) (ks_keys s) = map (\<lambda>(i, k). (key_ID k, key_Public k)) (ks_keys s')"
  shows "JWKS cd s = JWKS cd s'"
proof -
  let ?jwk = "\<lambda>(i, p). \<lparr>jwk_KeyType = ''OKP'', jwk_Curve = ''Ed25519'', jwk_KeyID = i, jwk_Use = ''sig'',
    jwk_Algorithm = ''EdDSA'', jwk_X = cd_Base64 cd p\<rparr>"
  have "JWKS cd s = map ?jwk (map (\<lambda>(i, k). (key_ID k, key_Public k)) (ks_keys s))" for s
    by (simp add: JWKS_def Keys_def case_prod_beta comp_def)
  then show ?thesis by (simp only: assms(2))
qed

lemma replace_pair_id: "a \<notin> set s \<Longrightarrow> replace_pair a b new s = s"
  by (induction a b new s rule: replace_pair.induct) auto

lemma replace_pair_char:
  "backslash \<notin> set s \<Longrightarrow> replace_pair backslash (CHR ''n'') [newline] (replace_char newline [backslash, CHR ''n''] s) = s"
proof (induction s)
  case (Cons c s)
  have step: "c \<noteq> backslash \<Longrightarrow> replace_pair backslash (CHR ''n'') [newline] (c # t) = c # replace_pair backslash (CHR ''n'') [newline] t" for t
    by (cases t) auto
  show ?case using Cons step by (auto simp: replace_char_def)
qed (simp add: replace_char_def)

lemma set_TrimSpace: "set (TrimSpace s) \<subseteq> set s"
  by (auto simp: TrimSpace_def dest!: set_dropWhileD)

text \<open>
  The escaped form of a PEM is read back: \<open>normalizePEM\<close> undoes \<open>escape\<close> of
  \<open>cmd/keygen\<close> (up to the surrounding white space the latter trims), and leaves a PEM with
  real newlines as it is. A PEM contains no backslash.
\<close>

theorem normalize_escape:
  assumes "backslash \<notin> set pem"
  shows "normalizePEM (escape pem) = TrimSpace pem \<and> normalizePEM pem = pem"
  using assms set_TrimSpace [of pem] replace_pair_char [of "TrimSpace pem"]
  by (auto simp: normalizePEM_def escape_def replace_pair_id)

text \<open>
  \<open>Add\<close> itself does not protect the active key: adding its public half under its identifier
  replaces it, and from then on the active key cannot sign. (\<open>addPublicKeys\<close> checks for this
  before it calls \<open>Add\<close>.)
\<close>

theorem Add_downgrades_active_key:
  assumes "ks_inv s" "Active s = Inr k"
  shows "\<exists>s' k'. Add cd (k\<lparr>key_Private := []\<rparr>) s = (None, s') \<and> Active s' = Inr k' \<and> \<not> CanSign k'"
proof -
  have k: "map_of (ks_keys s) (ks_activeKID s) = Some k" "ks_activeKID s \<noteq> ''''" "key_ID k = ks_activeKID s"
    "length (key_Public k) = PublicKeySize"
    using assms by (auto simp: Active_def ks_inv_def split: if_splits)
  then show ?thesis by (simp add: Add_def Let_def Active_def CanSign_def update_conv)
qed

section \<open>Witnesses\<close>

definition demo_codec :: "char codec" where
  "demo_codec =
     \<lparr>cd_KeyID = \<lambda>p. CHR ''k'' # take 1 p, cd_PublicOf = \<lambda>p. replicate 32 (hd p),
      cd_Decode = \<lambda>data. (case data of c # d # rest \<Rightarrow> if c = CHR ''B'' then Some (d, rest) else None | _ \<Rightarrow> None),
      cd_Encode = \<lambda>b. [CHR ''B'', b], cd_PKCS8 = \<lambda>b. Inr (Ed25519Key [b]), cd_PKIX = \<lambda>b. Inr (Ed25519Key (replicate 32 b)),
      cd_MarshalPKCS8 = \<lambda>p. Inr (hd p), cd_MarshalPKIX = \<lambda>p. Inr (hd p), cd_Base64 = \<lambda>p. p\<rparr>"

lemma demo_codec_doc: "codec_doc demo_codec"
  by (auto simp: codec_doc_def demo_codec_def PublicKeySize_def split: list.splits if_splits)

definition demo_jwt :: "(jwt_token \<times> bytes) jwt_lib" where
  "demo_jwt =
     \<lparr>jl_Sign = \<lambda>tok k. Inr (tok, k),
      jl_Parse = \<lambda>opts kf now s.
        (if tk_Alg (fst s) \<notin> set (po_ValidMethods opts) then Inl ErrInvalidToken
         else (case kf (fst s) of
                 Inl e \<Rightarrow> Inl e
               | Inr key \<Rightarrow>
                   if key = cd_PublicOf demo_codec (snd s) \<and> issuer_ok opts (tk_Claims (fst s))
                      \<and> in_time opts now (tk_Claims (fst s))
                   then Inr (fst s) else Inl ErrInvalidToken)),
      jl_Signed = \<lambda>p s tok. tok = fst s \<and> p = cd_PublicOf demo_codec (snd s), jl_Valid = \<lambda>_. True\<rparr>"

lemma demo_jwt_doc: "jwt_lib_doc (cd_PublicOf demo_codec) demo_jwt"
  unfolding jwt_lib_doc_def demo_jwt_def by (auto split: sum.splits if_splits)

definition demo_jcfg :: jwt_config where
  "demo_jcfg = \<lparr>jc_Issuer = ''dizen'', jc_Audience = [''dizen-app''], jc_AccessTokenTTL = 15 * Minute,
     jc_PrivateKeyPEM = ''BA'', jc_PublicKeysPEM = ''BABC'', jc_ClockSkew = 30 * Second\<rparr>"

definition demo_keys :: key_set where
  "demo_keys = (case LoadKeySet demo_codec demo_jcfg of Some (Inr s) \<Rightarrow> s | _ \<Rightarrow> NewKeySet)"

definition demo_request :: token_request where
  "demo_request = \<lparr>tr_UserID = ''u1'', tr_SessionID = ''s1'', tr_SessionVersion = 3, tr_Scope = [], tr_Audience = []\<rparr>"

definition demo_issuer :: issuer where
  "demo_issuer = \<lparr>is_keys = demo_keys, is_cfg = demo_jcfg\<rparr>"

definition demo_token :: "jwt_token \<times> bytes" where
  "demo_token = fst (projr (Issue demo_jwt demo_issuer ''jti'' 0 demo_request))"

lemma demo_loaded: "LoadKeySet demo_codec demo_jcfg = Some (Inr demo_keys)"
proof -
  have "case LoadKeySet demo_codec demo_jcfg of Some (Inr s) \<Rightarrow> True | _ \<Rightarrow> False" by code_simp
  then show ?thesis by (auto simp: demo_keys_def split: option.splits sum.splits)
qed

theorem LoadKeySet_usable_witness:
  "ks_inv demo_keys \<and> (\<exists>k. Active demo_keys = Inr k \<and> CanSign k) \<and> Keys demo_keys \<noteq> []"
  using LoadKeySet_usable [OF demo_codec_doc, of demo_jcfg] demo_loaded
  by (auto simp: demo_jcfg_def)

theorem issued_token_verifies_witness:
  "\<exists>claims. Issue demo_jwt demo_issuer ''jti'' 0 demo_request = Inr (demo_token, claims)
     \<and> Verify demo_jwt (NewVerifier demo_keys demo_jcfg) (14 * Minute) demo_token = Inr claims"
proof -
  have inv: "ks_inv (is_keys demo_issuer)"
    using LoadKeySet_spec [OF demo_codec_doc, of demo_jcfg] demo_loaded by (simp add: demo_issuer_def)
  have "case Issue demo_jwt demo_issuer ''jti'' 0 demo_request of Inr (_, c) \<Rightarrow> cl_Audience c = [''dizen-app''] | _ \<Rightarrow> False" by code_simp
  then obtain claims where issued: "Issue demo_jwt demo_issuer ''jti'' 0 demo_request = Inr (demo_token, claims)"
    and aud: "cl_Audience claims = [''dizen-app'']"
    by (auto simp: demo_token_def split: sum.splits)
  let ?k = "\<lparr>key_ID = ''kA'', key_Public = replicate 32 (CHR ''A''), key_Private = ''A''\<rparr>"
  have act: "Active (is_keys demo_issuer) = Inr ?k" by code_simp
  have get: "Get (key_ID ?k) (vf_keys (NewVerifier demo_keys demo_jcfg)) = Inr ?k" by code_simp
  have "Verify demo_jwt (NewVerifier demo_keys demo_jcfg) (14 * Minute) demo_token = Inr claims"
    by (rule issued_token_verifies [OF demo_jwt_doc inv issued act get])
       (simp_all add: demo_codec_def NewVerifier_def demo_issuer_def demo_jcfg_def aud NumericDate_def)
  with issued show ?thesis by blast
qed

lemma demo_verifies:
  "\<exists>claims. Verify demo_jwt (NewVerifier demo_keys demo_jcfg) (14 * Minute) demo_token = Inr claims"
proof -
  have "case Verify demo_jwt (NewVerifier demo_keys demo_jcfg) (14 * Minute) demo_token of Inr _ \<Rightarrow> True | _ \<Rightarrow> False" by code_simp
  then show ?thesis by (auto split: sum.splits)
qed

theorem verified_token_genuine_witness:
  "\<exists>claims kid k. Verify demo_jwt (NewVerifier demo_keys demo_jcfg) (14 * Minute) demo_token = Inr claims
     \<and> Get kid demo_keys = Inr k \<and> cl_Issuer claims = ''dizen''"
proof -
  obtain claims where "Verify demo_jwt (NewVerifier demo_keys demo_jcfg) (14 * Minute) demo_token = Inr claims" using demo_verifies by blast
  from verified_token_genuine [OF demo_jwt_doc this] this show ?thesis
    by (auto simp: NewVerifier_def demo_jcfg_def)
qed

theorem rotation_keeps_tokens_witness:
  "\<exists>claims s'. Add demo_codec \<lparr>key_ID = ''kZ'', key_Public = replicate 32 (CHR ''Z''), key_Private = ''Z''\<rparr> demo_keys = (None, s')
     \<and> Verify demo_jwt (NewVerifier s' demo_jcfg) (14 * Minute) demo_token = Inr claims"
proof -
  let ?k = "\<lparr>key_ID = ''kZ'', key_Public = replicate 32 (CHR ''Z''), key_Private = ''Z''\<rparr>"
  obtain claims where v: "Verify demo_jwt (NewVerifier demo_keys demo_jcfg) (14 * Minute) demo_token = Inr claims" using demo_verifies by blast
  obtain s' where add: "Add demo_codec ?k demo_keys = (None, s')" by (simp add: Add_def PublicKeySize_def Let_def)
  have "map_of (ks_keys demo_keys) (key_ID ?k) = None" by code_simp
  then have "Verify demo_jwt (NewVerifier s' demo_jcfg) (14 * Minute) demo_token = Inr claims"
    by (intro rotation_keeps_tokens [OF demo_jwt_doc add _ _ v]) simp_all
  with add show ?thesis by blast
qed

theorem retired_key_refused_witness:
  "\<exists>e. Verify demo_jwt (NewVerifier NewKeySet demo_jcfg) 0
       (\<lparr>tk_Alg = ''EdDSA'', tk_KID = Some ''kA'', tk_Claims = tk_Claims (fst demo_token)\<rparr>, ''A'') = Inl e \<and> errors_Is e ErrUnknownKey"
proof -
  have "jl_Signed demo_jwt (cd_PublicOf demo_codec ''A'')
      (\<lparr>tk_Alg = ''EdDSA'', tk_KID = Some ''kA'', tk_Claims = tk_Claims (fst demo_token)\<rparr>, ''A'')
      \<lparr>tk_Alg = ''EdDSA'', tk_KID = Some ''kA'', tk_Claims = tk_Claims (fst demo_token)\<rparr>" by (simp add: demo_jwt_def)
  from retired_key_refused [OF demo_jwt_doc this, of "NewVerifier NewKeySet demo_jcfg" 0] show ?thesis
    by (auto simp: NewVerifier_def NewKeySet_def)
qed

theorem JWKS_public_only_witness:
  "JWKS demo_codec demo_keys = JWKS demo_codec (demo_keys\<lparr>ks_keys := map (\<lambda>(i, k). (i, k\<lparr>key_Private := []\<rparr>)) (ks_keys demo_keys)\<rparr>)"
  by (rule JWKS_public_only) (simp_all add: case_prod_beta comp_def)

theorem normalize_escape_witness:
  "normalizePEM (escape (''BEGIN'' @ [newline] @ ''MC4'' @ [newline])) = ''BEGIN'' @ [newline] @ ''MC4''"
  using normalize_escape [of "''BEGIN'' @ [newline] @ ''MC4'' @ [newline]"] by (simp add: TrimSpace_def is_space_def)

end
