(* ===== verification/Bootstrap.thy ===== *)
theory Bootstrap
  imports Go_Prelude
begin

text \<open>
  \<open>pkg/bootstrap\<close>: running the components of a service and stopping them in reverse order.
  A component's start ends with an error or nil at some moment; the course of a run is the
  list of these endings in the order they happen, and of the termination signal.
\<close>

section \<open>Components\<close>

text \<open>\<open>Stop\<close> acts on a world \<open>'w\<close>; \<open>None\<close> stands for a nil function.\<close>

record 'w component =
  cm_Name :: string
  cm_Start :: bool \<comment> \<open>whether there is a start function\<close>
  cm_Stop :: "('w \<Rightarrow> go_error option \<times> 'w) option"

record 'w runner =
  rn_components :: "'w component list"
  rn_timeout :: duration

definition runner_DefaultTimeout :: duration where "runner_DefaultTimeout = 30 * Second"

definition NewRunner :: "duration \<Rightarrow> 'w runner" where
  "NewRunner timeout =
     \<lparr>rn_components = [], rn_timeout = (if timeout \<le> 0 then runner_DefaultTimeout else timeout)\<rparr>"

definition Runner_Add :: "'w component \<Rightarrow> 'w runner \<Rightarrow> 'w runner" where
  "Runner_Add c r = r\<lparr>rn_components := rn_components r @ [c]\<rparr>"

text \<open>\<open>errors.Join\<close>: nil if there is no error, else one error that wraps them all.\<close>

definition errors_Join :: "go_error list \<Rightarrow> go_error option" where
  "errors_Join es = (if es = [] then None else Some (Wrapped (Join (map err_text es) [CHR 0x0A]) es))"

fun stop_all :: "'w component list \<Rightarrow> go_error list \<Rightarrow> 'w \<Rightarrow> go_error list \<times> 'w" where
  "stop_all [] errs w = (errs, w)"
| "stop_all (c # cs) errs w =
     (case cm_Stop c of
        None \<Rightarrow> stop_all cs errs w
      | Some stop \<Rightarrow>
          (case stop w of
             (Some err, w') \<Rightarrow> stop_all cs (errs @ [Errorf (''stopping '' @ cm_Name c) err]) w'
           | (None, w') \<Rightarrow> stop_all cs errs w'))"

definition shutdown :: "'w runner \<Rightarrow> 'w \<Rightarrow> go_error option \<times> 'w" where
  "shutdown r w = (case stop_all (rev (rn_components r)) [] w of (errs, w') \<Rightarrow> (errors_Join errs, w'))"

text \<open>
  What happens while the group runs: the component of index \<open>i\<close> returns from its start with
  an error or nil, or the process is told to terminate.
\<close>

datatype ending = Ended nat "go_error option" | Signalled

definition group_error :: "'w runner \<Rightarrow> ending \<Rightarrow> go_error option" where
  "group_error r e =
     (case e of
        Signalled \<Rightarrow> None
      | Ended i res \<Rightarrow> map_option (Errorf (cm_Name (rn_components r ! i))) res)"

text \<open>The group context is done at the first signal or failure.\<close>

definition ends_run :: "ending \<Rightarrow> bool" where
  "ends_run e = (case e of Signalled \<Rightarrow> True | Ended i res \<Rightarrow> res \<noteq> None)"

text \<open>\<open>errgroup.Wait\<close>: the first error, in the order the functions returned.\<close>

definition group_Wait :: "'w runner \<Rightarrow> ending list \<Rightarrow> go_error option" where
  "group_Wait r es = (case List.map_filter (group_error r) es of [] \<Rightarrow> None | e # _ \<Rightarrow> Some e)"

text \<open>\<open>group.Wait\<close> returns when every function of the group has: the components at these positions.\<close>

definition returned :: "nat list \<Rightarrow> ending list \<Rightarrow> bool" where
  "returned is es \<longleftrightarrow> list_all (\<lambda>i. list_ex (\<lambda>e. case e of Signalled \<Rightarrow> False | Ended j res \<Rightarrow> j = i) es) is"

definition started_at :: "'w runner \<Rightarrow> nat list" where
  "started_at r = filter (\<lambda>i. cm_Start (rn_components r ! i)) [0..<length (rn_components r)]"

text \<open>
  \<open>Run\<close>, for the course \<open>es\<close> of a run: nothing has ended it yet; the components have been
  stopped and it waits for those that have not returned; or it has returned.
\<close>

datatype 'w run_state = RunUp | RunDraining 'w | RunReturned "go_error option" 'w

definition Runner_Run :: "'w runner \<Rightarrow> ending list \<Rightarrow> 'w \<Rightarrow> 'w run_state" where
  "Runner_Run r es w =
     (if \<not> list_ex ends_run es then RunUp
      else (case shutdown r w of (shutdownErr, w') \<Rightarrow>
              if \<not> returned (started_at r) es then RunDraining w'
              else (let runErr = group_Wait r es;
                        runErr = (case runErr of None \<Rightarrow> None | Some e \<Rightarrow> if errors_Is e ctx_Canceled then None else Some e)
                    in RunReturned (errors_Join (List.map_filter id [runErr, shutdownErr])) w')))"

section \<open>The self-probe\<close>

definition ErrUnhealthy :: go_error where
  "ErrUnhealthy = Sentinel ''the service is not answering /livez''"

definition livez_url :: "int \<Rightarrow> string" where
  "livez_url port = ''http://127.0.0.1:'' @ Itoa port @ ''/livez''"

text \<open>\<open>newreq\<close> is the error of building the request, \<open>do_\<close> the status code or error of the client.\<close>

definition Healthcheck :: "(string \<Rightarrow> go_error option) \<Rightarrow> (string \<Rightarrow> go_error + int) \<Rightarrow> int \<Rightarrow> go_error option" where
  "Healthcheck newreq send port =
     (let url = livez_url port in
      case newreq url of
        Some err \<Rightarrow> Some (Errorf ''building the healthcheck request'' err)
      | None \<Rightarrow>
          (case send url of
             Inl err \<Rightarrow> Some (Errorf (''probing '' @ url) err)
           | Inr code \<Rightarrow>
               if code \<noteq> 200
               then Some (Wrapped (err_text ErrUnhealthy @ '': '' @ url @ '' answered '' @ Itoa code) [ErrUnhealthy])
               else None))"

section \<open>Lemmas\<close>

text \<open>The stop functions of the components, in the order given, run one after the other.\<close>

fun run_stops :: "('w \<Rightarrow> go_error option \<times> 'w) list \<Rightarrow> 'w \<Rightarrow> 'w" where
  "run_stops [] w = w"
| "run_stops (f # fs) w = run_stops fs (snd (f w))"

lemma stop_all_world: "snd (stop_all cs errs w) = run_stops (List.map_filter cm_Stop cs) w"
  by (induction cs errs w rule: stop_all.induct) (auto simp: List.map_filter_def split: option.split prod.split)

section \<open>Properties\<close>

lemma ends_run_ex: "e \<in> set es \<Longrightarrow> ends_run e \<Longrightarrow> list_ex ends_run es"
  by (auto simp: list_ex_iff)

text \<open>
  Shutting down stops everything: however the run ends, the stop functions of all components
  run, each once, in reverse order of registration, whether or not some of them fail; \<open>Run\<close> has
  returned once every component that was started has.
\<close>

theorem shutdown_stops_all_in_reverse:
  assumes "e \<in> set es" "ends_run e"
  shows "\<exists>res. Runner_Run r es w =
    (let w' = run_stops (rev (List.map_filter cm_Stop (rn_components r))) w
     in if returned (started_at r) es then RunReturned res w' else RunDraining w')"
proof -
  have "run_stops (List.map_filter cm_Stop (rev cs)) w = run_stops (rev (List.map_filter cm_Stop cs)) w" for cs :: "'a component list"
    by (simp add: List.map_filter_def rev_map rev_filter)
  then have "snd (shutdown r w) = run_stops (rev (List.map_filter cm_Stop (rn_components r))) w"
    using stop_all_world [of "rev (rn_components r)" "[]" w] by (auto simp: shutdown_def split: prod.splits)
  then show ?thesis using ends_run_ex [OF assms] by (auto simp: Runner_Run_def Let_def split: prod.splits)
qed

text \<open>
  A failure is reported: if the first component to fail did so for another reason than the
  cancellation, \<open>Run\<close> returns an error in which that failure can be found, once every component
  has returned.
\<close>

theorem first_failure_reported:
  assumes "es = before @ Ended i (Some err) # rest" "\<forall>e\<in>set before. group_error r e = None"
    and "\<not> errors_Is err ctx_Canceled" "errors_Is err (Sentinel s)" "returned (started_at r) es"
  shows "\<exists>e w'. Runner_Run r es w = RunReturned (Some e) w' \<and> errors_Is e (Sentinel s)"
proof -
  have first: "group_Wait r es = Some (Errorf (cm_Name (rn_components r ! i)) err)"
    using assms(1,2) by (auto simp: group_Wait_def group_error_def List.map_filter_def split: list.split)
  have "list_ex ends_run es" using assms(1) by (auto simp: ends_run_def)
  then show ?thesis
    using first assms(3-5) by (auto simp: Runner_Run_def Let_def errors_Join_def List.map_filter_def split: prod.split)
qed

definition demo_component :: "string \<Rightarrow> go_error option \<Rightarrow> string list component" where
  "demo_component name err = \<lparr>cm_Name = name, cm_Start = True, cm_Stop = Some (\<lambda>w. (err, w @ [name]))\<rparr>"

definition demo_runner :: "string list runner" where
  "demo_runner = Runner_Add (demo_component ''grpc'' None) (Runner_Add (demo_component ''postgres'' (Some ctx_DeadlineExceeded)) (NewRunner 0))"

theorem shutdown_stops_all_in_reverse_witness:
  "\<exists>res. Runner_Run demo_runner [Signalled, Ended 1 None, Ended 0 None] [] = RunReturned res [''grpc'', ''postgres'']"
  using shutdown_stops_all_in_reverse [of Signalled "[Signalled, Ended 1 None, Ended 0 None]" demo_runner "[]"]
  by (simp add: ends_run_def returned_def started_at_def Let_def demo_runner_def Runner_Add_def NewRunner_def demo_component_def List.map_filter_def)

theorem first_failure_reported_witness:
  "\<exists>e w'. Runner_Run demo_runner [Ended 0 (Some (Sentinel ''listen: address in use'')), Ended 1 None] [] = RunReturned (Some e) w'
     \<and> errors_Is e (Sentinel ''listen: address in use'')"
  using first_failure_reported [of "[Ended 0 (Some (Sentinel ''listen: address in use'')), Ended 1 None]" "[]" 0
      "Sentinel ''listen: address in use''" "[Ended 1 None]" demo_runner "''listen: address in use''" "[]"]
  by (simp add: returned_def started_at_def demo_runner_def Runner_Add_def NewRunner_def demo_component_def)

end
