(* ===== verification/Metrics.thy ===== *)
theory Metrics
  imports Go_Prelude
begin

text \<open>
  \<open>pkg/observability/metrics\<close>: the gRPC collectors of a service. A registry is the values of
  its collectors: the in-flight gauge by method, the request counter and the observed durations
  by method and code label. The closure \<open>RequestStarted\<close> returns is \<open>finish\<close>, with the
  start time it captured.
\<close>

definition metrics_Namespace :: string where "metrics_Namespace = ''dizen''"

record metrics_registry =
  mt_service :: string
  mt_collectors :: "string list" \<comment> \<open>the names of what is registered\<close>
  mt_inFlight :: "string \<Rightarrow> int"
  mt_requests :: "string \<times> string \<Rightarrow> nat"
  mt_durations :: "string \<times> string \<Rightarrow> duration list"

definition metric_name :: "string \<Rightarrow> string \<Rightarrow> string" where
  "metric_name subsystem name = metrics_Namespace @ ''_'' @ subsystem @ ''_'' @ name"

text \<open>
  Registering a collector panics (\<open>None\<close>) when one of that name is registered. The two collectors
  of the library, for the Go runtime and the process, stand under their own names.
\<close>

fun metrics_MustRegister :: "string list \<Rightarrow> metrics_registry \<Rightarrow> metrics_registry option" where
  "metrics_MustRegister [] r = Some r"
| "metrics_MustRegister (c # cs) r =
     (if c \<in> set (mt_collectors r) then None
      else metrics_MustRegister cs (r\<lparr>mt_collectors := mt_collectors r @ [c]\<rparr>))"

definition base_collectors :: "string list" where
  "base_collectors = [''go'', ''process'', metric_name ''grpc'' ''requests_total'', metric_name ''grpc'' ''request_duration_seconds'',
     metric_name ''grpc'' ''requests_in_flight'']"

definition metrics_NewRegistry :: "string \<Rightarrow> metrics_registry" where
  "metrics_NewRegistry serviceName =
     \<lparr>mt_service = serviceName, mt_collectors = base_collectors, mt_inFlight = (\<lambda>_. 0), mt_requests = (\<lambda>_. 0), mt_durations = (\<lambda>_. [])\<rparr>"

text \<open>
  The registration in \<open>NewRegistry\<close> never panics, and a service may add collectors of its own
  exactly if their names are new and differ from each other.
\<close>

lemma MustRegister_iff:
  "metrics_MustRegister cs r = (if distinct cs \<and> set cs \<inter> set (mt_collectors r) = {}
     then Some (r\<lparr>mt_collectors := mt_collectors r @ cs\<rparr>) else None)"
  by (induction cs r rule: metrics_MustRegister.induct) auto

lemma NewRegistry_registers:
  "metrics_MustRegister base_collectors ((metrics_NewRegistry name)\<lparr>mt_collectors := []\<rparr>) = Some (metrics_NewRegistry name)"
  by (simp add: MustRegister_iff metrics_NewRegistry_def) (simp add: base_collectors_def metric_name_def metrics_Namespace_def)

text \<open>The number of a code, as gRPC assigns it.\<close>

fun code_number :: "grpc_code \<Rightarrow> nat" where
  "code_number CodeOK = 0"
| "code_number CodeCanceled = 1"
| "code_number CodeUnknown = 2"
| "code_number CodeInvalidArgument = 3"
| "code_number CodeDeadlineExceeded = 4"
| "code_number CodeNotFound = 5"
| "code_number CodeAlreadyExists = 6"
| "code_number CodePermissionDenied = 7"
| "code_number CodeResourceExhausted = 8"
| "code_number CodeFailedPrecondition = 9"
| "code_number CodeAborted = 10"
| "code_number CodeOutOfRange = 11"
| "code_number CodeUnimplemented = 12"
| "code_number CodeInternal = 13"
| "code_number CodeUnavailable = 14"
| "code_number CodeDataLoss = 15"
| "code_number CodeUnauthenticated = 16"
| "code_number (CodeOther n) = n"

definition codeLabel :: "grpc_code \<Rightarrow> string" where
  "codeLabel code =
     (let name = code_String code in
      if length name > 5 \<and> take 5 name = ''Code('' then Itoa (int (code_number code)) else name)"

definition RequestStarted :: "string \<Rightarrow> timestamp \<Rightarrow> metrics_registry \<Rightarrow> timestamp \<times> metrics_registry" where
  "RequestStarted method now r =
     (now, r\<lparr>mt_inFlight := (mt_inFlight r)(method := mt_inFlight r method + 1)\<rparr>)"

definition finish :: "string \<Rightarrow> timestamp \<Rightarrow> grpc_code \<Rightarrow> timestamp \<Rightarrow> metrics_registry \<Rightarrow> metrics_registry" where
  "finish method start code now r =
     (let r = r\<lparr>mt_inFlight := (mt_inFlight r)(method := mt_inFlight r method - 1)\<rparr>;
          label = codeLabel code
      in r\<lparr>mt_requests := (mt_requests r)((method, label) := mt_requests r (method, label) + 1),
           mt_durations := (mt_durations r)((method, label) := mt_durations r (method, label) @ [now - start])\<rparr>)"

lemma digits10_length: "0 < length (digits10 n)"
  by (subst digits10.simps) simp

text \<open>The label of a named code is its name; only an unnamed code is reported by its number.\<close>

lemma codeLabel_named: "(\<And>n. c \<noteq> CodeOther n) \<Longrightarrow> codeLabel c = code_String c"
  by (cases c) (auto simp: codeLabel_def)

lemma codeLabel_other: "codeLabel (CodeOther n) = digits10 n"
  using digits10_length [of n] by (auto simp: codeLabel_def Itoa_def)

end
