(* ===== verification/Grpc_Interceptors.thy ===== *)
theory Grpc_Interceptors
  imports Dizen_Errors Metrics
begin

text \<open>
  \<open>pkg/grpcserver/interceptor\<close>: the links of the gRPC chain. A handler takes the context
  and the request and either returns a response and an error or panics; \<open>'h\<close> is what the
  handlers of a service change. An interceptor takes in addition the full name of the method and
  the next handler. The state carries what the links write: the log, the metrics and the clock.

  Parameters, because they are not code of the repository: the semantic-version library, the
  request validator, \<open>status.FromError\<close> and the stack the runtime prints.
\<close>

section \<open>Calls\<close>

text \<open>
  What a panic carries, as far as an encoder of JSON sees it: a string; a value none of whose
  fields is exported, by the text of its \<open>Error\<close> method (the errors of \<open>errors.New\<close>, of
  \<open>fmt.Errorf\<close> and of \<open>status.Error\<close> and the bounds, nil and type errors of the run time
  are of this kind); or any other value, by its JSON.
\<close>

datatype panic_value = PanicText string | PanicOpaque string | PanicJSON string

datatype 'p call = Returns "'p option" "go_error option" | Panics panic_value

record 'h srv =
  sv_log :: "log_line list"
  sv_metrics :: metrics_registry
  sv_now :: timestamp
  sv_app :: 'h

type_synonym ('q, 'p, 'h) unary_handler = "go_ctx \<Rightarrow> 'q \<Rightarrow> 'h srv \<Rightarrow> 'p call \<times> 'h srv"
type_synonym ('q, 'p, 'h) unary_interceptor =
  "go_ctx \<Rightarrow> 'q \<Rightarrow> string \<Rightarrow> ('q, 'p, 'h) unary_handler \<Rightarrow> 'h srv \<Rightarrow> 'p call \<times> 'h srv"

definition write_log :: "log_line list \<Rightarrow> 'h srv \<Rightarrow> 'h srv" where
  "write_log ls w = w\<lparr>sv_log := sv_log w @ ls\<rparr>"

text \<open>\<open>status.Code\<close> and \<open>status.Error\<close>.\<close>

definition status_Code :: "status_lib \<Rightarrow> go_error option \<Rightarrow> grpc_code" where
  "status_Code L err = (case err of None \<Rightarrow> CodeOK
     | Some e \<Rightarrow> (case SL_FromError L e of None \<Rightarrow> CodeUnknown | Some st \<Rightarrow> st_code st))"

definition status_Error :: "grpc_code \<Rightarrow> string \<Rightarrow> go_error option" where
  "status_Error code message = status_Err (status_New code message)"

section \<open>Metadata\<close>

type_synonym MD = "(string \<times> string list) list"

definition MDAuthorization :: string where "MDAuthorization = ''authorization''"
definition MDDeviceID :: string where "MDDeviceID = ''x-device-id''"
definition MDAppVersion :: string where "MDAppVersion = ''x-app-version''"
definition MDAPIVersion :: string where "MDAPIVersion = ''x-api-version''"
definition MDPlatform :: string where "MDPlatform = ''x-platform''"
definition MDAcceptLanguage :: string where "MDAcceptLanguage = ''accept-language''"

definition First :: "MD \<Rightarrow> string \<Rightarrow> string" where
  "First md key =
     (let values = (case map_of md (ToLower key) of None \<Rightarrow> [] | Some vs \<Rightarrow> vs)
      in if length values = 0 then '''' else values ! 0)"

definition md_FromContext :: "go_ctx \<Rightarrow> MD" where
  "md_FromContext ctx = (case ctx_md ctx of None \<Rightarrow> [] | Some md \<Rightarrow> md)"

definition PeerAddress :: "go_ctx \<Rightarrow> string" where
  "PeerAddress ctx = (case ctx_peer ctx of None \<Rightarrow> '''' | Some a \<Rightarrow> a)"

section \<open>Allowlist\<close>

type_synonym allowlist = "string list" \<comment> \<open>the keys of the method set\<close>

fun NewAllowlist :: "string list \<Rightarrow> allowlist" where
  "NewAllowlist methods = fold (\<lambda>m set'. if m \<in> set set' then set' else set' @ [m]) methods []"

definition Contains :: "allowlist option \<Rightarrow> string \<Rightarrow> bool" where
  "Contains a method = (case a of None \<Rightarrow> False | Some methods \<Rightarrow> method \<in> set methods)"

definition Methods :: "allowlist option \<Rightarrow> string list" where
  "Methods a = (case a of None \<Rightarrow> [] | Some methods \<Rightarrow> methods)"

definition HealthMethods :: "string list" where
  "HealthMethods = [''/grpc.health.v1.Health/Check'', ''/grpc.health.v1.Health/Watch'']"

section \<open>Recovery\<close>

definition panicMessage :: string where "panicMessage = ''internal error''"

text \<open>
  The field that \<open>Interface\<close> writes: the JSON of the value, of which a string field is shown
  by its characters. A value without exported fields is encoded as the empty object.
\<close>

fun interface_field :: "panic_value \<Rightarrow> string" where
  "interface_field (PanicText t) = t"
| "interface_field (PanicOpaque t) = ''{}''"
| "interface_field (PanicJSON j) = j"

definition logPanic :: "(panic_value \<Rightarrow> string) \<Rightarrow> go_ctx \<Rightarrow> logger \<Rightarrow> string \<Rightarrow> panic_value \<Rightarrow> log_line list" where
  "logPanic stack ctx log method recovered =
     emit log ErrorLevel
       ([(FieldMethod, method), (''panic'', interface_field recovered), (''stack'', stack recovered)]
        @ (let traceID = TraceID ctx in if traceID \<noteq> '''' then [(FieldTraceID, traceID)] else []))
       None ''recovered a panic in a gRPC handler''"

definition Recovery :: "(panic_value \<Rightarrow> string) \<Rightarrow> logger \<Rightarrow> ('q, 'p, 'h) unary_interceptor" where
  "Recovery stack log ctx req method handler w =
     (case handler ctx req w of
        (Panics r, w) \<Rightarrow>
          (Returns None (status_Error CodeInternal panicMessage), write_log (logPanic stack ctx log method r) w)
      | (Returns resp err, w) \<Rightarrow> (Returns resp err, w))"

section \<open>Logging\<close>

definition access_level :: "status_lib \<Rightarrow> go_error option \<Rightarrow> level" where
  "access_level L err =
     (case err of None \<Rightarrow> InfoLevel
      | Some _ \<Rightarrow>
          (if status_Code L err \<in> {CodeInternal, CodeUnknown, CodeDataLoss, CodeUnavailable} then ErrorLevel else WarnLevel))"

definition writeAccessLog :: "status_lib \<Rightarrow> go_ctx \<Rightarrow> string \<Rightarrow> duration \<Rightarrow> go_error option \<Rightarrow> log_line list" where
  "writeAccessLog L ctx method latency err =
     (let code = status_Code L err;
          fields = [(FieldMethod, method), (''code'', code_String code), (''latency'', Itoa latency)];
          peerAddr = PeerAddress ctx;
          fields = (if peerAddr \<noteq> '''' then fields @ [(''peer'', peerAddr)] else fields)
      in emit (Ctx ctx) (access_level L err) fields err ''gRPC call'')"

definition Logging :: "status_lib \<Rightarrow> logger \<Rightarrow> ('q, 'p, 'h) unary_interceptor" where
  "Logging L log ctx req method handler w =
     (let start = sv_now w;
          ctx = WithContext ctx log
      in case handler ctx req w of
           (Panics r, w) \<Rightarrow> (Panics r, w)
         | (Returns resp err, w) \<Rightarrow>
             (Returns resp err, write_log (writeAccessLog L ctx method (sv_now w - start) err) w))"

section \<open>Metrics\<close>

definition Metrics_interceptor :: "status_lib \<Rightarrow> ('q, 'p, 'h) unary_interceptor" where
  "Metrics_interceptor L ctx req method handler w =
     (case RequestStarted method (sv_now w) (sv_metrics w) of (start, reg) \<Rightarrow>
        (case handler ctx req (w\<lparr>sv_metrics := reg\<rparr>) of
           (Panics r, w) \<Rightarrow> (Panics r, w)
         | (Returns resp err, w) \<Rightarrow>
             (Returns resp err, w\<lparr>sv_metrics := finish method start (status_Code L err) (sv_now w) (sv_metrics w)\<rparr>)))"

section \<open>API version\<close>

record 'v semver_lib =
  SV_NewVersion :: "string \<Rightarrow> go_error + 'v"
  SV_LessThan :: "'v \<Rightarrow> 'v \<Rightarrow> bool"
  SV_String :: "'v \<Rightarrow> string"

definition clientTooOld :: "string \<Rightarrow> string \<Rightarrow> go_error" where
  "clientTooOld declared minimum =
     DomainErr (WithMetadata (WithMetadata
       (FailedPrecondition ReasonClientTooOld ''the client API version is no longer supported'')
       ''client_version'' declared) ''minimum_version'' minimum)"

definition passthrough :: "('q, 'p, 'h) unary_interceptor" where
  "passthrough ctx req method handler w = handler ctx req w"

definition version_check :: "'v semver_lib \<Rightarrow> 'v \<Rightarrow> ('q, 'p, 'h) unary_interceptor" where
  "version_check S minimum ctx req method handler w =
     (let declared = First (md_FromContext ctx) MDAPIVersion in
      if declared = '''' then handler ctx req w
      else case SV_NewVersion S declared of
             Inl parseErr \<Rightarrow> (Returns None (Some (clientTooOld declared (SV_String S minimum))), w)
           | Inr clientVersion \<Rightarrow>
               if SV_LessThan S clientVersion minimum
               then (Returns None (Some (clientTooOld declared (SV_String S minimum))), w)
               else handler ctx req w)"

definition APIVersion :: "'v semver_lib \<Rightarrow> string \<Rightarrow> go_error + ('q, 'p, 'h) unary_interceptor" where
  "APIVersion S minVersion =
     (if minVersion = '''' then Inr passthrough
      else case SV_NewVersion S minVersion of Inl err \<Rightarrow> Inl err | Inr minimum \<Rightarrow> Inr (version_check S minimum))"

section \<open>Validation\<close>

record violation =
  vi_field :: string
  vi_rule :: string
  vi_message :: string

text \<open>What the validator returns: the violations it found, or another failure.\<close>

datatype validate_error = ValidationError "violation list" | OtherError go_error

definition describe_violation :: "violation \<Rightarrow> string" where
  "describe_violation v =
     (let path = vi_field v;
          path = (if path = '''' then vi_rule v else path)
      in path @ '': '' @ vi_message v)"

definition invalidArgument :: "validate_error \<Rightarrow> go_error option" where
  "invalidArgument err =
     (case err of
        OtherError e \<Rightarrow> status_Error CodeInvalidArgument ''invalid request''
      | ValidationError violations \<Rightarrow>
          (let fields' = map describe_violation violations
           in status_Error CodeInvalidArgument (''invalid request: '' @ Join fields' ''; '')))"

text \<open>\<open>asMsg\<close> is the type assertion to \<open>proto.Message\<close>.\<close>

definition Validate :: "('q \<Rightarrow> 'm option) \<Rightarrow> ('m \<Rightarrow> validate_error option) \<Rightarrow> ('q, 'p, 'h) unary_interceptor" where
  "Validate asMsg validate ctx req method handler w =
     (case asMsg req of
        None \<Rightarrow> handler ctx req w
      | Some msg \<Rightarrow>
          (case validate msg of
             Some err \<Rightarrow> (Returns None (invalidArgument err), w)
           | None \<Rightarrow> handler ctx req w))"

definition NewValidator :: "(go_error + 'm) \<Rightarrow> go_error + 'm" where
  "NewValidator protovalidate_New =
     (case protovalidate_New of
        Inl err \<Rightarrow> Inl (Errorf ''building the protovalidate validator'' err)
      | Inr validator \<Rightarrow> Inr validator)"

section \<open>Errors\<close>

definition Errors_interceptor :: "status_lib \<Rightarrow> ('q, 'p, 'h) unary_interceptor" where
  "Errors_interceptor L ctx req method handler w =
     (case handler ctx req w of
        (Panics r, w) \<Rightarrow> (Panics r, w)
      | (Returns resp (Some err), w) \<Rightarrow>
          (case ToStatus L ctx (Some err) of (lines, err') \<Rightarrow> (Returns None err', write_log lines w))
      | (Returns resp None, w) \<Rightarrow> (Returns resp None, w))"

section \<open>Streams\<close>

text \<open>A server stream: the transport's part and the context its handler sees.\<close>

record 's server_stream =
  ss_stream :: 's
  ss_Context :: go_ctx

type_synonym ('s, 'h) stream_handler = "'s server_stream \<Rightarrow> 'h srv \<Rightarrow> unit call \<times> 'h srv"
type_synonym ('s, 'h) stream_interceptor =
  "'s server_stream \<Rightarrow> string \<Rightarrow> ('s, 'h) stream_handler \<Rightarrow> 'h srv \<Rightarrow> unit call \<times> 'h srv"

definition RecoveryStream :: "(panic_value \<Rightarrow> string) \<Rightarrow> logger \<Rightarrow> ('s, 'h) stream_interceptor" where
  "RecoveryStream stack log ss method handler w =
     (case handler ss w of
        (Panics r, w) \<Rightarrow>
          (Returns None (status_Error CodeInternal panicMessage), write_log (logPanic stack (ss_Context ss) log method r) w)
      | (Returns u err, w) \<Rightarrow> (Returns u err, w))"

definition contextServerStream :: "'s server_stream \<Rightarrow> go_ctx \<Rightarrow> 's server_stream" where
  "contextServerStream ss ctx = ss\<lparr>ss_Context := ctx\<rparr>"

definition LoggingStream :: "status_lib \<Rightarrow> logger \<Rightarrow> ('s, 'h) stream_interceptor" where
  "LoggingStream L log ss method handler w =
     (let start = sv_now w;
          ctx = WithContext (ss_Context ss) log;
          wrapped = contextServerStream ss ctx
      in case handler wrapped w of
           (Panics r, w) \<Rightarrow> (Panics r, w)
         | (Returns u err, w) \<Rightarrow>
             (Returns u err, write_log (writeAccessLog L ctx method (sv_now w - start) err) w))"

definition MetricsStream :: "status_lib \<Rightarrow> ('s, 'h) stream_interceptor" where
  "MetricsStream L ss method handler w =
     (case RequestStarted method (sv_now w) (sv_metrics w) of (start, reg) \<Rightarrow>
        (case handler ss (w\<lparr>sv_metrics := reg\<rparr>) of
           (Panics r, w) \<Rightarrow> (Panics r, w)
         | (Returns u err, w) \<Rightarrow>
             (Returns u err, w\<lparr>sv_metrics := finish method start (status_Code L err) (sv_now w) (sv_metrics w)\<rparr>)))"

definition ErrorsStream :: "status_lib \<Rightarrow> ('s, 'h) stream_interceptor" where
  "ErrorsStream L ss method handler w =
     (case handler ss w of
        (Panics r, w) \<Rightarrow> (Panics r, w)
      | (Returns u (Some err), w) \<Rightarrow>
          (case ToStatus L (ss_Context ss) (Some err) of (lines, err') \<Rightarrow> (Returns None err', write_log lines w))
      | (Returns u None, w) \<Rightarrow> (Returns None None, w))"

end
