(* ===== verification/Config.thy ===== *)
theory Config
  imports Go_Prelude
begin

text \<open>
  \<open>pkg/config\<close> and \<open>pkg/version\<close>: reading the configuration of a service from the process
  environment and \<open>.env\<close> files, its validation, and the build information. The parser of
  struct tags (\<open>env.Parse\<close>), the validator and the \<open>.env\<close> reader are not code of the
  repository and are arguments of the definitions.
\<close>

section \<open>Environments and the shared fields\<close>

type_synonym environment = string

definition EnvLocal :: environment where "EnvLocal = ''local''"
definition EnvStaging :: environment where "EnvStaging = ''staging''"
definition EnvProduction :: environment where "EnvProduction = ''production''"
definition EnvTest :: environment where "EnvTest = ''test''"

definition IsProduction :: "environment \<Rightarrow> bool" where "IsProduction e = (e = EnvProduction)"
definition IsLocal :: "environment \<Rightarrow> bool" where "IsLocal e = (e = EnvLocal)"

definition config_ErrInvalidConfig :: go_error where
  "config_ErrInvalidConfig = Sentinel ''invalid configuration''"

record base_config =
  bc_ServiceName :: string
  bc_Environment :: environment
  bc_LogLevel :: string
  bc_GRPCPort :: int
  bc_HTTPPort :: int
  bc_ShutdownTimeout :: duration
  bc_GRPCMaxRecvMsgSize :: int
  bc_RequestTimeout :: duration
  bc_MinClientAPIVersion :: string
  bc_OTLPEndpoint :: string
  bc_TraceSampleRatio :: string \<comment> \<open>a float64, by its decimal text\<close>
  bc_SentryDSN :: string

definition addr :: "int \<Rightarrow> string" where
  "addr port = '':'' @ Itoa port"

definition GRPCAddress :: "base_config \<Rightarrow> string" where "GRPCAddress b = addr (bc_GRPCPort b)"
definition HTTPAddress :: "base_config \<Rightarrow> string" where "HTTPAddress b = addr (bc_HTTPPort b)"
definition TracingEnabled :: "base_config \<Rightarrow> bool" where "TracingEnabled b = (bc_OTLPEndpoint b \<noteq> '''')"

section \<open>Loading\<close>

type_synonym process_env = "string \<Rightarrow> string option"

text \<open>\<open>stat\<close> tells whether a file can be examined; \<open>dotenv\<close> is \<open>godotenv.Load\<close>.\<close>

fun loadEnvFiles :: "(string \<Rightarrow> bool) \<Rightarrow> (string \<Rightarrow> process_env \<Rightarrow> process_env) \<Rightarrow> string list \<Rightarrow> process_env \<Rightarrow> process_env" where
  "loadEnvFiles stat dotenv [] env = env"
| "loadEnvFiles stat dotenv (file # files) env =
     (if \<not> stat file then loadEnvFiles stat dotenv files env
      else loadEnvFiles stat dotenv files (dotenv file env))"

section \<open>Validation\<close>

record field_error =
  fe_Field :: string
  fe_Tag :: string
  fe_Param :: string
  fe_Value :: string

text \<open>What the validator answers for a struct.\<close>

datatype validation = Valid | InvalidValidation go_error | ValidationErrors "field_error list" | OtherFailure go_error

text \<open>\<open>strings.Cut\<close> of the tag at the first comma, with the field's name if nothing is before it.\<close>

definition envTagName :: "string \<Rightarrow> string \<Rightarrow> string" where
  "envTagName tag field =
     (let name = takeWhile (\<lambda>c. c \<noteq> CHR '','') tag in if name = '''' then field else name)"

definition explain :: "field_error \<Rightarrow> string" where
  "explain e =
     (if fe_Tag e = ''required'' then ''is required but was not set''
      else if fe_Tag e = ''oneof'' then ''must be one of ['' @ fe_Param e @ ''], got '' @ quote (fe_Value e)
      else if fe_Tag e = ''min'' then ''must be at least '' @ fe_Param e @ '', got '' @ fe_Value e
      else if fe_Tag e = ''max'' then ''must be at most '' @ fe_Param e @ '', got '' @ fe_Value e
      else if fe_Tag e = ''url'' then ''must be a valid URL, got '' @ quote (fe_Value e)
      else if fe_Tag e = ''hostname_port'' then ''must be host:port, got '' @ quote (fe_Value e)
      else if fe_Tag e = ''gte'' then ''must be >= '' @ fe_Param e @ '', got '' @ fe_Value e
      else if fe_Tag e = ''lte'' then ''must be <= '' @ fe_Param e @ '', got '' @ fe_Value e
      else ''failed the '' @ quote (fe_Tag e) @ '' rule, got '' @ fe_Value e)"

definition newline :: string where "newline = [CHR 0x0A]"

definition entry_line :: "field_error \<Rightarrow> string" where
  "entry_line e = ''  - '' @ fe_Field e @ '': '' @ explain e"

fun describe_from :: "bool \<Rightarrow> field_error list \<Rightarrow> string" where
  "describe_from first [] = ''''"
| "describe_from first (e # es) =
     (if first then '''' else newline) @ entry_line e @ describe_from False es"

definition describe :: "field_error list \<Rightarrow> string" where
  "describe errs = describe_from True errs"

text \<open>\<open>validator tagName cfg\<close> is \<open>v.Struct(cfg)\<close> with the naming function registered.\<close>

definition config_Validate :: "((string \<Rightarrow> string \<Rightarrow> string) \<Rightarrow> 'c \<Rightarrow> validation) \<Rightarrow> 'c \<Rightarrow> go_error option" where
  "config_Validate validator cfg =
     (case validator envTagName cfg of
        Valid \<Rightarrow> None
      | InvalidValidation err \<Rightarrow>
          Some (Wrapped (err_text config_ErrInvalidConfig @ '': '' @ err_text err) [config_ErrInvalidConfig, err])
      | OtherFailure err \<Rightarrow>
          Some (Wrapped (err_text config_ErrInvalidConfig @ '': '' @ err_text err) [config_ErrInvalidConfig, err])
      | ValidationErrors errs \<Rightarrow>
          Some (Wrapped (err_text config_ErrInvalidConfig @ '':'' @ newline @ describe errs) [config_ErrInvalidConfig]))"

definition config_Load ::
  "(string \<Rightarrow> bool) \<Rightarrow> (string \<Rightarrow> process_env \<Rightarrow> process_env) \<Rightarrow> (process_env \<Rightarrow> go_error + 'c)
   \<Rightarrow> ((string \<Rightarrow> string \<Rightarrow> string) \<Rightarrow> 'c \<Rightarrow> validation) \<Rightarrow> string list \<Rightarrow> process_env \<Rightarrow> (go_error + 'c) \<times> process_env" where
  "config_Load stat dotenv parse validator envFiles env =
     (let env = loadEnvFiles stat dotenv envFiles env in
      case parse env of
        Inl err \<Rightarrow>
          (Inl (Wrapped (err_text config_ErrInvalidConfig @ '': '' @ err_text err) [config_ErrInvalidConfig, err]), env)
      | Inr cfg \<Rightarrow>
          (case config_Validate validator cfg of
             Some err \<Rightarrow> (Inl err, env)
           | None \<Rightarrow> (Inr cfg, env)))"

section \<open>The build\<close>

record build_info =
  bi_Version :: string
  bi_Commit :: string
  bi_BuildDate :: string
  bi_GoVersion :: string

text \<open>The three linker variables and the Go version \<open>debug.ReadBuildInfo\<close> finds.\<close>

definition version_Get :: "string \<Rightarrow> string \<Rightarrow> string \<Rightarrow> string option \<Rightarrow> build_info" where
  "version_Get version commit buildDate readBuildInfo =
     (let info = \<lparr>bi_Version = version, bi_Commit = commit, bi_BuildDate = buildDate, bi_GoVersion = ''unknown''\<rparr>
      in case readBuildInfo of None \<Rightarrow> info | Some v \<Rightarrow> info\<lparr>bi_GoVersion := v\<rparr>)"

section \<open>Lemmas\<close>

text \<open>What \<open>godotenv.Load\<close> documents: it never changes a variable that is set.\<close>

definition keeps_set :: "(string \<Rightarrow> process_env \<Rightarrow> process_env) \<Rightarrow> bool" where
  "keeps_set dotenv \<longleftrightarrow> (\<forall>file env x v. env x = Some v \<longrightarrow> dotenv file env x = Some v)"

lemma loadEnvFiles_keeps:
  "keeps_set dotenv \<Longrightarrow> env x = Some v \<Longrightarrow> loadEnvFiles stat dotenv files env x = Some v"
  by (induction files arbitrary: env) (auto simp: keeps_set_def)

lemma loadEnvFiles_append:
  "loadEnvFiles stat dotenv (fs @ gs) env = loadEnvFiles stat dotenv gs (loadEnvFiles stat dotenv fs env)"
  by (induction fs arbitrary: env) auto

lemma sublist_within: "sublist x y \<Longrightarrow> sublist x (p @ y @ q)"
  by (metis sublist_appendI sublist_order.order.trans)

lemma sublist_describe: "e \<in> set errs \<Longrightarrow> sublist (entry_line e) (describe_from b errs)"
proof (induction errs arbitrary: b)
  case (Cons a es)
  then consider "e = a" | "sublist (entry_line e) (describe_from False es)" by auto
  then show ?case
  proof cases
    case 1 then show ?thesis by (simp add: sublist_appendI del: append_assoc)
  next
    case 2 then show ?thesis using sublist_within [of _ "describe_from False es" "(if b then [] else newline) @ entry_line a" "[]"] by simp
  qed
qed simp

section \<open>Properties\<close>

text \<open>
  C39. Loading is all or nothing: the service gets the parsed configuration exactly if it parses
  and passes validation, and every failure is an \<open>ErrInvalidConfig\<close>. When validation
  fails on its rules, the message has a line for every offending variable. When the environment
  does not parse, the error carries the parser's message and nothing else: validation does not
  run, and the variables it would reject are not named. A variable set in the process
  environment keeps its value whatever the files say, and an earlier file wins over a later one.
\<close>

theorem Load_all_or_nothing:
  assumes "keeps_set dotenv"
  shows "case config_Load stat dotenv parse validator files env of (res, env') \<Rightarrow>
      (\<forall>x v. env x = Some v \<longrightarrow> env' x = Some v)
    \<and> (\<forall>fs gs x v. files = fs @ gs \<and> loadEnvFiles stat dotenv fs env x = Some v \<longrightarrow> env' x = Some v)
    \<and> (\<forall>cfg. res = Inr cfg \<longleftrightarrow> parse env' = Inr cfg \<and> validator envTagName cfg = Valid)
    \<and> (\<forall>err. res = Inl err \<longrightarrow> errors_Is err config_ErrInvalidConfig)
    \<and> (\<forall>cfg errs e. parse env' = Inr cfg \<and> validator envTagName cfg = ValidationErrors errs \<and> e \<in> set errs \<longrightarrow>
         (\<exists>err. res = Inl err \<and> sublist (entry_line e) (err_text err)))
    \<and> (\<forall>perr. parse env' = Inl perr \<longrightarrow>
         (\<exists>err. res = Inl err \<and> errors_Is err perr \<and> err_text err = err_text config_ErrInvalidConfig @ '': '' @ err_text perr)
         \<and> (\<forall>other. config_Load stat dotenv parse other files env = (res, env')))"
proof -
  let ?env = "loadEnvFiles stat dotenv files env"
  have keep: "env x = Some v \<Longrightarrow> ?env x = Some v" for x v by (rule loadEnvFiles_keeps [OF assms])
  have earlier: "files = fs @ gs \<Longrightarrow> loadEnvFiles stat dotenv fs env x = Some v \<Longrightarrow> ?env x = Some v" for fs gs x v
    using loadEnvFiles_keeps [OF assms, of "loadEnvFiles stat dotenv fs env" x v stat gs] by (simp add: loadEnvFiles_append)
  have line: "e \<in> set errs \<Longrightarrow> sublist (entry_line e) (err_text config_ErrInvalidConfig @ '':'' @ newline @ describe errs)" for e errs
    using sublist_within [OF sublist_describe [of e errs True], of "err_text config_ErrInvalidConfig @ '':'' @ newline" "[]"]
    by (simp add: describe_def)
  show ?thesis
  proof (cases "parse ?env")
    case (Inl err)
    then show ?thesis using keep earlier
      by (auto simp: config_Load_def Let_def config_ErrInvalidConfig_def)
  next
    case (Inr cfg)
    then show ?thesis using keep earlier line
      by (cases "validator envTagName cfg")
        (auto simp: config_Load_def config_Validate_def Let_def config_ErrInvalidConfig_def)
  qed
qed

theorem Load_all_or_nothing_witness:
  "snd (config_Load (\<lambda>f. f = ''.env'') (\<lambda>f env. (\<lambda>x. case env x of None \<Rightarrow> Some ''from file'' | Some v \<Rightarrow> Some v))
      (\<lambda>env. Inr (env ''LOG_LEVEL'')) (\<lambda>tag c. Valid) [''.env''] [''LOG_LEVEL'' \<mapsto> ''debug'']) ''LOG_LEVEL'' = Some ''debug''"
proof -
  let ?d = "\<lambda>f env. (\<lambda>x. case env x of None \<Rightarrow> Some ''from file'' | Some v \<Rightarrow> Some v)"
  have "keeps_set ?d" by (simp add: keeps_set_def)
  from Load_all_or_nothing [OF this, where stat = "\<lambda>f. f = ''.env''" and parse = "\<lambda>env. Inr (env ''LOG_LEVEL'')"
      and validator = "\<lambda>tag c. Valid" and files = "[''.env'']" and env = "[''LOG_LEVEL'' \<mapsto> ''debug'']"]
  show ?thesis by (auto split: prod.splits)
qed

end
