(* ===== verification/Grpc_Server.thy ===== *)
theory Grpc_Server
  imports Grpc_Interceptors Config
begin

text \<open>
  \<open>pkg/grpcserver\<close>: the assembly of the interceptor chain, the server built on it, and its
  life cycle. The gRPC runtime is not code of the repository; \<open>chain_unary\<close> and
  \<open>chain_stream\<close> are its documented composition (the first interceptor is the outermost), and
  the answers of its \<open>Serve\<close> and of the listener are arguments.
\<close>

section \<open>Configuration\<close>

definition DefaultShutdownTimeout :: duration where "DefaultShutdownTimeout = 15 * Second"
definition DefaultMaxRecvMsgSize :: int where "DefaultMaxRecvMsgSize = 4 * 1024 * 1024"

record grpc_config =
  gc_Address :: string
  gc_Environment :: environment
  gc_Logger :: logger
  gc_Metrics :: bool \<comment> \<open>whether a registry is given; its values are part of the state\<close>
  gc_MaxRecvMsgSize :: int
  gc_ShutdownTimeout :: duration
  gc_MinClientAPIVersion :: string
  gc_PublicMethods :: "allowlist option"

record ('q, 'p, 'h) dependencies =
  dp_RateLimiter :: "('q, 'p, 'h) unary_interceptor option"
  dp_Authenticator :: "('q, 'p, 'h) unary_interceptor option"
  dp_Authorizer :: "('q, 'p, 'h) unary_interceptor option"
  dp_Extra :: "('q, 'p, 'h) unary_interceptor list"

definition gc_withDefaults :: "grpc_config \<Rightarrow> grpc_config" where
  "gc_withDefaults c =
     (let c = (if gc_ShutdownTimeout c \<le> 0 then c\<lparr>gc_ShutdownTimeout := DefaultShutdownTimeout\<rparr> else c);
          c = (if gc_MaxRecvMsgSize c \<le> 0 then c\<lparr>gc_MaxRecvMsgSize := DefaultMaxRecvMsgSize\<rparr> else c)
      in c)"

text \<open>The libraries the links are built from.\<close>

record ('q, 'm, 'v) grpc_libs =
  gl_status :: status_lib
  gl_semver :: "'v semver_lib"
  gl_asMsg :: "'q \<Rightarrow> 'm option"
  gl_protovalidate :: "go_error + ('m \<Rightarrow> validate_error option)" \<comment> \<open>the result of \<open>protovalidate.New\<close>\<close>
  gl_stack :: "panic_value \<Rightarrow> string"

section \<open>The chain\<close>

fun option_list :: "'a option \<Rightarrow> 'a list" where
  "option_list None = []"
| "option_list (Some x) = [x]"

definition buildUnaryChain ::
  "('q, 'm, 'v) grpc_libs \<Rightarrow> grpc_config \<Rightarrow> ('q, 'p, 'h) dependencies \<Rightarrow> go_error + ('q, 'p, 'h) unary_interceptor list" where
  "buildUnaryChain L cfg deps =
     (let chain = [Recovery (gl_stack L) (gc_Logger cfg), Logging (gl_status L) (gc_Logger cfg)];
          chain = (if gc_Metrics cfg then chain @ [Metrics_interceptor (gl_status L)] else chain)
      in case APIVersion (gl_semver L) (gc_MinClientAPIVersion cfg) of
           Inl err \<Rightarrow>
             Inl (Errorf (''MIN_CLIENT_API_VERSION '' @ quote (gc_MinClientAPIVersion cfg) @ '' is not valid semver'') err)
         | Inr apiVersion \<Rightarrow>
             (let chain = chain @ [apiVersion];
                  chain = chain @ option_list (dp_RateLimiter deps);
                  chain = chain @ option_list (dp_Authenticator deps);
                  chain = chain @ option_list (dp_Authorizer deps)
              in case NewValidator (gl_protovalidate L) of
                   Inl err \<Rightarrow> Inl err
                 | Inr validator \<Rightarrow>
                     (let chain = chain @ [Validate (gl_asMsg L) validator];
                          chain = chain @ [Errors_interceptor (gl_status L)]
                      in Inr (chain @ dp_Extra deps))))"

definition buildStreamChain :: "('q, 'm, 'v) grpc_libs \<Rightarrow> grpc_config \<Rightarrow> ('s, 'h) stream_interceptor list" where
  "buildStreamChain L cfg =
     (let chain = [RecoveryStream (gl_stack L) (gc_Logger cfg), LoggingStream (gl_status L) (gc_Logger cfg)];
          chain = (if gc_Metrics cfg then chain @ [MetricsStream (gl_status L)] else chain)
      in chain @ [ErrorsStream (gl_status L)])"

text \<open>\<open>grpc.ChainUnaryInterceptor\<close> and its streaming counterpart.\<close>

fun chain_unary :: "('q, 'p, 'h) unary_interceptor list \<Rightarrow> string \<Rightarrow> ('q, 'p, 'h) unary_handler \<Rightarrow> ('q, 'p, 'h) unary_handler" where
  "chain_unary [] method handler = handler"
| "chain_unary (i # is) method handler = (\<lambda>ctx req w. i ctx req method (chain_unary is method handler) w)"

fun chain_stream :: "('s, 'h) stream_interceptor list \<Rightarrow> string \<Rightarrow> ('s, 'h) stream_handler \<Rightarrow> ('s, 'h) stream_handler" where
  "chain_stream [] method handler = handler"
| "chain_stream (i # is) method handler = (\<lambda>ss w. i ss method (chain_stream is method handler) w)"

section \<open>The server\<close>

definition ErrShutdownForced :: go_error where
  "ErrShutdownForced = Sentinel ''graceful shutdown exceeded its timeout and was forced''"

datatype serving = SERVICE_UNKNOWN | SERVING | NOT_SERVING

record ('q, 'p, 'h, 's) grpc_server =
  gs_cfg :: grpc_config
  gs_unary :: "('q, 'p, 'h) unary_interceptor list"
  gs_stream :: "('s, 'h) stream_interceptor list"
  gs_maxRecv :: int
  gs_keepalive :: "(string \<times> duration) list"
  gs_permitWithoutStream :: bool
  gs_statsHandler :: bool \<comment> \<open>whether the tracing of otelgrpc is installed\<close>
  gs_reflection :: bool
  gs_health :: serving
  gs_listener :: "string option" \<comment> \<open>the bound address\<close>
  gs_stopped :: bool

definition grpc_New :: "('q, 'm, 'v) grpc_libs \<Rightarrow> grpc_config \<Rightarrow> ('q, 'p, 'h) dependencies \<Rightarrow> go_error + ('q, 'p, 'h, 's) grpc_server" where
  "grpc_New L cfg deps =
     (let cfg = gc_withDefaults cfg in
      case buildUnaryChain L cfg deps of
        Inl err \<Rightarrow> Inl err
      | Inr unary \<Rightarrow>
          Inr \<lparr>gs_cfg = cfg, gs_unary = unary, gs_stream = buildStreamChain L cfg, gs_maxRecv = gc_MaxRecvMsgSize cfg,
               gs_keepalive = [(''MaxConnectionIdle'', 5 * Minute), (''Time'', 2 * Minute), (''Timeout'', 20 * Second),
                               (''MinTime'', 30 * Second)],
               gs_permitWithoutStream = True, gs_statsHandler = True,
               gs_reflection = \<not> IsProduction (gc_Environment cfg),
               gs_health = SERVING, gs_listener = None, gs_stopped = False\<rparr>)"

definition grpc_Address :: "('q, 'p, 'h, 's) grpc_server \<Rightarrow> string" where
  "grpc_Address s = (case gs_listener s of None \<Rightarrow> gc_Address (gs_cfg s) | Some a \<Rightarrow> a)"

text \<open>\<open>listen\<close> is the answer of the operating system for an address.\<close>

definition grpc_Listen :: "(string \<Rightarrow> go_error + string) \<Rightarrow> ('q, 'p, 'h, 's) grpc_server \<Rightarrow> go_error option \<times> ('q, 'p, 'h, 's) grpc_server" where
  "grpc_Listen listen s =
     (case listen (gc_Address (gs_cfg s)) of
        Inl err \<Rightarrow> (Some (Errorf (''listening on '' @ gc_Address (gs_cfg s)) err), s)
      | Inr bound \<Rightarrow> (None, s\<lparr>gs_listener := Some bound\<rparr>))"

definition grpc_ErrServerStopped :: go_error where
  "grpc_ErrServerStopped = Sentinel ''grpc: the server has been stopped''"

text \<open>\<open>served\<close> is what the runtime's \<open>Serve\<close> returns when it ends.\<close>

definition grpc_Serve ::
  "(string \<Rightarrow> go_error + string) \<Rightarrow> go_error option \<Rightarrow> ('q, 'p, 'h, 's) grpc_server \<Rightarrow> go_error option \<times> ('q, 'p, 'h, 's) grpc_server" where
  "grpc_Serve listen served s =
     (case (if gs_listener s = None then grpc_Listen listen s else (None, s)) of
        (Some err, s) \<Rightarrow> (Some err, s)
      | (None, s) \<Rightarrow>
          (let s = s\<lparr>gs_health := SERVING\<rparr> in
           case served of
             None \<Rightarrow> (None, s)
           | Some err \<Rightarrow>
               if \<not> errors_Is err grpc_ErrServerStopped then (Some (Errorf ''serving gRPC'' err), s) else (None, s)))"

text \<open>Which case of the \<open>select\<close> is taken.\<close>

datatype drain = Drained | TimedOut | CtxDone go_error

text \<open>\<open>fmt\<close> renders the timeout.\<close>

definition grpc_Shutdown ::
  "(duration \<Rightarrow> string) \<Rightarrow> drain \<Rightarrow> ('q, 'p, 'h, 's) grpc_server \<Rightarrow> go_error option \<times> ('q, 'p, 'h, 's) grpc_server" where
  "grpc_Shutdown fmt ev s =
     (let s = s\<lparr>gs_health := NOT_SERVING\<rparr> in
      case ev of
        Drained \<Rightarrow> (None, s\<lparr>gs_stopped := True\<rparr>)
      | TimedOut \<Rightarrow>
          (Some (Wrapped (err_text ErrShutdownForced @ '' after '' @ fmt (gc_ShutdownTimeout (gs_cfg s))) [ErrShutdownForced]),
           s\<lparr>gs_stopped := True\<rparr>)
      | CtxDone err \<Rightarrow> (Some err, s\<lparr>gs_stopped := True\<rparr>))"

text \<open>One call: the chain of the server around the handler the service registered.\<close>

definition serve_call :: "('q, 'p, 'h, 's) grpc_server \<Rightarrow> string \<Rightarrow> ('q, 'p, 'h) unary_handler \<Rightarrow> ('q, 'p, 'h) unary_handler" where
  "serve_call s method handler = chain_unary (gs_unary s) method handler"

section \<open>Lemmas\<close>

lemma chain_unary_append [simp]:
  "chain_unary (xs @ ys) method h = chain_unary xs method (chain_unary ys method h)"
  by (induction xs) auto

lemma gc_withDefaults_simps [simp]:
  "gc_Logger (gc_withDefaults c) = gc_Logger c" "gc_Metrics (gc_withDefaults c) = gc_Metrics c"
  "gc_MinClientAPIVersion (gc_withDefaults c) = gc_MinClientAPIVersion c"
  "gc_Environment (gc_withDefaults c) = gc_Environment c"
  by (simp_all add: gc_withDefaults_def Let_def)

text \<open>The chain of a server that was built, link by link.\<close>

lemma grpc_New_chain:
  assumes "grpc_New L cfg deps = Inr s"
  obtains api validator where
    "APIVersion (gl_semver L) (gc_MinClientAPIVersion cfg) = Inr api" "gl_protovalidate L = Inr validator"
    "gs_unary s = [Recovery (gl_stack L) (gc_Logger cfg), Logging (gl_status L) (gc_Logger cfg)]
       @ (if gc_Metrics cfg then [Metrics_interceptor (gl_status L)] else []) @ [api]
       @ option_list (dp_RateLimiter deps) @ option_list (dp_Authenticator deps) @ option_list (dp_Authorizer deps)
       @ [Validate (gl_asMsg L) validator, Errors_interceptor (gl_status L)] @ dp_Extra deps"
  using assms
  by (auto simp: grpc_New_def buildUnaryChain_def NewValidator_def Let_def split: sum.splits)


lemma sv_write_log [simp]:
  "sv_app (write_log ls w) = sv_app w" "sv_metrics (write_log ls w) = sv_metrics w"
  "sv_now (write_log ls w) = sv_now w" "sv_log (write_log ls w) = sv_log w @ ls"
  by (simp_all add: write_log_def)

text \<open>What lets a call through to the handler: the version the client declares, and the request.\<close>

definition version_ok :: "('q, 'm, 'v) grpc_libs \<Rightarrow> grpc_config \<Rightarrow> go_ctx \<Rightarrow> bool" where
  "version_ok L cfg ctx \<longleftrightarrow>
     gc_MinClientAPIVersion cfg = '''' \<or> First (md_FromContext ctx) MDAPIVersion = ''''
     \<or> (case (SV_NewVersion (gl_semver L) (gc_MinClientAPIVersion cfg), SV_NewVersion (gl_semver L) (First (md_FromContext ctx) MDAPIVersion)) of
          (Inr minimum, Inr client) \<Rightarrow> \<not> SV_LessThan (gl_semver L) client minimum
        | _ \<Rightarrow> False)"

definition violations_of :: "('q, 'm, 'v) grpc_libs \<Rightarrow> 'q \<Rightarrow> validate_error option" where
  "violations_of L req = (case (gl_asMsg L req, gl_protovalidate L) of (Some msg, Inr validate) \<Rightarrow> validate msg | _ \<Rightarrow> None)"

definition too_old_error :: "('q, 'm, 'v) grpc_libs \<Rightarrow> grpc_config \<Rightarrow> go_ctx \<Rightarrow> go_error" where
  "too_old_error L cfg ctx = clientTooOld (First (md_FromContext ctx) MDAPIVersion)
     (case SV_NewVersion (gl_semver L) (gc_MinClientAPIVersion cfg) of Inr minimum \<Rightarrow> SV_String (gl_semver L) minimum | Inl _ \<Rightarrow> '''')"

lemma md_FromContext_WithContext [simp]: "md_FromContext (WithContext ctx lg) = md_FromContext ctx"
  by (simp add: md_FromContext_def WithContext_def)

lemma version_ok_WithContext [simp]: "version_ok L cfg (WithContext ctx lg) = version_ok L cfg ctx"
  by (simp add: version_ok_def)

lemma too_old_WithContext [simp]: "too_old_error L cfg (WithContext ctx lg) = too_old_error L cfg ctx"
  by (simp add: too_old_error_def)

lemma APIVersion_step:
  assumes "APIVersion (gl_semver L) (gc_MinClientAPIVersion cfg) = Inr api"
  shows "api ctx req method h w =
    (if version_ok L cfg ctx then h ctx req w else (Returns None (Some (too_old_error L cfg ctx)), w))"
  using assms
  by (auto simp: APIVersion_def passthrough_def version_check_def version_ok_def too_old_error_def Let_def
      split: if_splits sum.splits)

lemma Validate_step:
  assumes "gl_protovalidate L = Inr validator"
  shows "Validate (gl_asMsg L) validator ctx req method h w =
    (case violations_of L req of Some err \<Rightarrow> (Returns None (invalidArgument err), w) | None \<Rightarrow> h ctx req w)"
  using assms by (auto simp: Validate_def violations_of_def split: option.split)

text \<open>The links below \<open>Logging\<close> and \<open>Metrics\<close> when no optional link is configured.\<close>

definition core_call ::
  "('q, 'm, 'v) grpc_libs \<Rightarrow> grpc_config \<Rightarrow> string \<Rightarrow> ('q, 'p, 'h) unary_handler \<Rightarrow> ('q, 'p, 'h) unary_handler" where
  "core_call L cfg method h ctx req w =
     (if \<not> version_ok L cfg ctx then (Returns None (Some (too_old_error L cfg ctx)), w)
      else case violations_of L req of
             Some err \<Rightarrow> (Returns None (invalidArgument err), w)
           | None \<Rightarrow> Errors_interceptor (gl_status L) ctx req method h w)"

definition no_optional :: "('q, 'p, 'h) dependencies" where
  "no_optional = \<lparr>dp_RateLimiter = None, dp_Authenticator = None, dp_Authorizer = None, dp_Extra = []\<rparr>"

lemma serve_call_standard:
  assumes "grpc_New L cfg no_optional = Inr s"
  shows "serve_call s method h ctx req w =
    Recovery (gl_stack L) (gc_Logger cfg) ctx req method (\<lambda>ctx req w. Logging (gl_status L) (gc_Logger cfg) ctx req method
      (if gc_Metrics cfg then (\<lambda>ctx req w. Metrics_interceptor (gl_status L) ctx req method (core_call L cfg method h) w)
       else core_call L cfg method h) w) w"
proof -
  obtain api validator where api: "APIVersion (gl_semver L) (gc_MinClientAPIVersion cfg) = Inr api"
    and val: "gl_protovalidate L = Inr validator"
    and chain: "gs_unary s = [Recovery (gl_stack L) (gc_Logger cfg), Logging (gl_status L) (gc_Logger cfg)]
       @ (if gc_Metrics cfg then [Metrics_interceptor (gl_status L)] else []) @ [api]
       @ [Validate (gl_asMsg L) validator, Errors_interceptor (gl_status L)]"
    using grpc_New_chain [OF assms] by (auto simp: no_optional_def)
  have core: "(\<lambda>ctx req w. api ctx req method (\<lambda>ctx req w. Validate (gl_asMsg L) validator ctx req method
      (\<lambda>ctx req w. Errors_interceptor (gl_status L) ctx req method h w) w) w) = core_call L cfg method h"
    by (auto simp: fun_eq_iff core_call_def APIVersion_step [OF api] Validate_step [OF val] split: option.split)
  show ?thesis using core by (simp add: serve_call_def chain)
qed

section \<open>Properties\<close>

text \<open>The answer for an error a handler returned, and the state its call starts in.\<close>

definition started :: "grpc_config \<Rightarrow> string \<Rightarrow> 'h srv \<Rightarrow> 'h srv" where
  "started cfg method w = (if gc_Metrics cfg then w\<lparr>sv_metrics := snd (RequestStarted method (sv_now w) (sv_metrics w))\<rparr> else w)"

fun client_answer :: "status_lib \<Rightarrow> go_ctx \<Rightarrow> 'p call \<Rightarrow> 'p call" where
  "client_answer L ctx (Panics r) = Returns None (status_Error CodeInternal panicMessage)"
| "client_answer L ctx (Returns resp None) = Returns resp None"
| "client_answer L ctx (Returns resp (Some err)) = Returns None (snd (ToStatus L ctx (Some err)))"

lemma standard_call:
  assumes "grpc_New L cfg no_optional = Inr s"
  shows "fst (serve_call s method h ctx req w) =
       (if \<not> version_ok L cfg ctx then Returns None (Some (too_old_error L cfg ctx))
        else case violations_of L req of
               Some err \<Rightarrow> Returns None (invalidArgument err)
             | None \<Rightarrow> client_answer (gl_status L) (WithContext ctx (gc_Logger cfg))
                        (fst (h (WithContext ctx (gc_Logger cfg)) req (started cfg method w))))"
    and "sv_app (snd (serve_call s method h ctx req w)) =
       (if version_ok L cfg ctx \<and> violations_of L req = None
        then sv_app (snd (h (WithContext ctx (gc_Logger cfg)) req (started cfg method w))) else sv_app w)"
  by (auto simp: serve_call_standard [OF assms] Recovery_def Logging_def Metrics_interceptor_def core_call_def
      Errors_interceptor_def started_def RequestStarted_def Let_def split: prod.split call.split option.split)

text \<open>
  C11. What a service built with the standard chain answers: a client that declares a version
  below the minimum (or one that cannot be read) gets CLIENT_TOO_OLD, an invalid request gets
  INVALID_ARGUMENT, and the handler runs exactly if neither is the case, once, with the logger
  in its context; its error reaches the client only through \<open>ToStatus\<close>, and its panic only as
  a bare internal error.
\<close>

theorem handler_runs_iff_admitted:
  assumes "grpc_New L cfg no_optional = Inr s"
  shows "fst (serve_call s method h ctx req w) =
       (if \<not> version_ok L cfg ctx then Returns None (Some (too_old_error L cfg ctx))
        else case violations_of L req of
               Some err \<Rightarrow> Returns None (invalidArgument err)
             | None \<Rightarrow> client_answer (gl_status L) (WithContext ctx (gc_Logger cfg))
                        (fst (h (WithContext ctx (gc_Logger cfg)) req (started cfg method w))))
     \<and> sv_app (snd (serve_call s method h ctx req w)) =
       (if version_ok L cfg ctx \<and> violations_of L req = None
        then sv_app (snd (h (WithContext ctx (gc_Logger cfg)) req (started cfg method w))) else sv_app w)"
  using standard_call [OF assms] by blast


lemma core_call_metrics:
  assumes "\<And>ctx req w. sv_metrics (snd (h ctx req w)) = sv_metrics w"
  shows "sv_metrics (snd (core_call L cfg m h ctx req w)) = sv_metrics w"
  using assms [of ctx req w]
  by (auto simp: core_call_def Errors_interceptor_def split: prod.split call.split option.split)

lemma RequestStarted_gauge:
  "mt_inFlight (finish m start code now (snd (RequestStarted m t r))) = mt_inFlight r"
  "mt_requests (finish m start code now (snd (RequestStarted m t r))) =
     (mt_requests r)((m, codeLabel code) := mt_requests r (m, codeLabel code) + 1)"
  by (auto simp: finish_def RequestStarted_def Let_def fun_eq_iff)

text \<open>
  The log of a call before its last line: what the handler wrote, and what the translation of its
  error wrote; nothing if the call was turned away.
\<close>

definition log_of_handler ::
  "('q, 'm, 'v) grpc_libs \<Rightarrow> grpc_config \<Rightarrow> string \<Rightarrow> ('q, 'p, 'h) unary_handler \<Rightarrow> go_ctx \<Rightarrow> 'q \<Rightarrow> 'h srv \<Rightarrow> log_line list" where
  "log_of_handler L cfg method h ctx req w =
     (if \<not> version_ok L cfg ctx \<or> violations_of L req \<noteq> None then sv_log w
      else let ctx' = WithContext ctx (gc_Logger cfg) in
           case h ctx' req (started cfg method w) of
             (Returns resp (Some err), w1) \<Rightarrow> sv_log w1 @ fst (ToStatus (gl_status L) ctx' (Some err))
           | (_, w1) \<Rightarrow> sv_log w1)"

text \<open>Whether the call ends in a panic of its handler.\<close>

definition panics ::
  "('q, 'm, 'v) grpc_libs \<Rightarrow> grpc_config \<Rightarrow> string \<Rightarrow> ('q, 'p, 'h) unary_handler \<Rightarrow> go_ctx \<Rightarrow> 'q \<Rightarrow> 'h srv \<Rightarrow> bool" where
  "panics L cfg method h ctx req w \<longleftrightarrow> version_ok L cfg ctx \<and> violations_of L req = None
     \<and> (case fst (h (WithContext ctx (gc_Logger cfg)) req (started cfg method w)) of Panics r \<Rightarrow> True | Returns resp err \<Rightarrow> False)"

lemma core_call_log:
  "sv_log (snd (core_call L cfg method h (WithContext ctx (gc_Logger cfg)) req (started cfg method w)))
     = log_of_handler L cfg method h ctx req w"
  "(\<exists>r. fst (core_call L cfg method h (WithContext ctx (gc_Logger cfg)) req (started cfg method w)) = Panics r)
     = panics L cfg method h ctx req w"
  by (auto simp: core_call_def log_of_handler_def panics_def Errors_interceptor_def started_def Let_def
      split: prod.splits call.splits option.splits)

text \<open>
  C38. Calls are accounted for, panics are not. With metrics on and a handler that leaves the
  collectors alone: when the handler does not panic (or does not run), the in-flight gauges are
  back where they were, the counter of the method and of the code the client sees has gone up by
  one and no other, and the log has exactly one more line than what the handler and its error
  wrote, the access line with that code. When the handler panics, the gauge of the method stays
  one up, no request is counted, and the one more line is not an access line but that of the panic.
\<close>

theorem calls_accounted:
  assumes "grpc_New L cfg no_optional = Inr s" "gc_Metrics cfg" "lg_level (gc_Logger cfg) \<le> InfoLevel"
    and keeps: "\<And>ctx req w. sv_metrics (snd (h ctx req w)) = sv_metrics w"
  shows "\<exists>resp err line. fst (serve_call s method h ctx req w) = Returns resp err
    \<and> (let code = status_Code (gl_status L) err; w' = snd (serve_call s method h ctx req w);
            before = sv_metrics w; after = sv_metrics w' in
         sv_log w' = log_of_handler L cfg method h ctx req w @ [line]
       \<and> (if panics L cfg method h ctx req w
          then mt_inFlight after = (mt_inFlight before)(method := mt_inFlight before method + 1)
             \<and> mt_requests after = mt_requests before
             \<and> line_msg line = ''recovered a panic in a gRPC handler''
          else mt_inFlight after = mt_inFlight before
             \<and> mt_requests after = (mt_requests before)((method, codeLabel code) := mt_requests before (method, codeLabel code) + 1)
             \<and> line_msg line = ''gRPC call''
             \<and> {(FieldMethod, method), (''code'', code_String code)} \<subseteq> set (line_fields line)))"
proof -
  let ?ctx = "WithContext ctx (gc_Logger cfg)" and ?w0 = "started cfg method w"
  obtain res w1 where core: "core_call L cfg method h ?ctx req ?w0 = (res, w1)" by (cases "core_call L cfg method h ?ctx req ?w0")
  have log: "sv_log w1 = log_of_handler L cfg method h ctx req w" "(\<exists>r. res = Panics r) = panics L cfg method h ctx req w"
    using core core_call_log [of L cfg "method" h ctx req w] by simp_all
  have m: "sv_metrics w1 = snd (RequestStarted method (sv_now w) (sv_metrics w))"
    using core_call_metrics [where h = h and L = L and cfg = cfg and m = "method" and ctx = ?ctx and req = req and w = ?w0, OF keeps] core
      assms(2) by (simp add: started_def)
  have w0: "?w0 = w\<lparr>sv_metrics := snd (RequestStarted method (sv_now w) (sv_metrics w))\<rparr>" using assms(2) by (simp add: started_def)
  note run = serve_call_standard [OF assms(1)] Recovery_def Logging_def Metrics_interceptor_def Let_def RequestStarted_def
  show ?thesis
  proof (cases res)
    case (Panics r)
    then have "serve_call s method h ctx req w =
        (Returns None (status_Error CodeInternal panicMessage), write_log (logPanic (gl_stack L) ctx (gc_Logger cfg) method r) w1)"
      using core assms(2) by (simp add: run w0)
    moreover have "\<not> ErrorLevel < lg_level (gc_Logger cfg)" using assms(3) by (auto simp: less_eq_level_def less_level_def)
    ultimately show ?thesis using Panics log m by (simp add: Let_def logPanic_def emit_def RequestStarted_def)
  next
    case (Returns resp err)
    have lv: "access_level (gl_status L) err \<ge> InfoLevel" by (auto simp: access_level_def less_eq_level_def split: option.split)
    have call: "serve_call s method h ctx req w =
        (Returns resp err, write_log (writeAccessLog (gl_status L) ?ctx method (sv_now w1 - sv_now w) err)
          (w1\<lparr>sv_metrics := finish method (sv_now w) (status_Code (gl_status L) err) (sv_now w1) (sv_metrics w1)\<rparr>))"
      using core assms(2) Returns by (simp add: run w0)
    have "\<not> access_level (gl_status L) err < lg_level (Ctx ?ctx)" using lv assms(3) by auto
    then show ?thesis using Returns log by (simp add: call m RequestStarted_gauge Let_def writeAccessLog_def emit_def)
  qed
qed

text \<open>
  Who is not authenticated learns nothing about request shapes: if the authenticator turns
  a caller away without looking at the request, the answer and the effects of the call are the
  same for every two requests, valid or not.
\<close>

theorem unauthenticated_cannot_probe:
  assumes "grpc_New L cfg deps = Inr s" "dp_RateLimiter deps = None" "dp_Authenticator deps = Some auth"
    and "\<And>ctx' req m next w'. ctx_md ctx' = ctx_md ctx \<Longrightarrow> auth ctx' req m next w' = (Returns None (Some denied), w')"
  shows "serve_call s method h ctx req w = serve_call s method h ctx req' w"
proof -
  obtain api validator where api: "APIVersion (gl_semver L) (gc_MinClientAPIVersion cfg) = Inr api"
    and chain: "gs_unary s = [Recovery (gl_stack L) (gc_Logger cfg), Logging (gl_status L) (gc_Logger cfg)]
       @ (if gc_Metrics cfg then [Metrics_interceptor (gl_status L)] else []) @ [api, auth]
       @ option_list (dp_Authorizer deps) @ [Validate (gl_asMsg L) validator, Errors_interceptor (gl_status L)] @ dp_Extra deps"
    by (rule grpc_New_chain [OF assms(1)], rule that) (use assms(2,3) in simp_all)
  have "ctx_md (WithContext ctx lg) = ctx_md ctx" for lg by (simp add: WithContext_def)
  then show ?thesis
    by (simp add: serve_call_def chain Recovery_def Logging_def Metrics_interceptor_def APIVersion_step [OF api] assms(4) Let_def
        cong: if_cong)
qed

text \<open>
  Shutting down: on every outcome the server has stopped taking calls and reports
  NOT_SERVING; the error is none exactly if the calls in flight were drained, and says that the
  stop was forced exactly if the time ran out.
\<close>

theorem Shutdown_always_stops:
  assumes "\<And>e. ev = CtxDone e \<Longrightarrow> \<not> errors_Is e ErrShutdownForced"
  shows "case grpc_Shutdown fmt ev s of (err, s') \<Rightarrow>
     gs_stopped s' \<and> gs_health s' = NOT_SERVING \<and> (err = None \<longleftrightarrow> ev = Drained)
     \<and> ((\<exists>e. err = Some e \<and> errors_Is e ErrShutdownForced) \<longleftrightarrow> ev = TimedOut)"
  using assms by (cases ev) (auto simp: grpc_Shutdown_def Let_def ErrShutdownForced_def)

section \<open>The properties at work\<close>

definition demo_libs :: "(nat, nat, nat) grpc_libs" where
  "demo_libs = \<lparr>gl_status = plain_status_lib,
     gl_semver = \<lparr>SV_NewVersion = \<lambda>s. if s = ''1.0.0'' then Inr 1 else if s = ''2.0.0'' then Inr 2 else Inl (Sentinel ''invalid semantic version''),
       SV_LessThan = \<lambda>a b. a < b, SV_String = \<lambda>v. digits10 v @ ''.0.0''\<rparr>,
     gl_asMsg = Some,
     gl_protovalidate = Inr (\<lambda>n. if n = 0 then Some (ValidationError [\<lparr>vi_field = ''id'', vi_rule = ''required'', vi_message = ''value is required''\<rparr>]) else None),
     gl_stack = \<lambda>r. ''goroutine 1''\<rparr>"

definition demo_grpc_config :: grpc_config where
  "demo_grpc_config = \<lparr>gc_Address = '':9090'', gc_Environment = EnvProduction, gc_Logger = \<lparr>lg_level = InfoLevel, lg_sinks = [], lg_fields = []\<rparr>,
     gc_Metrics = True, gc_MaxRecvMsgSize = 0, gc_ShutdownTimeout = 0, gc_MinClientAPIVersion = ''2.0.0'', gc_PublicMethods = None\<rparr>"

definition demo_srv :: "nat srv" where
  "demo_srv = \<lparr>sv_log = [], sv_metrics = metrics_NewRegistry ''tours'', sv_now = 0, sv_app = 0\<rparr>"

definition demo_call_ctx :: "string \<Rightarrow> go_ctx" where
  "demo_call_ctx v = background\<lparr>ctx_md := Some [(MDAPIVersion, [v])], ctx_span := \<lparr>span_trace_id = ''4bf9'', span_span_id = ''00f0'', span_valid = True\<rparr>\<rparr>"

definition demo_count :: "(nat, nat, nat) unary_handler" where
  "demo_count ctx req w = (Returns (Some req) None, w\<lparr>sv_app := sv_app w + 1\<rparr>)"


definition demo_auth :: "(nat, nat, nat) unary_interceptor" where
  "demo_auth ctx req m next w = (Returns None (Some (DomainErr (Unauthenticated ''NO_TOKEN'' ''no token''))), w)"

lemma demo_New: "\<exists>s. grpc_New demo_libs demo_grpc_config deps = Inr s"
  by (simp add: grpc_New_def buildUnaryChain_def APIVersion_def NewValidator_def demo_libs_def demo_grpc_config_def Let_def gc_withDefaults_def)

lemma demo_too_old: "\<not> version_ok demo_libs demo_grpc_config (demo_call_ctx ''1.0.0'')"
  by (simp add: version_ok_def demo_libs_def demo_grpc_config_def demo_call_ctx_def md_FromContext_def First_def MDAPIVersion_def ToLower_def lower_char_def)

theorem handler_runs_iff_admitted_witness:
  "\<exists>s :: (nat, nat, nat, unit) grpc_server. grpc_New demo_libs demo_grpc_config no_optional = Inr s
     \<and> sv_app (snd (serve_call s ''/tours/Get'' demo_count (demo_call_ctx ''1.0.0'') 7 demo_srv)) = 0"
proof -
  obtain s :: "(nat, nat, nat, unit) grpc_server" where s: "grpc_New demo_libs demo_grpc_config no_optional = Inr s"
    using demo_New by blast
  with handler_runs_iff_admitted [OF s, of "''/tours/Get''" demo_count "demo_call_ctx ''1.0.0''" 7 demo_srv] demo_too_old
  show ?thesis by (auto simp: demo_srv_def)
qed


theorem calls_accounted_witness:
  "\<exists>s :: (nat, nat, nat, unit) grpc_server. grpc_New demo_libs demo_grpc_config no_optional = Inr s
     \<and> mt_inFlight (sv_metrics (snd (serve_call s ''/tours/Get'' demo_count (demo_call_ctx ''1.0.0'') 7 demo_srv))) ''/tours/Get'' = 0"
proof -
  obtain s :: "(nat, nat, nat, unit) grpc_server" where s: "grpc_New demo_libs demo_grpc_config no_optional = Inr s"
    using demo_New by blast
  have "gc_Metrics demo_grpc_config" "lg_level (gc_Logger demo_grpc_config) \<le> InfoLevel" by (simp_all add: demo_grpc_config_def)
  from calls_accounted [OF s this, of demo_count "''/tours/Get''" "demo_call_ctx ''1.0.0''" 7 demo_srv] s show ?thesis
    by (auto simp: panics_def demo_too_old demo_count_def demo_srv_def metrics_NewRegistry_def Let_def)
qed

theorem unauthenticated_cannot_probe_witness:
  "\<exists>s :: (nat, nat, nat, unit) grpc_server. grpc_New demo_libs demo_grpc_config (no_optional\<lparr>dp_Authenticator := Some demo_auth\<rparr>) = Inr s
     \<and> serve_call s ''/tours/Get'' demo_count (demo_call_ctx ''2.0.0'') 0 demo_srv = serve_call s ''/tours/Get'' demo_count (demo_call_ctx ''2.0.0'') 7 demo_srv"
proof -
  obtain s :: "(nat, nat, nat, unit) grpc_server" where s: "grpc_New demo_libs demo_grpc_config (no_optional\<lparr>dp_Authenticator := Some demo_auth\<rparr>) = Inr s"
    using demo_New by blast
  with unauthenticated_cannot_probe [OF s, of demo_auth "demo_call_ctx ''2.0.0''" "DomainErr (Unauthenticated ''NO_TOKEN'' ''no token'')" "''/tours/Get''" demo_count 0 demo_srv 7]
  show ?thesis by (auto simp: no_optional_def demo_auth_def)
qed

theorem Shutdown_always_stops_witness:
  "\<exists>s s' :: (nat, nat, nat, unit) grpc_server. grpc_New demo_libs demo_grpc_config no_optional = Inr s
     \<and> snd (grpc_Shutdown (\<lambda>d. ''15s'') TimedOut s) = s' \<and> gs_stopped s' \<and> gs_health s' = NOT_SERVING"
proof -
  obtain s :: "(nat, nat, nat, unit) grpc_server" where "grpc_New demo_libs demo_grpc_config no_optional = Inr s"
    using demo_New by blast
  with Shutdown_always_stops [of TimedOut "\<lambda>d. ''15s''" s] show ?thesis by (auto split: prod.splits)
qed

end
