(* ===== verification/Http_Server.thy ===== *)
theory Http_Server
  imports Health Logging "HOL-Library.Monad_Syntax"
begin

text \<open>
  \<open>pkg/httpserver\<close>: the header matcher and the registration of the REST gateway, and the
  HTTP server with its routes. \<open>http.ServeMux\<close> is the standard library's: a route is a
  plain path, one that ends in a slash covers its subtree, the longest one wins, and registering
  a path twice panics (\<open>None\<close>). The gateway runtime and the operating system's answers are
  arguments.
\<close>

section \<open>Gateway\<close>

definition forwardedHeaders :: "string list" where
  "forwardedHeaders = [''authorization'', ''x-device-id'', ''x-app-version'', ''x-api-version'', ''x-platform'',
     ''accept-language'', ''traceparent'', ''tracestate'']"

text \<open>\<open>dflt\<close> is \<open>runtime.DefaultHeaderMatcher\<close>; \<open>None\<close> is a header that is dropped.\<close>

definition headerMatcher :: "(string \<Rightarrow> string option) \<Rightarrow> string \<Rightarrow> string option" where
  "headerMatcher dflt header =
     (let normalized = ToLower header in
      if normalized \<in> set forwardedHeaders then Some normalized else dflt header)"

record marshaler_options =
  mo_UseProtoNames :: bool
  mo_EmitUnpopulated :: bool
  mo_DiscardUnknown :: bool

record gateway_mux =
  gm_matcher :: "string \<Rightarrow> string option"
  gm_marshaler :: marshaler_options
  gm_handlers :: "string list"

definition NewGatewayMux :: "(string \<Rightarrow> string option) \<Rightarrow> gateway_mux" where
  "NewGatewayMux dflt =
     \<lparr>gm_matcher = headerMatcher dflt,
      gm_marshaler = \<lparr>mo_UseProtoNames = False, mo_EmitUnpopulated = True, mo_DiscardUnknown = False\<rparr>,
      gm_handlers = []\<rparr>"

definition DialGRPC :: "(string \<Rightarrow> go_error + 'conn) \<Rightarrow> string \<Rightarrow> go_error + 'conn" where
  "DialGRPC newClient target =
     (case newClient target of
        Inl err \<Rightarrow> Inl (Errorf (''connecting the gateway to the gRPC server at '' @ target) err)
      | Inr conn \<Rightarrow> Inr conn)"

fun RegisterGateways :: "gateway_mux \<Rightarrow> 'conn \<Rightarrow> (gateway_mux \<Rightarrow> 'conn \<Rightarrow> go_error option \<times> gateway_mux) list \<Rightarrow> go_error option \<times> gateway_mux" where
  "RegisterGateways mux conn [] = (None, mux)"
| "RegisterGateways mux conn (fn # fns) =
     (case fn mux conn of
        (Some err, mux) \<Rightarrow> (Some (Errorf ''registering a gateway handler'' err), mux)
      | (None, mux) \<Rightarrow> RegisterGateways mux conn fns)"

section \<open>Routes\<close>

datatype 'x route = LivenessRoute string string | ReadinessRoute registry | MetricsRoute | GatewayRoute gateway_mux | ExtraRoute 'x

type_synonym 'x mux = "(string \<times> 'x route) list"

definition mux_Handle :: "string \<Rightarrow> 'x route \<Rightarrow> 'x mux \<Rightarrow> 'x mux option" where
  "mux_Handle path h m = (if path \<in> fst ` set m then None else Some (m @ [(path, h)]))"

definition covers :: "string \<Rightarrow> string \<Rightarrow> bool" where
  "covers path request \<longleftrightarrow> request = path \<or> (HasSuffix path ''/'' \<and> HasPrefix request path)"

fun mux_best :: "string \<Rightarrow> 'x mux \<Rightarrow> (string \<times> 'x route) option" where
  "mux_best request [] = None"
| "mux_best request ((path, h) # m) =
     (case mux_best request m of
        None \<Rightarrow> if covers path request then Some (path, h) else None
      | Some (path', h') \<Rightarrow> if covers path request \<and> length path > length path' then Some (path, h) else Some (path', h'))"

definition mux_match :: "string \<Rightarrow> 'x mux \<Rightarrow> 'x route option" where
  "mux_match request m = map_option snd (mux_best request m)"

section \<open>The server\<close>

definition PathAPI :: string where "PathAPI = ''/v1/''"
definition PathLiveness :: string where "PathLiveness = ''/livez''"
definition PathReadiness :: string where "PathReadiness = ''/readyz''"
definition PathMetrics :: string where "PathMetrics = ''/metrics''"

definition defaultReadHeaderTimeout :: duration where "defaultReadHeaderTimeout = 10 * Second"
definition defaultReadTimeout :: duration where "defaultReadTimeout = 30 * Second"
definition defaultWriteTimeout :: duration where "defaultWriteTimeout = 60 * Second"
definition defaultIdleTimeout :: duration where "defaultIdleTimeout = 120 * Second"

definition ErrHealthRegistryRequired :: go_error where
  "ErrHealthRegistryRequired = Sentinel ''httpserver: a health registry is required''"

record 'x http_config =
  hc_Address :: string
  hc_ServiceName :: string
  hc_Version :: string
  hc_Logger :: logger
  hc_Gateway :: "gateway_mux option"
  hc_Health :: "registry option"
  hc_Metrics :: bool
  hc_Extra :: "(string \<times> 'x) list" \<comment> \<open>in the order the map is walked\<close>
  hc_ShutdownTimeout :: duration

record 'x http_server =
  hs_cfg :: "'x http_config"
  hs_handler :: "'x mux"
  hs_timeouts :: "duration list"
  hs_listener :: "string option"

fun mount_extra :: "(string \<times> 'x) list \<Rightarrow> 'x mux \<Rightarrow> 'x mux option" where
  "mount_extra [] m = Some m"
| "mount_extra ((path, h) # es) m =
     (case mux_Handle path (ExtraRoute h) m of None \<Rightarrow> None | Some m \<Rightarrow> mount_extra es m)"

definition http_New :: "'x http_config \<Rightarrow> (go_error + 'x http_server) option" where
  "http_New cfg =
     (case hc_Health cfg of
        None \<Rightarrow> Some (Inl ErrHealthRegistryRequired)
      | Some health \<Rightarrow>
          (let cfg = (if hc_ShutdownTimeout cfg \<le> 0 then cfg\<lparr>hc_ShutdownTimeout := 15 * Second\<rparr> else cfg) in
           do {
             mux \<leftarrow> mux_Handle PathLiveness (LivenessRoute (hc_ServiceName cfg) (hc_Version cfg)) [];
             mux \<leftarrow> mux_Handle PathReadiness (ReadinessRoute health) mux;
             mux \<leftarrow> (if hc_Metrics cfg then mux_Handle PathMetrics MetricsRoute mux else Some mux);
             mux \<leftarrow> (case hc_Gateway cfg of None \<Rightarrow> Some mux | Some g \<Rightarrow> mux_Handle PathAPI (GatewayRoute g) mux);
             mux \<leftarrow> mount_extra (hc_Extra cfg) mux;
             Some (Inr \<lparr>hs_cfg = cfg, hs_handler = mux,
                        hs_timeouts = [defaultReadHeaderTimeout, defaultReadTimeout, defaultWriteTimeout, defaultIdleTimeout],
                        hs_listener = None\<rparr>)
           }))"

definition http_Address :: "'x http_server \<Rightarrow> string" where
  "http_Address s = (case hs_listener s of None \<Rightarrow> hc_Address (hs_cfg s) | Some a \<Rightarrow> a)"

definition http_Listen :: "(string \<Rightarrow> go_error + string) \<Rightarrow> 'x http_server \<Rightarrow> go_error option \<times> 'x http_server" where
  "http_Listen listen s =
     (case listen (hc_Address (hs_cfg s)) of
        Inl err \<Rightarrow> (Some (Errorf (''listening on '' @ hc_Address (hs_cfg s)) err), s)
      | Inr bound \<Rightarrow> (None, s\<lparr>hs_listener := Some bound\<rparr>))"

definition http_ErrServerClosed :: go_error where
  "http_ErrServerClosed = Sentinel ''http: Server closed''"

definition http_Serve :: "(string \<Rightarrow> go_error + string) \<Rightarrow> go_error option \<Rightarrow> 'x http_server \<Rightarrow> go_error option \<times> 'x http_server" where
  "http_Serve listen served s =
     (case (if hs_listener s = None then http_Listen listen s else (None, s)) of
        (Some err, s) \<Rightarrow> (Some err, s)
      | (None, s) \<Rightarrow>
          (case served of
             None \<Rightarrow> (None, s)
           | Some err \<Rightarrow>
               if \<not> errors_Is err http_ErrServerClosed then (Some (Errorf ''serving HTTP'' err), s) else (None, s)))"

text \<open>\<open>drain\<close> is what \<open>http.Server.Shutdown\<close> returns under the timeout it is given.\<close>

definition http_Shutdown :: "(duration \<Rightarrow> go_error option) \<Rightarrow> 'x http_server \<Rightarrow> go_error option" where
  "http_Shutdown drain s =
     (case drain (hc_ShutdownTimeout (hs_cfg s)) of
        Some err \<Rightarrow> Some (Errorf ''shutting down HTTP'' err)
      | None \<Rightarrow> None)"

section \<open>Lemmas\<close>

lemma mux_Handle_Some: "mux_Handle p h m = Some m' \<longleftrightarrow> p \<notin> fst ` set m \<and> m' = m @ [(p, h)]"
  by (auto simp: mux_Handle_def)

lemma mount_extra_Some: "mount_extra es m = Some m' \<Longrightarrow> m' = m @ map (\<lambda>(p, h). (p, ExtraRoute h)) es"
  by (induction es m rule: mount_extra.induct) (auto simp: mux_Handle_def split: option.splits if_splits)

lemma mount_extra_distinct: "mount_extra es m = Some m' \<Longrightarrow> distinct (map fst m) \<Longrightarrow> distinct (map fst m')"
  by (induction es m rule: mount_extra.induct) (auto simp: mux_Handle_def split: option.splits if_splits)

text \<open>An exact route is at least as long as any that covers the request.\<close>

lemma covers_length: "covers p request \<Longrightarrow> length p \<le> length request \<and> (length p = length request \<longrightarrow> p = request)"
  by (auto simp: covers_def HasPrefix_prefix prefix_length_le dest: prefix_length_le) (metis prefix_def append_Nil2 append_eq_append_conv)

lemma mux_best_covers: "mux_best request m = Some (p, h) \<Longrightarrow> covers p request \<and> (p, h) \<in> set m"
  by (induction m arbitrary: p h rule: mux_best.induct) (auto split: option.splits if_splits)

lemma mux_best_exact:
  assumes "distinct (map fst m)" "(request, h) \<in> set m"
  shows "mux_best request m = Some (request, h)"
  using assms
proof (induction m)
  case (Cons e m)
  obtain p h' where e: "e = (p, h')" by (cases e)
  show ?case
  proof (cases "p = request")
    case True
    then have h: "h' = h" using Cons.prems e by (auto simp: image_iff)
    have "request \<notin> fst ` set m" using Cons.prems(1) e True by simp
    then have "length q < length request" if "mux_best request m = Some (q, k)" for q k
      using mux_best_covers [OF that] covers_length [of q request] by (force simp: image_iff)
    then show ?thesis using True h by (auto simp: e covers_def split: option.split)
  next
    case False
    then have "mux_best request m = Some (request, h)" using Cons e by auto
    then show ?thesis using False covers_length [of p request] by (auto simp: e)
  qed
qed simp

lemma http_New_mux:
  assumes "http_New cfg = Some (Inr s)"
  obtains health where "hc_Health cfg = Some health"
    "hs_handler s = [(PathLiveness, LivenessRoute (hc_ServiceName cfg) (hc_Version cfg)), (PathReadiness, ReadinessRoute health)]
       @ (if hc_Metrics cfg then [(PathMetrics, MetricsRoute)] else [])
       @ (case hc_Gateway cfg of None \<Rightarrow> [] | Some g \<Rightarrow> [(PathAPI, GatewayRoute g)])
       @ map (\<lambda>(p, h). (p, ExtraRoute h)) (hc_Extra cfg)"
    "distinct (map fst (hs_handler s))"
proof -
  obtain health where h: "hc_Health cfg = Some health"
    using assms by (auto simp: http_New_def split: option.splits)
  let ?base = "[(PathLiveness, LivenessRoute (hc_ServiceName cfg) (hc_Version cfg)), (PathReadiness, ReadinessRoute health)]
       @ (if hc_Metrics cfg then [(PathMetrics, MetricsRoute)] else [])
       @ (case hc_Gateway cfg of None \<Rightarrow> [] | Some g \<Rightarrow> [(PathAPI, GatewayRoute g)])"
  have paths: "PathLiveness \<noteq> PathReadiness" "PathLiveness \<noteq> PathMetrics" "PathLiveness \<noteq> PathAPI"
    "PathReadiness \<noteq> PathMetrics" "PathReadiness \<noteq> PathAPI" "PathMetrics \<noteq> PathAPI"
    by (simp_all add: PathLiveness_def PathReadiness_def PathMetrics_def PathAPI_def)
  have m: "mount_extra (hc_Extra cfg) ?base = Some (hs_handler s)"
    using assms h paths by (auto simp: http_New_def mux_Handle_def Let_def split: option.splits if_splits bind_splits)
  have "distinct (map fst ?base)" using paths by (auto split: option.split)
  then show thesis using that [OF h] mount_extra_Some [OF m] mount_extra_distinct [OF m] by (metis append_assoc)
qed

section \<open>Properties\<close>

text \<open>
  Every server that could be built can be probed: \<open>/livez\<close> and \<open>/readyz\<close> are
  answered by the health package, \<open>/metrics\<close> is there if metrics are, each extra handler
  answers at its own path, and a request under \<open>/v1/\<close> that no extra path covers goes to the
  gateway. Without a health registry no server is built.
\<close>

theorem operational_routes_served:
  assumes "http_New cfg = Some (Inr s)"
  shows "(\<exists>health. hc_Health cfg = Some health \<and> mux_match PathReadiness (hs_handler s) = Some (ReadinessRoute health))
    \<and> mux_match PathLiveness (hs_handler s) = Some (LivenessRoute (hc_ServiceName cfg) (hc_Version cfg))
    \<and> (hc_Metrics cfg \<longrightarrow> mux_match PathMetrics (hs_handler s) = Some MetricsRoute)
    \<and> (\<forall>(p, h)\<in>set (hc_Extra cfg). mux_match p (hs_handler s) = Some (ExtraRoute h))
    \<and> (\<forall>g rest. hc_Gateway cfg = Some g \<and> (\<forall>p\<in>fst ` set (hc_Extra cfg). \<not> covers p (PathAPI @ rest))
         \<longrightarrow> mux_match (PathAPI @ rest) (hs_handler s) = Some (GatewayRoute g))"
proof -
  obtain health where health: "hc_Health cfg = Some health"
    and mux: "hs_handler s = [(PathLiveness, LivenessRoute (hc_ServiceName cfg) (hc_Version cfg)), (PathReadiness, ReadinessRoute health)]
       @ (if hc_Metrics cfg then [(PathMetrics, MetricsRoute)] else [])
       @ (case hc_Gateway cfg of None \<Rightarrow> [] | Some g \<Rightarrow> [(PathAPI, GatewayRoute g)])
       @ map (\<lambda>(p, h). (p, ExtraRoute h)) (hc_Extra cfg)"
    and dist: "distinct (map fst (hs_handler s))"
    using http_New_mux [OF assms] .
  have exact: "mux_match p (hs_handler s) = Some h" if "(p, h) \<in> set (hs_handler s)" for p h
    using mux_best_exact [OF dist that] by (simp add: mux_match_def)
  have "mux_match (PathAPI @ rest) (hs_handler s) = Some (GatewayRoute g)"
    if g: "hc_Gateway cfg = Some g" and none: "\<forall>p\<in>fst ` set (hc_Extra cfg). \<not> covers p (PathAPI @ rest)" for g rest
  proof -
    have "\<not> covers p (PathAPI @ rest)" if "p \<in> {PathLiveness, PathReadiness, PathMetrics}" for p
      using that by (auto simp: covers_def PathAPI_def PathLiveness_def PathReadiness_def PathMetrics_def HasPrefix_def)
    then have only: "covers p (PathAPI @ rest) \<Longrightarrow> (p, h) \<in> set (hs_handler s) \<Longrightarrow> h = GatewayRoute g" for p h
      using none g by (auto simp: mux image_iff split: if_splits)
    have api: "covers PathAPI (PathAPI @ rest)" "(PathAPI, GatewayRoute g) \<in> set (hs_handler s)"
      using g HasPrefix_append [of PathAPI rest] by (auto simp: covers_def PathAPI_def HasSuffix_def mux)
    have "mux_best r m \<noteq> None" if "covers p r" "(p, h) \<in> set m" for p r h and m :: "'a mux"
      using that by (induction m) (auto split: option.splits)
    then obtain p h where best: "mux_best (PathAPI @ rest) (hs_handler s) = Some (p, h)" using api by fastforce
    then show ?thesis using mux_best_covers [OF best] only by (auto simp: mux_match_def)
  qed
  moreover have "(PathReadiness, ReadinessRoute health) \<in> set (hs_handler s)"
    "(PathLiveness, LivenessRoute (hc_ServiceName cfg) (hc_Version cfg)) \<in> set (hs_handler s)"
    "hc_Metrics cfg \<Longrightarrow> (PathMetrics, MetricsRoute) \<in> set (hs_handler s)"
    "(p, h) \<in> set (hc_Extra cfg) \<Longrightarrow> (p, ExtraRoute h) \<in> set (hs_handler s)" for p h
    by (auto simp: mux image_iff intro: rev_bexI)
  ultimately show ?thesis using exact health by blast
qed

definition demo_http_config :: "nat http_config" where
  "demo_http_config = \<lparr>hc_Address = '':8080'', hc_ServiceName = ''identity'', hc_Version = ''dev'', hc_Logger = Nop,
     hc_Gateway = Some (NewGatewayMux (\<lambda>h. None)), hc_Health = Some (NewRegistry ''identity'' ''dev''), hc_Metrics = True,
     hc_Extra = [(''/.well-known/jwks.json'', 1)], hc_ShutdownTimeout = 0\<rparr>"

theorem operational_routes_served_witness:
  "\<exists>s. http_New demo_http_config = Some (Inr s) \<and> mux_match ''/v1/identity/health'' (hs_handler s) = Some (GatewayRoute (NewGatewayMux (\<lambda>h. None)))"
proof -
  obtain s where s: "http_New demo_http_config = Some (Inr s)"
    by (simp add: demo_http_config_def http_New_def mux_Handle_def Let_def PathLiveness_def PathReadiness_def PathMetrics_def PathAPI_def)
  have "\<forall>p\<in>fst ` set (hc_Extra demo_http_config). \<not> covers p (PathAPI @ ''identity/health'')"
    by (simp add: demo_http_config_def covers_def PathAPI_def HasPrefix_def)
  moreover have "hc_Gateway demo_http_config = Some (NewGatewayMux (\<lambda>h. None))" by (simp add: demo_http_config_def)
  ultimately have "mux_match (PathAPI @ ''identity/health'') (hs_handler s) = Some (GatewayRoute (NewGatewayMux (\<lambda>h. None)))"
    using operational_routes_served [OF s] by blast
  then show ?thesis using s by (simp add: PathAPI_def)
qed

text \<open>
  The runtime documents that its matcher forwards a header \<open>Grpc-Metadata-k\<close> as the
  metadata key \<open>k\<close>. The fallback of \<open>headerMatcher\<close> inherits that, so a client can set
  any metadata key, listed or not.
\<close>

lemma metadata_header_forwarded:
  assumes "\<And>k. dflt (''Grpc-Metadata-'' @ k) = Some k"
  shows "headerMatcher dflt (''Grpc-Metadata-'' @ k) = Some k"
proof -
  have "take 5 (ToLower (''Grpc-Metadata-'' @ k)) = ''grpc-''" by (simp add: ToLower_def) code_simp
  moreover have "\<forall>h\<in>set forwardedHeaders. take 5 h \<noteq> ''grpc-''" by (simp add: forwardedHeaders_def)
  ultimately have "ToLower (''Grpc-Metadata-'' @ k) \<notin> set forwardedHeaders" by metis
  then show ?thesis using assms by (simp add: headerMatcher_def Let_def)
qed

end
