(* ===== verification/Tracing.thy ===== *)
theory Tracing
  imports Go_Prelude
begin

text \<open>
  \<open>pkg/observability/tracing\<close>: installing the global propagator and tracer provider. The
  OpenTelemetry SDK is a parameter: what its exporter and resource constructors answer. The globals it
  keeps are the state.
\<close>

record tracing_options =
  to_ServiceName :: string
  to_ServiceVersion :: string
  to_Environment :: string
  to_Endpoint :: string
  to_SampleRatio :: string \<comment> \<open>a float64, by its text\<close>
  to_Insecure :: bool

datatype exporter_option = WithEndpoint string | WithInsecure

record ('x, 'r) otel_sdk =
  ot_NewExporter :: "exporter_option list \<Rightarrow> go_error + 'x"
  ot_NewResource :: "(string \<times> string) list \<Rightarrow> 'r \<times> go_error option" \<comment> \<open>a partial resource comes with an error\<close>

text \<open>A provider: none yet, the one that produces no spans, or one that batches to an exporter.\<close>

datatype ('x, 'r) provider = NoProvider | NoopProvider | BatchProvider 'x 'r duration string

record ('x, 'r) otel_globals =
  og_propagator :: "string list"
  og_provider :: "('x, 'r) provider"

datatype shutdown_fn = NoopShutdown | ProviderShutdown

definition ErrSchemaURLConflict :: go_error where
  "ErrSchemaURLConflict = Sentinel ''conflicting Schema URL''"

definition newExporter :: "('x, 'r) otel_sdk \<Rightarrow> tracing_options \<Rightarrow> go_error + 'x" where
  "newExporter sdk opts =
     (let exporterOpts = [WithEndpoint (to_Endpoint opts)] @ (if to_Insecure opts then [WithInsecure] else []) in
      case ot_NewExporter sdk exporterOpts of
        Inl err \<Rightarrow> Inl (Errorf (''building the OTLP exporter for '' @ quote (to_Endpoint opts)) err)
      | Inr exporter \<Rightarrow> Inr exporter)"

definition newResource :: "('x, 'r) otel_sdk \<Rightarrow> tracing_options \<Rightarrow> go_error + 'r" where
  "newResource sdk opts =
     (case ot_NewResource sdk [(''service.name'', to_ServiceName opts), (''service.version'', to_ServiceVersion opts),
             (''deployment.environment'', to_Environment opts)] of
        (res, Some err) \<Rightarrow>
          if \<not> errors_Is err ErrSchemaURLConflict then Inl (Errorf ''building the trace resource'' err) else Inr res
      | (res, None) \<Rightarrow> Inr res)"

definition tracing_Setup ::
  "('x, 'r) otel_sdk \<Rightarrow> tracing_options \<Rightarrow> ('x, 'r) otel_globals \<Rightarrow> (go_error + shutdown_fn) \<times> ('x, 'r) otel_globals" where
  "tracing_Setup sdk opts g0 =
     (let g = g0\<lparr>og_propagator := [''tracecontext'', ''baggage'']\<rparr> in
      if to_Endpoint opts = '''' then (Inr NoopShutdown, g\<lparr>og_provider := NoopProvider\<rparr>)
      else (case newExporter sdk opts of
              Inl err \<Rightarrow> (Inl err, g)
            | Inr exporter \<Rightarrow>
                (case newResource sdk opts of
                   Inl err \<Rightarrow> (Inl err, g)
                 | Inr res \<Rightarrow>
                     (Inr ProviderShutdown, g\<lparr>og_provider := BatchProvider exporter res (5 * Second) (to_SampleRatio opts)\<rparr>))))"

text \<open>
  However the setup ends, the service forwards the trace it received: the propagator is
  installed on every path, errors included. A provider is installed exactly when there is no
  error, a schema conflict of the resource is not one, and without an endpoint no library call can
  fail the start.
\<close>

theorem tracing_always_propagates:
  "og_propagator (snd (tracing_Setup sdk opts g)) = [''tracecontext'', ''baggage'']
   \<and> ((\<exists>sh. fst (tracing_Setup sdk opts g) = Inr sh) \<longleftrightarrow> to_Endpoint opts = []
        \<or> (\<exists>x r. newExporter sdk opts = Inr x \<and> newResource sdk opts = Inr r))
   \<and> ((\<exists>err. fst (tracing_Setup sdk opts g) = Inl err) \<longrightarrow> og_provider (snd (tracing_Setup sdk opts g)) = og_provider g)"
  by (auto simp: tracing_Setup_def Let_def split: sum.splits)

end
