(* ===== verification/Identity.thy ===== *)
theory Identity
  imports Outbox_Repository Amqp_Broker Cache Jwt Bootstrap Grpc_Server Http_Server Tracing "HOL-Library.Multiset"
begin

text \<open>
  The identity service: its business layer (the event recorder and the health ping), the
  readiness checks of its dependencies, and the composition of \<open>cmd/server/main.go\<close>. The
  other services are in \<open>Services\<close>.

  What the composition gets from outside (the driver, the Redis client, the tracing SDK, the sockets,
  the gateway runtime) is a record of the answers it gives; the dependencies are opened, and
  stopped, by the definitions of the component theories, on one state of the process.
\<close>

section \<open>Business layer\<close>

definition ErrMissingUserID :: go_error where
  "ErrMissingUserID = Sentinel ''the user id is empty''"

text \<open>
  \<open>json.Marshal\<close> of a map of strings, with the entries in key order. The bytes of
  multi-byte characters are kept (valid UTF-8 other than U+2028 and U+2029).
\<close>

definition json_char :: "char \<Rightarrow> string" where
  "json_char c =
     (if c = CHR 0x22 \<or> c = CHR 0x5C then [CHR 0x5C, c]
      else if c = CHR 0x08 then [CHR 0x5C, CHR ''b''] else if c = CHR 0x0C then [CHR 0x5C, CHR ''f'']
      else if c = CHR 0x0A then [CHR 0x5C, CHR ''n''] else if c = CHR 0x0D then [CHR 0x5C, CHR ''r'']
      else if c = CHR 0x09 then [CHR 0x5C, CHR ''t'']
      else if (of_char c :: nat) < 32 \<or> c \<in> {CHR ''<'', CHR ''>'', CHR ''&''}
      then [CHR 0x5C] @ ''u00'' @ [hex_digit (of_char c div 16), hex_digit (of_char c mod 16)]
      else [c])"

definition json_text :: "string \<Rightarrow> string" where
  "json_text s = [CHR 0x22] @ concat (map json_char s) @ [CHR 0x22]"

definition mustPayload :: "(string \<times> string) list \<Rightarrow> bytes" where
  "mustPayload entries = ''{'' @ Join (map (\<lambda>(k, v). json_text k @ '':'' @ json_text v) entries) '','' @ ''}''"

definition RecordUserRegistered :: "string \<Rightarrow> pg \<Rightarrow> go_error option \<times> pg" where
  "RecordUserRegistered userID db =
     (if userID = '''' then (Some (Errorf ''recording user.registered'' ErrMissingUserID), db)
      else case repo_Insert \<lparr>noe_Aggregate = ''user'', noe_AggregateID = userID,
                             noe_RoutingKey = RoutingKeyUserRegistered,
                             noe_Payload = mustPayload [(''user_id'', userID)]\<rparr> db of
             (Inl err, db) \<Rightarrow> (Some (Errorf (''recording user.registered for '' @ userID) err), db)
           | (Inr _, db) \<Rightarrow> (None, db))"

record ping_info =
  pi_Service :: string
  pi_Version :: string
  pi_Commit :: string
  pi_ServerTime :: timestamp

definition Ping :: "string \<Rightarrow> build_info \<Rightarrow> timestamp \<Rightarrow> go_error + ping_info" where
  "Ping serviceName info now =
     Inr \<lparr>pi_Service = serviceName, pi_Version = bi_Version info, pi_Commit = bi_Commit info, pi_ServerTime = now\<rparr>"

definition HealthPing :: "string \<Rightarrow> build_info \<Rightarrow> ('q, ping_info, 'h) unary_handler" where
  "HealthPing serviceName info ctx req w =
     (case Ping serviceName info (sv_now w) of
        Inl err \<Rightarrow> (Returns None (Some err), w)
      | Inr i \<Rightarrow> (Returns (Some i) None, w))"

section \<open>Readiness of the dependencies\<close>

definition db_Ping :: "(duration \<Rightarrow> go_error option \<times> duration) \<Rightarrow> duration \<Rightarrow> go_error option \<times> duration" where
  "db_Ping pool timeout =
     (case pool timeout of
        (Some err, took) \<Rightarrow> (Some (Errorf ''pinging the database'' err), took)
      | (None, took) \<Rightarrow> (None, took))"

definition db_HealthCheck :: "(duration \<Rightarrow> go_error option \<times> duration) \<Rightarrow> check" where
  "db_HealthCheck pool = \<lparr>ck_Name = ''postgres'', ck_Probe = db_Ping pool, ck_Critical = True\<rparr>"

definition amqp_HealthCheck :: "connection \<Rightarrow> broker \<Rightarrow> duration \<Rightarrow> check" where
  "amqp_HealthCheck cn b took = \<lparr>ck_Name = ''amqp'', ck_Probe = \<lambda>timeout. (amqp_Ping cn b, took), ck_Critical = True\<rparr>"

section \<open>The connection pool\<close>

text \<open>
  \<open>Close\<close> releases the pool of an opened database; \<open>close\<close> is the pool's own. \<open>Stats\<close> and
  \<open>LogStats\<close> report its counters; the logger writes the fields of a map in the order of their keys.
\<close>

definition db_Close :: "('p \<Rightarrow> 'w \<Rightarrow> 'w) \<Rightarrow> 'p option \<Rightarrow> 'w \<Rightarrow> 'w" where
  "db_Close close pool w = (case pool of None \<Rightarrow> w | Some p \<Rightarrow> close p w)"

record pool_stat =
  pst_AcquiredConns :: int
  pst_IdleConns :: int
  pst_TotalConns :: int
  pst_MaxConns :: int
  pst_AcquireCount :: int
  pst_EmptyAcquireCount :: int
  pst_CanceledAcquireCount :: int

definition db_Stats :: "pool_stat \<Rightarrow> (string \<times> int) list" where
  "db_Stats stats =
     [(''acquire_count'', pst_AcquireCount stats), (''acquired'', pst_AcquiredConns stats),
      (''canceled_acquire'', pst_CanceledAcquireCount stats), (''empty_acquires'', pst_EmptyAcquireCount stats),
      (''idle'', pst_IdleConns stats), (''max'', pst_MaxConns stats), (''total'', pst_TotalConns stats)]"

definition db_LogStats :: "go_ctx \<Rightarrow> pool_stat \<Rightarrow> log_line list" where
  "db_LogStats ctx stats =
     emit (Ctx ctx) DebugLevel (map (\<lambda>(k, v). (k, Itoa v)) (db_Stats stats)) None ''PostgreSQL pool statistics''"

text \<open>Closing twice is closing once, as the documentation says, for a pool whose own close is idempotent.\<close>

lemma db_Close_twice:
  assumes "\<And>p w. close p (close p w) = close p w"
  shows "db_Close close pool (db_Close close pool w) = db_Close close pool w"
  using assms by (simp add: db_Close_def split: option.split)

section \<open>Configuration and transports\<close>

record svc_config =
  sc_Base :: base_config
  sc_Database :: db_config
  sc_Cache :: cache_config
  sc_AMQP :: amqp_config
  sc_JWT :: jwt_config
  sc_Outbox :: worker_config

definition serviceName :: string where "serviceName = ''identity''"

definition HealthPing_FullMethodName :: string where
  "HealthPing_FullMethodName = ''/dizen.identity.v1.HealthService/HealthPing''"

definition buildGRPC ::
  "('q, 'm, 'v) grpc_libs \<Rightarrow> svc_config \<Rightarrow> logger \<Rightarrow> go_error + ('q, 'p, 'h, 's) grpc_server" where
  "buildGRPC L cfg log =
     grpc_New L
       \<lparr>gc_Address = GRPCAddress (sc_Base cfg), gc_Environment = bc_Environment (sc_Base cfg), gc_Logger = log, gc_Metrics = True,
        gc_MaxRecvMsgSize = bc_GRPCMaxRecvMsgSize (sc_Base cfg), gc_ShutdownTimeout = bc_ShutdownTimeout (sc_Base cfg),
        gc_MinClientAPIVersion = bc_MinClientAPIVersion (sc_Base cfg),
        gc_PublicMethods = Some (NewAllowlist (HealthMethods @ [HealthPing_FullMethodName]))\<rparr>
       \<lparr>dp_RateLimiter = None, dp_Authenticator = None, dp_Authorizer = None, dp_Extra = []\<rparr>"

definition JWKSPath :: string where "JWKSPath = ''/.well-known/jwks.json''"

definition JWKSHandler :: "(jwk list \<Rightarrow> string) \<Rightarrow> 'b codec \<Rightarrow> key_set \<Rightarrow> http_response" where
  "JWKSHandler enc cd keys =
     \<lparr>hr_Code = 200,
      hr_Headers = [(''Content-Type'', ''application/jwk-set+json''), (''Cache-Control'', ''public, max-age=300'')],
      hr_Body = enc (JWKS cd keys)\<rparr>"

text \<open>The gateway runtime and the sockets, as \<open>buildHTTP\<close> meets them.\<close>

record 'conn http_env =
  he_dial :: "string \<Rightarrow> go_error + 'conn"
  he_matcher :: "string \<Rightarrow> string option"
  he_register :: "gateway_mux \<Rightarrow> 'conn \<Rightarrow> go_error option \<times> gateway_mux"
  he_listen :: "string \<Rightarrow> go_error + string"

definition buildHTTP ::
  "'conn http_env \<Rightarrow> svc_config \<Rightarrow> string \<Rightarrow> logger \<Rightarrow> string \<Rightarrow> registry \<Rightarrow> http_response
   \<Rightarrow> (go_error + http_response http_server) option" where
  "buildHTTP E cfg version log grpcAddress healthRegistry jwks =
     (case DialGRPC (he_dial E) grpcAddress of
        Inl err \<Rightarrow> Some (Inl err)
      | Inr conn \<Rightarrow>
          (let mux = NewGatewayMux (he_matcher E) in
           case RegisterGateways mux conn [he_register E] of
             (Some err, mux) \<Rightarrow> Some (Inl err)
           | (None, mux) \<Rightarrow>
               (case http_New \<lparr>hc_Address = HTTPAddress (sc_Base cfg), hc_ServiceName = bc_ServiceName (sc_Base cfg),
                               hc_Version = version, hc_Logger = log, hc_Gateway = Some mux, hc_Health = Some healthRegistry,
                               hc_Metrics = True, hc_Extra = [(JWKSPath, jwks)],
                               hc_ShutdownTimeout = bc_ShutdownTimeout (sc_Base cfg)\<rparr> of
                  None \<Rightarrow> None
                | Some (Inl err) \<Rightarrow> Some (Inl err)
                | Some (Inr srv) \<Rightarrow>
                    (case http_Listen (he_listen E) srv of
                       (Some err, srv) \<Rightarrow> Some (Inl err)
                     | (None, srv) \<Rightarrow> Some (Inr srv)))))"

section \<open>Serving\<close>

text \<open>
  What a process meets outside: the tracing SDK and the answer of its flush, the database driver
  and how the pool it gives answers a ping, the Redis client, the codec of the keys, the
  sockets, how the two servers drain when they are shut down, and how long a ping takes.
\<close>

record ('x, 'o, 'p, 'r, 'b) outside =
  os_sdk :: "('x, 'o) otel_sdk"
  os_flush :: "go_error option"
  os_driver :: "'p driver"
  os_poolPing :: "'p \<Rightarrow> duration \<Rightarrow> go_error option \<times> duration"
  os_parseURL :: "string \<Rightarrow> go_error + redis_options"
  os_newClient :: "redis_options \<Rightarrow> 'r redis_client"
  os_codec :: "'b codec"
  os_listen :: "string \<Rightarrow> go_error + string"
  os_fmt :: "duration \<Rightarrow> string"
  os_grpcDrain :: drain
  os_httpDrain :: "duration \<Rightarrow> go_error option"
  os_took :: duration

text \<open>
  The state a process works on: the globals of the tracing SDK, what the database connection did,
  the open pools, the Redis server, the broker, the gRPC server once it listens, the log, and the
  components stopped so far, in order.
\<close>

record ('x, 'o, 'p, 'r, 'q) world =
  wd_otel :: "('x, 'o) otel_globals"
  wd_db :: "db_event list"
  wd_pools :: "'p list"
  wd_redis :: 'r
  wd_broker :: broker
  wd_grpc :: "('q, ping_info, unit, unit) grpc_server option"
  wd_log :: "log_line list"
  wd_stopped :: "string list"

record ('p, 'r) opened =
  op_tracing :: shutdown_fn
  op_pool :: 'p
  op_redis :: "'r redis_cache"
  op_broker :: connection
  op_publisher :: nat
  op_metrics :: metrics_registry
  op_keys :: key_set
  op_worker :: worker_config \<comment> \<open>what \<open>NewWorker\<close> keeps of the configuration\<close>

definition serve_tracing :: "svc_config \<Rightarrow> string \<Rightarrow> tracing_options" where
  "serve_tracing cfg version =
     \<lparr>to_ServiceName = bc_ServiceName (sc_Base cfg), to_ServiceVersion = version, to_Environment = bc_Environment (sc_Base cfg),
      to_Endpoint = bc_OTLPEndpoint (sc_Base cfg), to_SampleRatio = bc_TraceSampleRatio (sc_Base cfg),
      to_Insecure = (\<not> IsProduction (bc_Environment (sc_Base cfg)))\<rparr>"

text \<open>
  The first half of \<open>serve\<close>: the dependencies in the order it opens them, the metrics, the key set
  and the settings of the outbox worker (its store and publisher are those of \<open>Outbox_Service\<close>). An error
  ends it with what was opened before still open. \<open>None\<close>: the loading of the keys did not end,
  which the documented behaviour of the codec excludes.
\<close>

definition open_dependencies ::
  "('x, 'o, 'p, 'r, 'b) outside \<Rightarrow> svc_config \<Rightarrow> string \<Rightarrow> ('x, 'o, 'p, 'r, 'q) world
   \<Rightarrow> (go_error + ('p, 'r) opened) option \<times> ('x, 'o, 'p, 'r, 'q) world" where
  "open_dependencies os cfg version w0 =
     (case tracing_Setup (os_sdk os) (serve_tracing cfg version) (wd_otel w0) of
        (Inl err, g) \<Rightarrow> (Some (Inl err), w0\<lparr>wd_otel := g\<rparr>)
      | (Inr shutdownTracing, g) \<Rightarrow>
     (let w1 = w0\<lparr>wd_otel := g\<rparr> in
      case db_Connect (os_driver os) (sc_Database cfg) of
        (Inl err, evs) \<Rightarrow> (Some (Inl err), w1\<lparr>wd_db := wd_db w1 @ evs\<rparr>)
      | (Inr pool, evs) \<Rightarrow>
     (let w2 = w1\<lparr>wd_db := wd_db w1 @ evs, wd_pools := wd_pools w1 @ [pool]\<rparr> in
      case NewRedis (os_parseURL os) (os_newClient os) (sc_Cache cfg) (bc_ServiceName (sc_Base cfg)) (wd_redis w2) of
        (Inl err, r) \<Rightarrow> (Some (Inl err), w2\<lparr>wd_redis := r\<rparr>)
      | (Inr redis, r) \<Rightarrow>
     (let w3 = w2\<lparr>wd_redis := r\<rparr> in
      case amqp_Connect (sc_AMQP cfg) (wd_broker w3) of
        (Inl err, b) \<Rightarrow> (Some (Inl err), w3\<lparr>wd_broker := b\<rparr>)
      | (Inr broker, b) \<Rightarrow>
     (let w4 = w3\<lparr>wd_broker := b\<rparr> in
      case NewPublisher broker (wd_broker w4) of
        (Inl err, b) \<Rightarrow> (Some (Inl err), w4\<lparr>wd_broker := b\<rparr>)
      | (Inr publisher, b) \<Rightarrow>
     (let w5 = w4\<lparr>wd_broker := b\<rparr> in
      case LoadKeySet (os_codec os) (sc_JWT cfg) of
        None \<Rightarrow> (None, w5)
      | Some (Inl err) \<Rightarrow> (Some (Inl err), w5)
      | Some (Inr keys) \<Rightarrow>
          (Some (Inr \<lparr>op_tracing = shutdownTracing, op_pool = pool, op_redis = redis, op_broker = broker,
                      op_publisher = publisher, op_metrics = metrics_NewRegistry (bc_ServiceName (sc_Base cfg)), op_keys = keys,
                      op_worker = wc_withDefaults (sc_Outbox cfg)\<rparr>), w5)))))))"

text \<open>How each component is stopped, on the world \<open>'w\<close> of a run.\<close>

record 'w stoppers =
  sp_tracing :: "'w \<Rightarrow> go_error option \<times> 'w"
  sp_database :: "'w \<Rightarrow> 'w"
  sp_cache :: "'w \<Rightarrow> go_error option \<times> 'w"
  sp_broker :: "'w \<Rightarrow> go_error option \<times> 'w"
  sp_grpc :: "'w \<Rightarrow> go_error option \<times> 'w"
  sp_http :: "'w \<Rightarrow> go_error option \<times> 'w"

definition noted :: "string \<Rightarrow> ('x, 'o, 'p, 'r, 'q) world \<Rightarrow> ('x, 'o, 'p, 'r, 'q) world" where
  "noted name w = w\<lparr>wd_stopped := wd_stopped w @ [name]\<rparr>"

definition stoppers_of ::
  "('x, 'o, 'p, 'r, 'b) outside \<Rightarrow> ('p, 'r) opened \<Rightarrow> 'h http_server \<Rightarrow> ('x, 'o, 'p, 'r, 'q) world stoppers" where
  "stoppers_of os op httpSrv =
     \<lparr>sp_tracing = \<lambda>w. (case op_tracing op of NoopShutdown \<Rightarrow> None | ProviderShutdown \<Rightarrow> os_flush os, noted ''tracing'' w),
      sp_database = \<lambda>w. noted ''database'' (w\<lparr>wd_pools := db_Close remove1 (Some (op_pool op)) (wd_pools w)\<rparr>),
      sp_cache = \<lambda>w. (case cache_Close (op_redis op) (wd_redis w) of (err, r) \<Rightarrow> (err, noted ''cache'' (w\<lparr>wd_redis := r\<rparr>))),
      sp_broker = \<lambda>w. (case Connection_Close (op_broker op) (wd_broker w) of (err, b) \<Rightarrow> (err, noted ''broker'' (w\<lparr>wd_broker := b\<rparr>))),
      sp_grpc = \<lambda>w. (case wd_grpc w of
         None \<Rightarrow> (None, noted ''grpc'' w)
       | Some grpcSrv \<Rightarrow>
           (case grpc_Shutdown (os_fmt os) (os_grpcDrain os) grpcSrv of
              (err, grpcSrv) \<Rightarrow> (err, noted ''grpc'' (w\<lparr>wd_grpc := Some grpcSrv\<rparr>)))),
      sp_http = \<lambda>w. (http_Shutdown (os_httpDrain os) httpSrv, noted ''http'' w)\<rparr>"

definition service_runner :: "duration \<Rightarrow> 'w stoppers \<Rightarrow> 'w runner" where
  "service_runner timeout sp =
     Runner_Add \<lparr>cm_Name = ''http'', cm_Start = True, cm_Stop = Some (sp_http sp)\<rparr>
      (Runner_Add \<lparr>cm_Name = ''grpc'', cm_Start = True, cm_Stop = Some (sp_grpc sp)\<rparr>
       (Runner_Add \<lparr>cm_Name = ''outbox-worker'', cm_Start = True, cm_Stop = None\<rparr>
        (Runner_Add \<lparr>cm_Name = ''broker'', cm_Start = False, cm_Stop = Some (sp_broker sp)\<rparr>
         (Runner_Add \<lparr>cm_Name = ''cache'', cm_Start = False, cm_Stop = Some (sp_cache sp)\<rparr>
          (Runner_Add \<lparr>cm_Name = ''database'', cm_Start = False, cm_Stop = Some (\<lambda>w. (None, sp_database sp w))\<rparr>
           (Runner_Add \<lparr>cm_Name = ''tracing'', cm_Start = False, cm_Stop = Some (sp_tracing sp)\<rparr>
            (NewRunner timeout)))))))"

definition health_registry ::
  "svc_config \<Rightarrow> string \<Rightarrow> (duration \<Rightarrow> go_error option \<times> duration) \<Rightarrow> 'r redis_cache \<Rightarrow> 'r \<Rightarrow> connection \<Rightarrow> broker \<Rightarrow> duration \<Rightarrow> registry" where
  "health_registry cfg version db redis r broker b took =
     Register (amqp_HealthCheck broker b took)
      (Register (cache_HealthCheck redis took r)
       (Register (db_HealthCheck db)
        (NewRegistry (bc_ServiceName (sc_Base cfg)) version)))"

text \<open>
  How far \<open>serve\<close> is: it panicked, the loading of keys did not end, it serves, its components are
  stopped but not all have returned, or it has returned.
\<close>

datatype 'w served = ServePanicked | ServeStuck | ServeRunning | ServeDraining 'w | ServeEnded "go_error option" 'w

fun served_of :: "'w run_state \<Rightarrow> 'w served" where
  "served_of RunUp = ServeRunning"
| "served_of (RunDraining w) = ServeDraining w"
| "served_of (RunReturned err w) = ServeEnded err w"

text \<open>
  \<open>es\<close> is the course of the run once everything has started; what the worker and the handlers do
  meanwhile is the subject of \<open>Outbox_Service\<close>, \<open>Event_Flow\<close> and \<open>Grpc_Server\<close>.
\<close>

definition serve ::
  "('q, 'm, 'v) grpc_libs \<Rightarrow> ('x, 'o, 'p, 'r, 'b) outside \<Rightarrow> 'conn http_env \<Rightarrow> (jwk list \<Rightarrow> string) \<Rightarrow> svc_config \<Rightarrow> string \<Rightarrow> logger
   \<Rightarrow> ending list \<Rightarrow> ('x, 'o, 'p, 'r, 'q) world \<Rightarrow> ('x, 'o, 'p, 'r, 'q) world served" where
  "serve L os E enc cfg version log es w0 =
     (case open_dependencies os cfg version w0 of
        (None, w) \<Rightarrow> ServeStuck
      | (Some (Inl err), w) \<Rightarrow> ServeEnded (Some err) w
      | (Some (Inr op), w) \<Rightarrow>
     (let healthRegistry = health_registry cfg version (os_poolPing os (op_pool op)) (op_redis op) (wd_redis w)
                             (op_broker op) (wd_broker w) (os_took os) in
      case buildGRPC L cfg log of
        Inl err \<Rightarrow> ServeEnded (Some err) w
      | Inr grpcSrv \<Rightarrow>
     (case grpc_Listen (os_listen os) grpcSrv of
        (Some err, _) \<Rightarrow> ServeEnded (Some err) w
      | (None, grpcSrv) \<Rightarrow>
     (case buildHTTP E cfg version log (grpc_Address grpcSrv) healthRegistry (JWKSHandler enc (os_codec os) (op_keys op)) of
        None \<Rightarrow> ServePanicked
      | Some (Inl err) \<Rightarrow> ServeEnded (Some err) w
      | Some (Inr httpSrv) \<Rightarrow>
     served_of (Runner_Run (service_runner (bc_ShutdownTimeout (sc_Base cfg)) (stoppers_of os op httpSrv)) es
             (w\<lparr>wd_grpc := Some grpcSrv,
                wd_log := wd_log w @ emit log InfoLevel [(''grpc'', grpc_Address grpcSrv), (''http'', http_Address httpSrv)] None ''ready''\<rparr>))))))"

section \<open>The process\<close>

text \<open>What \<open>run\<close> does that can be seen from outside, in order.\<close>

datatype run_event = Logged log_line | MigrationsRan | Serving | ReporterFlushed

text \<open>
  \<open>load\<close> is the outcome of reading the configuration, \<open>sentry\<close> the writer of the reporter
  (\<open>None\<close> when disabled) or its failure, \<open>migrate\<close> and \<open>service\<close> the outcomes of
  \<open>Migrate\<close> and of \<open>serve\<close>.
\<close>

definition run ::
  "(string \<Rightarrow> level option) \<Rightarrow> (go_error + svc_config) \<Rightarrow> build_info \<Rightarrow> (svc_config \<Rightarrow> go_error + writer option)
   \<Rightarrow> (svc_config \<Rightarrow> go_error option) \<Rightarrow> (svc_config \<Rightarrow> logger \<Rightarrow> go_error option) \<Rightarrow> bool \<Rightarrow> go_error option \<times> run_event list" where
  "run zparse load build sentry migrate service migrateOnly =
     (case load of Inl err \<Rightarrow> (Some err, []) | Inr cfg \<Rightarrow>
     (case sentry cfg of Inl err \<Rightarrow> (Some err, []) | Inr reporter \<Rightarrow>
     (let base = sc_Base cfg;
          log = logger_New zparse (bi_Version build)
                  \<lparr>opt_ServiceName = bc_ServiceName base, opt_Level = bc_LogLevel base, opt_Pretty = IsLocal (bc_Environment base),
                   opt_Output = None, opt_Extra = [reporter]\<rparr>;
          starting = map Logged (emit log InfoLevel
            [(''environment'', bc_Environment base), (''version'', bi_Version build), (''commit'', bi_Commit build)] None ''starting'');
          migrates = db_RunMigrations (sc_Database cfg) \<or> migrateOnly;
          migrated = (if migrates then starting @ [MigrationsRan] else starting)
      in case (if migrates then migrate cfg else None) of
           Some err \<Rightarrow> (Some err, migrated @ [ReporterFlushed])
         | None \<Rightarrow>
             if migrateOnly then (None, migrated @ [ReporterFlushed])
             else (case service cfg log of
                     Some err \<Rightarrow>
                       (Some err, migrated @ [Serving]
                          @ map Logged (emit log ErrorLevel [] (Some err) ''the service stopped with an error'') @ [ReporterFlushed])
                   | None \<Rightarrow> (None, migrated @ [Serving] @ [ReporterFlushed])))))"

definition runHealthcheck :: "(go_error + svc_config) \<Rightarrow> (string \<Rightarrow> go_error option) \<Rightarrow> (string \<Rightarrow> go_error + int) \<Rightarrow> go_error option" where
  "runHealthcheck load newreq send =
     (case load of Inl err \<Rightarrow> Some err | Inr cfg \<Rightarrow> Healthcheck newreq send (bc_HTTPPort (sc_Base cfg)))"

text \<open>The exit status and what is written to the standard error stream.\<close>

definition main :: "bool \<Rightarrow> go_error option \<Rightarrow> go_error option \<Rightarrow> int \<times> string list" where
  "main healthcheck probe outcome =
     (if healthcheck
      then (case probe of Some err \<Rightarrow> (1, [serviceName @ '': unhealthy: '' @ err_text err]) | None \<Rightarrow> (0, []))
      else (case outcome of Some err \<Rightarrow> (1, [serviceName @ '': fatal: '' @ err_text err]) | None \<Rightarrow> (0, [])))"

section \<open>Lemmas\<close>

lemma service_runner_stops:
  "rev (List.map_filter cm_Stop (rn_components (service_runner t sp))) =
     [sp_http sp, sp_grpc sp, sp_broker sp, sp_cache sp, \<lambda>w. (None, sp_database sp w), sp_tracing sp]"
  by (simp add: service_runner_def Runner_Add_def NewRunner_def List.map_filter_def)

lemma db_Ping_None: "fst (db_Ping pool t) = None \<longleftrightarrow> fst (pool t) = None"
  by (simp add: db_Ping_def split: prod.split option.split)

lemma stop_all_run: "\<exists>errs. stop_all cs es w = (errs, run_stops (List.map_filter cm_Stop cs) w)"
  using stop_all_world [of cs es w] by (cases "stop_all cs es w") auto

lemma Runner_Run_service:
  assumes "e \<in> set es" "ends_run e"
  shows "\<exists>res. served_of (Runner_Run (service_runner t sp) es w) =
    (let w' = run_stops [sp_http sp, sp_grpc sp, sp_broker sp, sp_cache sp, \<lambda>w. (None, sp_database sp w), sp_tracing sp] w
     in if returned [4, 5, 6] es then ServeEnded res w' else ServeDraining w')"
proof -
  have "started_at (service_runner t sp) = [4, 5, 6]"
    by (simp add: started_at_def service_runner_def Runner_Add_def NewRunner_def nth_Cons')
  moreover have "List.map_filter cm_Stop (rev cs) = rev (List.map_filter cm_Stop cs)" for cs :: "'a component list"
    by (simp add: List.map_filter_def rev_map rev_filter)
  from this obtain errs where "stop_all (rev (rn_components (service_runner t sp))) [] w =
      (errs, run_stops [sp_http sp, sp_grpc sp, sp_broker sp, sp_cache sp, \<lambda>w. (None, sp_database sp w), sp_tracing sp] w)"
    using stop_all_run [of "rev (rn_components (service_runner t sp))" "[]" w] service_runner_stops [of t sp] by auto
  ultimately show ?thesis using ends_run_ex [OF assms] by (auto simp: Runner_Run_def shutdown_def Let_def)
qed

text \<open>What a successful start has opened, and what the functions that stop it do to the world.\<close>

definition opened_by :: "('p, 'r) opened \<Rightarrow> ('x, 'o, 'p, 'r, 'q) world \<Rightarrow> ('x, 'o, 'p, 'r, 'q) world \<Rightarrow> bool" where
  "opened_by op w w' \<longleftrightarrow> wd_pools w' = wd_pools w @ [op_pool op] \<and> wd_stopped w' = wd_stopped w
     \<and> (br_wf (wd_broker w) \<longrightarrow> br_open (snd (Connection_Close (op_broker op) (wd_broker w'))) = br_open (wd_broker w))"

lemma open_dependencies_opens:
  "open_dependencies os cfg version w = (Some (Inr op), w') \<Longrightarrow> opened_by op w w'"
  by (auto simp: open_dependencies_def opened_by_def Let_def split: prod.splits sum.splits option.splits
      intro: Connection_Close_releases)

lemma opened_by_ready [simp]:
  "opened_by op w (w'\<lparr>wd_grpc := g\<rparr>) = opened_by op w w'" "opened_by op w (w'\<lparr>wd_log := l\<rparr>) = opened_by op w w'"
  by (simp_all add: opened_by_def)

lemma stop_effects:
  "snd (sp_http (stoppers_of os op srv) w) = noted ''http'' w"
  "snd (sp_broker (stoppers_of os op srv) w) = noted ''broker'' (w\<lparr>wd_broker := snd (Connection_Close (op_broker op) (wd_broker w))\<rparr>)"
  "snd (sp_cache (stoppers_of os op srv) w) = noted ''cache'' (w\<lparr>wd_redis := snd (cache_Close (op_redis op) (wd_redis w))\<rparr>)"
  "sp_database (stoppers_of os op srv) w = noted ''database'' (w\<lparr>wd_pools := remove1 (op_pool op) (wd_pools w)\<rparr>)"
  "snd (sp_tracing (stoppers_of os op srv) w) = noted ''tracing'' w"
  "wd_grpc w = Some s \<Longrightarrow> snd (sp_grpc (stoppers_of os op srv) w) = noted ''grpc'' (w\<lparr>wd_grpc := Some (snd (grpc_Shutdown (os_fmt os) (os_grpcDrain os) s))\<rparr>)"
  by (simp_all add: stoppers_of_def db_Close_def split: prod.split)

lemma grpc_Shutdown_stops: "gs_stopped (snd (grpc_Shutdown fmt ev s)) \<and> gs_health (snd (grpc_Shutdown fmt ev s)) = NOT_SERVING"
  by (cases ev) (simp_all add: grpc_Shutdown_def Let_def)

text \<open>\<open>released w w'\<close>: what was open before the start is what is open now.\<close>

definition released :: "('x, 'o, 'p, 'r, 'q) world \<Rightarrow> ('x, 'o, 'p, 'r, 'q) world \<Rightarrow> bool" where
  "released w w' \<longleftrightarrow> br_open (wd_broker w') = br_open (wd_broker w) \<and> mset (wd_pools w') = mset (wd_pools w)"

lemma stops_release:
  fixes os :: "('x, 'o, 'p, 'r, 'b) outside" and op :: "('p, 'r) opened" and srv :: "'h http_server"
    and w1 :: "('x, 'o, 'p, 'r, 'q) world"
  defines "sp \<equiv> stoppers_of os op srv"
  assumes "opened_by op w w1" "br_wf (wd_broker w)"
  shows "released w (run_stops [sp_http sp, sp_broker sp, sp_cache sp, \<lambda>w. (None, sp_database sp w), sp_tracing sp] w1)"
    and "wd_stopped (run_stops [sp_http sp, sp_broker sp, sp_cache sp, \<lambda>w. (None, sp_database sp w), sp_tracing sp] w1)
      = wd_stopped w @ [''http'', ''broker'', ''cache'', ''database'', ''tracing'']"
  using assms(2,3) by (simp_all add: sp_def stop_effects noted_def released_def opened_by_def)

lemma stops_release_grpc:
  fixes os :: "('x, 'o, 'p, 'r, 'b) outside" and op :: "('p, 'r) opened" and srv :: "'h http_server"
    and w1 :: "('x, 'o, 'p, 'r, 'q) world"
  defines "sp \<equiv> stoppers_of os op srv"
  assumes "opened_by op w w1" "br_wf (wd_broker w)" "wd_grpc w1 = Some s"
  defines "w' \<equiv> run_stops [sp_http sp, sp_grpc sp, sp_broker sp, sp_cache sp, \<lambda>w. (None, sp_database sp w), sp_tracing sp] w1"
  shows "released w w'" "wd_stopped w' = wd_stopped w @ [''http'', ''grpc'', ''broker'', ''cache'', ''database'', ''tracing'']"
    "\<exists>s. wd_grpc w' = Some s \<and> gs_stopped s \<and> gs_health s = NOT_SERVING"
  using assms(2-4) grpc_Shutdown_stops [of "os_fmt os" "os_grpcDrain os" s]
  by (simp_all add: w'_def sp_def stop_effects noted_def released_def opened_by_def)

section \<open>Properties\<close>

text \<open>
  C32. When the service takes traffic: \<open>/readyz\<close> answers 200 exactly if the database answers
  its ping and the broker connection is open, in whatever order the probes finish; losing Redis
  never takes the service out of rotation.
\<close>

theorem service_ready_iff:
  assumes "set order = {0, 1, 2}"
  shows "hr_Code (ReadinessHandler enc order (health_registry cfg version db redis r broker b took)) =
    (if fst (db DefaultTimeout) = None \<and> amqp_Ping broker b = None then 200 else 503)"
proof -
  let ?g = "health_registry cfg version db redis r broker b took"
  have g: "rg_timeout ?g = DefaultTimeout"
    "rg_checks ?g = [db_HealthCheck db, cache_HealthCheck redis took r, amqp_HealthCheck broker b took]"
    by (simp_all add: health_registry_def Register_def NewRegistry_def)
  have "{..<3} = {0, 1, 2 :: nat}" by auto
  then have "set order = {..<length (rg_checks ?g)}" using assms by (simp add: g(2) numeral_3_eq_3)
  then show ?thesis
    by (simp add: Readiness_code g db_HealthCheck_def cache_HealthCheck_def amqp_HealthCheck_def db_Ping_None)
qed

text \<open>
  C33. A running service always shuts down in the same order and gives back what it opened: once it has
  started, whatever ends the run and whatever fails on the way, the HTTP server stops first, then
  the gRPC server, then the broker, the cache, the database and the tracer are closed, each
  once; the broker has the connections and channels it had before the start, no pool is left,
  and the gRPC server is stopped and reports that it does not serve. \<open>serve\<close> returns when the
  outbox worker and the two servers (the components at positions 4 to 6) have returned.
\<close>

theorem ended_service_released:
  assumes "serve L os E enc cfg version log [] w = ServeRunning" "e \<in> set es" "ends_run e" "br_wf (wd_broker w)"
  shows "\<exists>res w' s. serve L os E enc cfg version log es w = (if returned [4, 5, 6] es then ServeEnded res w' else ServeDraining w')
     \<and> released w w'
     \<and> wd_stopped w' = wd_stopped w @ [''http'', ''grpc'', ''broker'', ''cache'', ''database'', ''tracing'']
     \<and> wd_grpc w' = Some s \<and> gs_stopped s \<and> gs_health s = NOT_SERVING"
proof -
  obtain op w0 srv and g0 g :: "(_, ping_info, unit, unit) grpc_server" where opened: "open_dependencies os cfg version w = (Some (Inr op), w0)"
    and built: "buildGRPC L cfg log = Inr g0" "grpc_Listen (os_listen os) g0 = (None, g)"
      "buildHTTP E cfg version log (grpc_Address g) (health_registry cfg version (os_poolPing os (op_pool op)) (op_redis op) (wd_redis w0)
         (op_broker op) (wd_broker w0) (os_took os)) (JWKSHandler enc (os_codec os) (op_keys op)) = Some (Inr srv)"
    using assms(1) by (auto simp: serve_def Let_def split: option.splits sum.splits prod.splits)
  define ls where "ls = wd_log w0 @ emit log InfoLevel [(''grpc'', grpc_Address g), (''http'', http_Address srv)] None ''ready''"
  have run: "serve L os E enc cfg version log es w =
      served_of (Runner_Run (service_runner (bc_ShutdownTimeout (sc_Base cfg)) (stoppers_of os op srv)) es (w0\<lparr>wd_grpc := Some g, wd_log := ls\<rparr>))"
    by (simp add: serve_def opened built Let_def ls_def)
  let ?w1 = "w0\<lparr>wd_grpc := Some g, wd_log := ls\<rparr>"
  have w1: "opened_by op w ?w1" "wd_grpc ?w1 = Some g" using open_dependencies_opens [OF opened] by simp_all
  from Runner_Run_service [OF assms(2,3), of "bc_ShutdownTimeout (sc_Base cfg)" "stoppers_of os op srv" ?w1]
    stops_release_grpc [OF w1(1) assms(4) w1(2), of os srv] run
  show ?thesis by (cases "returned [4, 5, 6] es") (auto simp: Let_def)
qed

text \<open>
  A start that fails goes no further: when the database cannot be reached, \<open>serve\<close> returns that
  error, and neither Redis nor the broker is contacted, no pool is left and nothing is stopped.
\<close>

lemma unreachable_database_ends_serve:
  assumes "fst (tracing_Setup (os_sdk os) (serve_tracing cfg version) (wd_otel w)) = Inr sh"
    and "fst (db_Connect (os_driver os) (sc_Database cfg)) = Inl err"
  shows "\<exists>w'. serve L os E enc cfg version log es w = ServeEnded (Some err) w' \<and> wd_pools w' = wd_pools w
     \<and> wd_redis w' = wd_redis w \<and> wd_broker w' = wd_broker w \<and> wd_stopped w' = wd_stopped w"
  using assms by (auto simp: serve_def open_dependencies_def Let_def split: prod.splits)

text \<open>
  An error that ends the service is reported: it is logged at error level, with the logger
  that feeds the reporter, before the reporter is flushed, and it is what \<open>run\<close> returns.
\<close>

theorem service_error_reported:
  assumes "sentry cfg = Inr (Some writer)" "\<not> migrateOnly" "db_RunMigrations (sc_Database cfg) \<longrightarrow> migrate cfg = None"
    and "\<And>log. service cfg log = Some err" "ParseLevel zparse (bc_LogLevel (sc_Base cfg)) \<le> ErrorLevel"
  shows "\<exists>before line. run zparse (Inr cfg) build sentry migrate service migrateOnly = (Some err, before @ [Logged line, ReporterFlushed])
     \<and> line_level line = ErrorLevel \<and> line_err line = Some err"
  using assms by (auto simp: run_def Let_def emit_def logger_New_def)

text \<open>
  A registered user's event is published: what \<open>RecordUserRegistered\<close> records comes back
  from the next claim, after the events that were waiting, with the routing key
  \<open>user.registered\<close>, the user as its aggregate and the user's id in the payload; without a
  user id nothing is written.
\<close>

theorem user_registered_is_claimed:
  assumes "pg_wf db" "pg_script db = []" "pg_next_id db \<notin> set (pg_locks db)"
    and "pg_jsonb db (mustPayload [(''user_id'', userID)]) = Some json" "int (length (claimable db)) < limit"
  shows "if userID = ''''
    then snd (RecordUserRegistered userID db) = db \<and> (\<exists>err. fst (RecordUserRegistered userID db) = Some err \<and> errors_Is err ErrMissingUserID)
    else fst (RecordUserRegistered userID db) = None \<and> (\<exists>e db'. OutboxStore_ClaimPending limit (snd (RecordUserRegistered userID db)) =
          (Inr (map (\<lambda>r. toOutboxEvent (toDomain r)) (claimable db) @ [e]), db')
        \<and> ev_RoutingKey e = ''user.registered'' \<and> ev_Aggregate e = ''user'' \<and> ev_AggregateID e = userID \<and> ev_Payload e = json)"
proof (cases "userID = ''''")
  case True then show ?thesis by (simp add: RecordUserRegistered_def ErrMissingUserID_def)
next
  case False
  let ?row = "new_row \<lparr>ip_Aggregate = ''user'', ip_AggregateID = nullable userID, ip_RoutingKey = ''user.registered'',
      ip_Payload = mustPayload [(''user_id'', userID)]\<rparr> json db"
  let ?db' = "db\<lparr>pg_rows := pg_rows db @ [?row], pg_next_id := pg_next_id db + 1\<rparr>"
  have ins: "RecordUserRegistered userID db = (None, ?db')"
    using False assms(2,4) by (simp add: RecordUserRegistered_def repo_Insert_def InsertOutboxEvent_def pg_write_def pg_call_def RoutingKeyUserRegistered_def Let_def)
  have "claimable ?db' = claimable db @ [?row]"
    using assms(1,3) by (intro claimable_snoc) (simp_all add: new_row_def row_due_def)
  with ins False assms(2,5) show ?thesis
    by (auto simp: OutboxStore_ClaimPending_def repo_ClaimPending_def ClaimPendingOutboxEvents_def pg_call_def
        new_row_def toOutboxEvent_def toDomain_def deref_def nullable_def)
qed

text \<open>A migration that does not apply is returned without being logged, so the reporter never sees it.\<close>

lemma migration_failure_unreported:
  assumes "sentry cfg = Inr reporter" "db_RunMigrations (sc_Database cfg)" "migrate cfg = Some err"
  shows "\<exists>evs. run zparse (Inr cfg) build sentry migrate service migrateOnly = (Some err, evs)
     \<and> (\<forall>line. Logged line \<in> set evs \<longrightarrow> line_level line = InfoLevel \<and> line_err line = None)"
  using assms by (auto simp: run_def Let_def emit_def)

section \<open>Witnesses\<close>

definition demo_broker_open :: broker where
  "demo_broker_open = \<lparr>br_exchanges = [], br_queues = [], br_bindings = [], br_unacked = [], br_tag = 0, br_open = [Conn 1],
     br_fresh = 2, br_prefetch = [], br_confirms = [], br_script = []\<rparr>"

definition demo_amqp_config :: amqp_config where
  "demo_amqp_config = \<lparr>am_URL = ''amqp://localhost'', am_Exchange = '''', am_Prefetch = 0, am_MaxAttempts = 0, am_InitialBackoff = 0,
     am_MaxBackoff = 0, am_PublishTimeout = 0, am_ReconnectDelay = 0\<rparr>"

definition demo_connection :: connection where
  "demo_connection = \<lparr>cn_conn = 1, cn_channel = 1, cn_cfg = demo_amqp_config\<rparr>"

definition demo_svc_config :: svc_config where
  "demo_svc_config =
     \<lparr>sc_Base = \<lparr>bc_ServiceName = ''identity'', bc_Environment = EnvProduction, bc_LogLevel = ''info'', bc_GRPCPort = 9090, bc_HTTPPort = 8080,
        bc_ShutdownTimeout = 15 * Second, bc_GRPCMaxRecvMsgSize = 4194304, bc_RequestTimeout = 30 * Second,
        bc_MinClientAPIVersion = '''', bc_OTLPEndpoint = '''', bc_TraceSampleRatio = ''1.0'', bc_SentryDSN = ''''\<rparr>,
      sc_Database = \<lparr>db_URL = ''postgres://localhost'', db_MaxConns = 0, db_MinConns = 0, db_MaxConnLifetime = 0, db_MaxConnIdleTime = 0,
        db_HealthCheckPeriod = 0, db_ConnectTimeout = 0, db_MaxRetries = 0, db_InitialBackoff = 0, db_MaxBackoff = 0, db_RunMigrations = False\<rparr>,
      sc_Cache = \<lparr>cc_URL = ''redis://localhost'', cc_Namespace = '''', cc_DefaultTTL = 0, cc_DialTimeout = 0, cc_ReadTimeout = 0, cc_PoolSize = 10\<rparr>,
      sc_AMQP = demo_amqp_config,
      sc_JWT = \<lparr>jc_Issuer = ''dizen'', jc_Audience = [''dizen''], jc_AccessTokenTTL = 0, jc_PrivateKeyPEM = '''', jc_PublicKeysPEM = '''', jc_ClockSkew = 0\<rparr>,
      sc_Outbox = \<lparr>wc_PollInterval = 0, wc_BatchSize = 0, wc_InitialBackoff = 0, wc_MaxBackoff = 0\<rparr>\<rparr>"

definition demo_outside :: "(unit, unit, int, mem_redis, char) outside" where
  "demo_outside = \<lparr>os_sdk = \<lparr>ot_NewExporter = \<lambda>_. Inr (), ot_NewResource = \<lambda>_. ((), None)\<rparr>, os_flush = None, os_driver = demo_driver 1,
     os_poolPing = \<lambda>p t. (None, 0), os_parseURL = \<lambda>_. Inr \<lparr>ro_Addr = ''localhost:6379'', ro_DialTimeout = 0, ro_ReadTimeout = 0, ro_PoolSize = 0\<rparr>, os_newClient = \<lambda>_. mem_client,
     os_codec = demo_codec, os_listen = Inr, os_fmt = \<lambda>_. ''15s'', os_grpcDrain = TimedOut, os_httpDrain = \<lambda>_. Some ctx_DeadlineExceeded, os_took = 0\<rparr>"

definition demo_world :: "(unit, unit, int, mem_redis, 'q) world" where
  "demo_world = \<lparr>wd_otel = \<lparr>og_propagator = [], og_provider = NoProvider\<rparr>, wd_db = [], wd_pools = [], wd_redis = \<lparr>mr_data = [], mr_clock = 0\<rparr>,
     wd_broker = demo_broker_open, wd_grpc = None, wd_log = [], wd_stopped = []\<rparr>"

definition demo_gateway :: "unit http_env" where
  "demo_gateway = \<lparr>he_dial = \<lambda>_. Inr (), he_matcher = \<lambda>_. None, he_register = \<lambda>m c. (None, m), he_listen = Inr\<rparr>"

theorem service_ready_iff_witness:
  "hr_Code (ReadinessHandler (\<lambda>_. '''') [2, 0, 1] (health_registry demo_svc_config ''v1'' (\<lambda>t. (None, 0)) demo_cache \<lparr>mr_data = [], mr_clock = 0\<rparr>
     demo_connection demo_broker_open 0)) = 200"
proof -
  have "set [2, 0, 1] = {0, 1, 2 :: nat}" by auto
  moreover have "amqp_Ping demo_connection demo_broker_open = None"
    by (simp add: amqp_Ping_def IsClosed_def demo_connection_def demo_broker_open_def)
  ultimately show ?thesis by (subst service_ready_iff) auto
qed

lemma demo_opens:
  "\<exists>op w :: (unit, unit, int, mem_redis, 'q) world. open_dependencies demo_outside demo_svc_config ''v1'' demo_world = (Some (Inr op), w)"
proof -
  have "fst (db_Connect (os_driver demo_outside) (sc_Database demo_svc_config)) = Inr 1" by code_simp
  then obtain evs where "db_Connect (os_driver demo_outside) (sc_Database demo_svc_config) = (Inr 1, evs)" by (metis prod.collapse)
  moreover have "case amqp_Connect demo_amqp_config demo_broker_open of (Inr cn, b) \<Rightarrow> isl (fst (NewPublisher cn b)) = False | _ \<Rightarrow> False"
    by code_simp
  moreover have "LoadKeySet demo_codec (sc_JWT demo_svc_config) = Some (Inr NewKeySet)"
    by (simp add: LoadKeySet_def load_private_def demo_svc_config_def)
  ultimately show ?thesis
    by (auto simp: open_dependencies_def demo_svc_config_def demo_outside_def demo_world_def tracing_Setup_def serve_tracing_def NewRedis_def
        mem_client_def Let_def split: prod.splits sum.splits)
qed

lemma demo_serving: "serve demo_libs demo_outside demo_gateway (\<lambda>_. ''{}'') demo_svc_config ''v1'' Nop [] demo_world = ServeRunning"
proof -
  obtain op and w :: "(unit, unit, int, mem_redis, nat) world"
    where "open_dependencies demo_outside demo_svc_config ''v1'' demo_world = (Some (Inr op), w)" using demo_opens by blast
  moreover have "bc_MinClientAPIVersion (sc_Base demo_svc_config) = []" "os_listen demo_outside = Inr"
    by (simp_all add: demo_svc_config_def demo_outside_def)
  ultimately show ?thesis
    by (simp add: serve_def demo_gateway_def buildGRPC_def grpc_New_def buildUnaryChain_def APIVersion_def NewValidator_def
        demo_libs_def gc_withDefaults_def grpc_Listen_def buildHTTP_def DialGRPC_def http_New_def mux_Handle_def http_Listen_def Runner_Run_def
        JWKSPath_def PathLiveness_def PathReadiness_def PathMetrics_def PathAPI_def Let_def)
qed

theorem ended_service_released_witness:
  "\<exists>res w'. serve demo_libs demo_outside demo_gateway (\<lambda>_. ''{}'') demo_svc_config ''v1'' Nop [Signalled, Ended 6 None, Ended 5 None, Ended 4 None] demo_world = ServeEnded res w'
     \<and> br_open (wd_broker w') = [Conn 1] \<and> wd_pools w' = []"
proof -
  have "br_wf (wd_broker demo_world)" by code_simp
  from ended_service_released [OF demo_serving _ _ this, of Signalled "[Signalled, Ended 6 None, Ended 5 None, Ended 4 None]"]
  show ?thesis by (auto simp: ends_run_def returned_def released_def demo_world_def demo_broker_open_def)
qed

theorem service_error_reported_witness:
  "\<exists>before line. run (\<lambda>_. Some InfoLevel) (Inr demo_svc_config) (version_Get ''v1'' ''abc'' ''now'' None) (\<lambda>_. Inr (Some ''sentry''))
      (\<lambda>_. None) (\<lambda>_ _. Some ctx_DeadlineExceeded) False = (Some ctx_DeadlineExceeded, before @ [Logged line, ReporterFlushed])
     \<and> line_level line = ErrorLevel \<and> line_err line = Some ctx_DeadlineExceeded"
  by (rule service_error_reported [where writer = "''sentry''"]) (simp_all add: ParseLevel_def demo_svc_config_def less_eq_level_def)

theorem user_registered_is_claimed_witness:
  "fst (RecordUserRegistered ''u1'' demo_db) = None \<and> (\<exists>es e db'. OutboxStore_ClaimPending 10 (snd (RecordUserRegistered ''u1'' demo_db)) = (Inr (es @ [e]), db')
     \<and> ev_Payload e = mustPayload [(''user_id'', ''u1'')])"
  using user_registered_is_claimed [of demo_db "''u1''" "mustPayload [(''user_id'', ''u1'')]" 10]
  by (fastforce simp: demo_db_def demo_row_def pg_wf_def claimable_def row_due_def)

end
