(* ===== verification/Go_Regexp.thy ===== *)
theory Go_Regexp
  imports Go_Prelude
begin

text \<open>
  The part of Go's \<open>regexp\<close> the sources use: literals and character classes, groups,
  alternatives, greedy repetition, named captures, word boundaries and case-insensitive matching,
  with the leftmost-first rule (the leftmost match, and among those the one a backtracking search
  would find first). The matcher works on positions: the bytes already read, in reverse, and
  the bytes to come. The words a pattern matches are given as a language, and the matcher is shown
  to find exactly them.
\<close>

section \<open>Patterns and the matcher\<close>

datatype rx = Eps | Cls "char \<Rightarrow> bool" | Seq rx rx | Alt rx rx | Star rx | Cap string rx | WordB

type_synonym captures = "(string \<times> string) list"
type_synonym rx_pos = "string \<times> string \<times> captures"

definition between :: "char \<Rightarrow> char \<Rightarrow> char \<Rightarrow> bool" where
  "between a b c \<longleftrightarrow> (of_char a :: nat) \<le> of_char c \<and> (of_char c :: nat) \<le> of_char b"

definition is_lower :: "char \<Rightarrow> bool" where "is_lower c \<longleftrightarrow> between CHR ''a'' CHR ''z'' c"
definition is_alpha :: "char \<Rightarrow> bool" where "is_alpha c \<longleftrightarrow> is_lower c \<or> between CHR ''A'' CHR ''Z'' c"
definition is_digit :: "char \<Rightarrow> bool" where "is_digit c \<longleftrightarrow> between CHR ''0'' CHR ''9'' c"

text \<open>\<open>\s\<close> of RE2 has no vertical tab, unlike \<open>TrimSpace\<close>.\<close>

definition re_space :: "char \<Rightarrow> bool" where
  "re_space c \<longleftrightarrow> c \<in> {CHR 0x09, CHR 0x0A, CHR 0x0C, CHR 0x0D, CHR 0x20}"

definition is_word :: "char \<Rightarrow> bool" where "is_word c \<longleftrightarrow> is_alpha c \<or> is_digit c \<or> c = CHR ''_''"

definition word_at :: "string \<Rightarrow> bool" where
  "word_at s = (case s of [] \<Rightarrow> False | c # _ \<Rightarrow> is_word c)"

function (sequential) mt :: "rx \<Rightarrow> rx_pos \<Rightarrow> rx_pos list" where
  "mt Eps p = [p]"
| "mt (Cls P) (u, v, e) = (case v of [] \<Rightarrow> [] | c # v' \<Rightarrow> if P c then [(c # u, v', e)] else [])"
| "mt (Seq r s) p = concat (map (mt s) (mt r p))"
| "mt (Alt r s) p = mt r p @ mt s p"
| "mt (Star r) (u, v, e) =
     concat (map (\<lambda>(u', v', e'). if length v' < length v then mt (Star r) (u', v', e') else []) (mt r (u, v, e))) @ [(u, v, e)]"
| "mt (Cap n r) (u, v, e) =
     map (\<lambda>(u', v', e'). (u', v', (n, rev (take (length u' - length u) u')) # e')) (mt r (u, v, e))"
| "mt WordB (u, v, e) = (if word_at u \<noteq> word_at v then [(u, v, e)] else [])"
  by pat_completeness auto
termination
  by (relation "measures [\<lambda>(r, _). size r, \<lambda>(_, _, v, _). length v]") auto

text \<open>The forms of the syntax that are made of these: \<open>r+\<close>, \<open>r?\<close>, \<open>r{n,}\<close> and literals.\<close>

definition Plus :: "rx \<Rightarrow> rx" where "Plus r = Seq r (Star r)"
definition Opt :: "rx \<Rightarrow> rx" where "Opt r = Alt r Eps"

fun AtLeast :: "nat \<Rightarrow> rx \<Rightarrow> rx" where
  "AtLeast 0 r = Star r"
| "AtLeast (Suc n) r = Seq r (AtLeast n r)"

fun Lit :: "string \<Rightarrow> rx" where
  "Lit [] = Eps"
| "Lit (c # s) = Seq (Cls (\<lambda>x. x = c)) (Lit s)"

text \<open>
  Under \<open>(?i)\<close> a letter matches both cases, and by Unicode's simple folding \<open>s\<close> also
  the long s (U+017F) and \<open>k\<close> the Kelvin sign (U+212A), given by their UTF-8 bytes.
\<close>

definition long_s :: string where "long_s = [CHR 0xC5, CHR 0xBF]"
definition kelvin :: string where "kelvin = [CHR 0xE2, CHR 0x84, CHR 0xAA]"

definition fold_chr :: "char \<Rightarrow> rx" where
  "fold_chr c = (let r = Cls (\<lambda>x. lower_char x = c) in
     if c = CHR ''s'' then Alt r (Lit long_s) else if c = CHR ''k'' then Alt r (Lit kelvin) else r)"

fun FoldLit :: "string \<Rightarrow> rx" where
  "FoldLit [] = Eps"
| "FoldLit (c # s) = Seq (fold_chr c) (FoldLit s)"

text \<open>A class that holds all letters, under \<open>(?i)\<close>.\<close>

definition FoldCls :: "(char \<Rightarrow> bool) \<Rightarrow> rx" where
  "FoldCls P = Alt (Cls P) (Alt (Lit long_s) (Lit kelvin))"

fun Alts :: "rx list \<Rightarrow> rx" where
  "Alts [] = Cls (\<lambda>_. False)"
| "Alts [r] = r"
| "Alts (r # rs) = Alt r (Alts rs)"

text \<open>The leftmost match: what is skipped, the match, what follows it, and the captures.\<close>

fun find_from :: "rx \<Rightarrow> string \<Rightarrow> string \<Rightarrow> (string \<times> string \<times> string \<times> captures) option" where
  "find_from r u v =
     (case mt r (u, v, []) of
        (u', v', e) # _ \<Rightarrow> Some ([], take (length v - length v') v, v', e)
      | [] \<Rightarrow> (case v of
                 [] \<Rightarrow> None
               | c # v1 \<Rightarrow> map_option (\<lambda>(pre, m, post, e). (c # pre, m, post, e)) (find_from r (c # u) v1)))"

declare find_from.simps [simp del]

definition MatchString :: "rx \<Rightarrow> string \<Rightarrow> bool" where
  "MatchString r s \<longleftrightarrow> find_from r [] s \<noteq> None"

text \<open>A pattern between \<open>^\<close> and \<open>$\<close>: the whole text, by the first way that reaches its end.\<close>

definition match_whole :: "rx \<Rightarrow> string \<Rightarrow> captures option" where
  "match_whole r s = map_option (\<lambda>(_, _, e). e) (find (\<lambda>(_, v, _). v = []) (mt r ([], s, [])))"

declare mt.simps(5) [simp del]

lemma mt_Star: "p \<in> set (mt (Star r) (u, v, e)) \<longleftrightarrow> p = (u, v, e)
    \<or> (\<exists>u1 v1 e1. (u1, v1, e1) \<in> set (mt r (u, v, e)) \<and> length v1 < length v \<and> p \<in> set (mt (Star r) (u1, v1, e1)))"
  by (subst mt.simps(5)) (fastforce split: if_splits)

lemma mt_split: "(u', v', e') \<in> set (mt r (u, v, e)) \<Longrightarrow> \<exists>w. v = w @ v' \<and> u' = rev w @ u"
proof (induction r "(u, v, e)" arbitrary: u v e u' v' e' rule: mt.induct)
  case (2 P u v e)
  then show ?case by (cases v) (auto split: if_splits)
next
  case (3 r s u v e)
  then obtain u1 v1 e1 where "(u1, v1, e1) \<in> set (mt r (u, v, e))" "(u', v', e') \<in> set (mt s (u1, v1, e1))" by auto
  then show ?case using 3(1,2) by fastforce
next
  case (5 r u v e)
  show ?case
  proof (cases "(u', v', e') = (u, v, e)")
    case False
    then obtain u1 v1 e1 where "(u1, v1, e1) \<in> set (mt r (u, v, e))" "length v1 < length v"
      "(u', v', e') \<in> set (mt (Star r) (u1, v1, e1))"
      using 5(3) by (subst (asm) mt_Star) blast
    moreover from this obtain w1 where "v = w1 @ v1" "u1 = rev w1 @ u" using 5(1) by blast
    moreover have "\<exists>w. v1 = w @ v' \<and> u' = rev w @ u1"
      using calculation 5(2) by blast
    ultimately show ?thesis by (metis append.assoc rev_append)
  qed simp
qed (auto split: if_splits)

lemma find_from_split: "find_from r u v = Some (pre, m, post, e) \<Longrightarrow> v = pre @ m @ post"
proof (induction r u v arbitrary: pre m post e rule: find_from.induct)
  case (1 r u v)
  show ?case
  proof (cases "mt r (u, v, [])")
    case Nil
    then obtain c v1 where v: "v = c # v1" using 1(2) by (subst (asm) find_from.simps) (cases v; simp)
    then show ?thesis
      using Nil 1(2) 1(1) [OF Nil v] by (subst (asm) find_from.simps) (fastforce simp: v)
  next
    case (Cons p ps)
    moreover obtain u1 v1 e1 where "p = (u1, v1, e1)" by (cases p)
    moreover have "\<exists>w. v = w @ v1" using Cons mt_split [of u1 v1 e1 r u v "[]"] by (auto simp: \<open>p = _\<close>)
    ultimately show ?thesis using 1(2) by (subst (asm) find_from.simps) auto
  qed
qed

text \<open>
  \<open>ReplaceAllString\<close> with a replacement that holds no \<open>$\<close>. No pattern of the
  program matches the empty text (lemma \<open>nonempty\<close> below each of them), so what Go does at
  empty matches is not needed.
\<close>

function replace_from :: "rx \<Rightarrow> string \<Rightarrow> string \<Rightarrow> string \<Rightarrow> string" where
  "replace_from r repl u v =
     (case find_from r u v of
        None \<Rightarrow> v
      | Some (pre, m, post, e) \<Rightarrow> if m = [] then v else pre @ repl @ replace_from r repl (rev (pre @ m) @ u) post)"
  by pat_completeness auto
termination
  by (relation "measure (\<lambda>(r, repl, u, v). length v)") (auto dest!: find_from_split)

declare replace_from.simps [simp del]

definition ReplaceAllString :: "rx \<Rightarrow> string \<Rightarrow> string \<Rightarrow> string" where
  "ReplaceAllString r s repl = replace_from r repl [] s"

section \<open>The language of a pattern\<close>

inductive_set star_of :: "string set \<Rightarrow> string set" for L :: "string set" where
  star_Nil: "[] \<in> star_of L"
| star_append: "w \<in> L \<Longrightarrow> v \<in> star_of L \<Longrightarrow> w @ v \<in> star_of L"

fun lang :: "rx \<Rightarrow> string set" where
  "lang Eps = {[]}"
| "lang (Cls P) = {[c] |c. P c}"
| "lang (Seq r s) = {a @ b |a b. a \<in> lang r \<and> b \<in> lang s}"
| "lang (Alt r s) = lang r \<union> lang s"
| "lang (Star r) = star_of (lang r)"
| "lang (Cap n r) = lang r"
| "lang WordB = {}"

text \<open>Patterns that do not look at what surrounds the match.\<close>

fun plain :: "rx \<Rightarrow> bool" where
  "plain (Seq r s) \<longleftrightarrow> plain r \<and> plain s"
| "plain (Alt r s) \<longleftrightarrow> plain r \<and> plain s"
| "plain (Star r) \<longleftrightarrow> plain r"
| "plain (Cap n r) \<longleftrightarrow> plain r"
| "plain WordB \<longleftrightarrow> False"
| "plain _ \<longleftrightarrow> True"

definition occurs :: "rx \<Rightarrow> string \<Rightarrow> bool" where
  "occurs r s \<longleftrightarrow> (\<exists>a w b. s = a @ w @ b \<and> w \<in> lang r)"

text \<open>What the matcher returns are words of the language, \<dots>\<close>

lemma mt_sound: "(u', v', e') \<in> set (mt r (u, v, e)) \<Longrightarrow> plain r \<Longrightarrow> \<exists>w\<in>lang r. v = w @ v' \<and> u' = rev w @ u"
proof (induction r "(u, v, e)" arbitrary: u v e u' v' e' rule: mt.induct)
  case (2 P u v e)
  then show ?case by (cases v) (auto split: if_splits)
next
  case (3 r s u v e)
  then obtain u1 v1 e1 where *: "(u1, v1, e1) \<in> set (mt r (u, v, e))" "(u', v', e') \<in> set (mt s (u1, v1, e1))" by auto
  then obtain w1 w2 where "w1 \<in> lang r" "v = w1 @ v1" "u1 = rev w1 @ u" "w2 \<in> lang s" "v1 = w2 @ v'" "u' = rev w2 @ u1"
    using 3(1) [OF *(1)] 3(2) [OF *(1) *(2)] 3(4) by auto
  then show ?case by (intro bexI [of _ "w1 @ w2"]) auto
next
  case (4 r s u v e)
  then show ?case by (simp, metis UnI1 UnI2)
next
  case (5 r u v e)
  show ?case
  proof (cases "(u', v', e') = (u, v, e)")
    case True
    then show ?thesis by (auto intro: star_Nil)
  next
    case False
    then obtain u1 v1 e1 where *: "(u1, v1, e1) \<in> set (mt r (u, v, e))" "length v1 < length v"
      "(u', v', e') \<in> set (mt (Star r) (u1, v1, e1))"
      using 5(3) by (subst (asm) mt_Star) blast
    then obtain w1 where "w1 \<in> lang r" "v = w1 @ v1" "u1 = rev w1 @ u" using 5(1,4) by fastforce
    moreover have "\<exists>w\<in>lang (Star r). v1 = w @ v' \<and> u' = rev w @ u1"
      using * 5(2,4) by blast
    then obtain w2 where "w2 \<in> lang (Star r)" "v1 = w2 @ v'" "u' = rev w2 @ u1" by blast
    ultimately show ?thesis by (intro bexI [of _ "w1 @ w2"]) (auto intro: star_append)
  qed
qed (auto split: if_splits)

text \<open>\<dots> and every word of the language in front of it is found.\<close>

lemma star_of_progress:
  "w \<in> star_of L \<Longrightarrow> w \<noteq> [] \<Longrightarrow> \<exists>w1 w2. w = w1 @ w2 \<and> w1 \<noteq> [] \<and> w1 \<in> L \<and> w2 \<in> star_of L"
  by (induction rule: star_of.induct) (force, metis append_Nil)

lemma mt_complete: "w \<in> lang r \<Longrightarrow> plain r \<Longrightarrow> \<exists>e'. (rev w @ u, v, e') \<in> set (mt r (u, w @ v, e))"
proof (induction r arbitrary: w u v e)
  case (Cls P)
  then show ?case by auto
next
  case (Seq r s)
  then obtain a b where w: "w = a @ b" "a \<in> lang r" "b \<in> lang s" by auto
  obtain e1 where "(rev a @ u, b @ v, e1) \<in> set (mt r (u, w @ v, e))" using Seq.IH(1) [OF w(2)] Seq.prems(2) w(1) by fastforce
  moreover obtain e2 where "(rev b @ rev a @ u, v, e2) \<in> set (mt s (rev a @ u, b @ v, e1))"
    using Seq.IH(2) [OF w(3)] Seq.prems(2) by fastforce
  ultimately show ?case using w(1) by fastforce
next
  case (Alt r s)
  then show ?case by fastforce
next
  case (Star r)
  show ?case using Star.prems(1)
  proof (induction "length w" arbitrary: w u e rule: less_induct)
    case less
    show ?case
    proof (cases "w = []")
      case True
      then show ?thesis by (intro exI [of _ e]) (subst mt_Star, simp)
    next
      case False
      then obtain w1 w2 where w: "w = w1 @ w2" "w1 \<noteq> []" "w1 \<in> lang r" "w2 \<in> lang (Star r)"
        using star_of_progress [of w "lang r"] less(2) False by auto
      obtain e1 where "(rev w1 @ u, w2 @ v, e1) \<in> set (mt r (u, w @ v, e))"
        using Star.IH [OF w(3)] Star.prems(2) w(1) by fastforce
      moreover obtain e2 where "(rev w2 @ rev w1 @ u, v, e2) \<in> set (mt (Star r) (rev w1 @ u, w2 @ v, e1))"
        using less(1) [OF _ w(4)] w(1,2) by fastforce
      ultimately show ?thesis using w(1,2) by (intro exI [of _ e2]) (subst mt_Star, fastforce)
    qed
  qed
next
  case (Cap n r)
  then obtain e1 where "(rev w @ u, v, e1) \<in> set (mt r (u, w @ v, e))" by fastforce
  then show ?case by force
qed simp_all

lemma mt_empty_iff: "plain r \<Longrightarrow> mt r (u, v, e) = [] \<longleftrightarrow> (\<nexists>w v'. v = w @ v' \<and> w \<in> lang r)"
proof
  assume *: "plain r" "mt r (u, v, e) = []"
  show "\<nexists>w v'. v = w @ v' \<and> w \<in> lang r"
  proof safe
    fix w v' assume "v = w @ v'" "w \<in> lang r"
    then show False using mt_complete [of w r u v' e] * by simp
  qed
next
  assume *: "plain r" "\<nexists>w v'. v = w @ v' \<and> w \<in> lang r"
  show "mt r (u, v, e) = []"
  proof (rule ccontr)
    assume "mt r (u, v, e) \<noteq> []"
    then obtain u' v' e' where "(u', v', e') \<in> set (mt r (u, v, e))" by (cases "mt r (u, v, e)") auto
    then show False using mt_sound * by blast
  qed
qed

section \<open>Searching and replacing\<close>

lemma find_from_None: "plain r \<Longrightarrow> find_from r u v = None \<longleftrightarrow> \<not> occurs r v"
proof (induction r u v rule: find_from.induct)
  case (1 r u v)
  show ?case
  proof (cases "mt r (u, v, [])")
    case Nil
    then have none: "\<nexists>w v'. v = w @ v' \<and> w \<in> lang r" using mt_empty_iff [OF 1(2)] by blast
    show ?thesis
    proof (cases v)
      case Nil
      then show ?thesis using \<open>mt _ _ = []\<close> none by (subst find_from.simps) (auto simp: occurs_def)
    next
      case (Cons c v1)
      have "occurs r v \<longleftrightarrow> occurs r v1"
        using none Cons unfolding occurs_def by (metis append_Cons append_Nil list.sel(3) neq_Nil_conv)
      then show ?thesis
        using \<open>mt _ _ = []\<close> Cons 1(1) [OF _ Cons 1(2)] by (subst find_from.simps) simp
    qed
  next
    case (Cons p ps)
    then have "\<exists>w v'. v = w @ v' \<and> w \<in> lang r" using mt_empty_iff [OF 1(2), of u v "[]"] by auto
    then have "occurs r v" unfolding occurs_def by (metis append_Nil)
    then show ?thesis using Cons by (subst find_from.simps) (auto split: prod.splits)
  qed
qed

text \<open>A match found is a word of the language, and no word starts before it.\<close>

lemma find_from_Some:
  assumes "find_from r u v = Some (pre, m, post, e)" and "plain r"
  shows "m \<in> lang r \<and> (\<forall>a w x. v = a @ w @ x \<and> w \<in> lang r \<longrightarrow> length pre \<le> length a)"
  using assms
proof (induction r u v arbitrary: pre m post e rule: find_from.induct)
  case (1 r u v)
  show ?case
  proof (cases "mt r (u, v, [])")
    case Nil
    then have none: "\<nexists>w v'. v = w @ v' \<and> w \<in> lang r" using mt_empty_iff [OF 1(3)] by blast
    obtain c v1 where v: "v = c # v1" using Nil 1(2) by (subst (asm) find_from.simps) (cases v; simp)
    obtain pre1 where pre: "pre = c # pre1" "find_from r (c # u) v1 = Some (pre1, m, post, e)"
      using Nil 1(2) v by (subst (asm) find_from.simps) auto
    have IH: "m \<in> lang r \<and> (\<forall>a w x. v1 = a @ w @ x \<and> w \<in> lang r \<longrightarrow> length pre1 \<le> length a)"
      by (rule 1(1) [OF Nil v pre(2) 1(3)])
    have "length pre \<le> length a" if "v = a @ w @ x" "w \<in> lang r" for a w x
    proof (cases a)
      case Nil
      then show ?thesis using none that by auto
    next
      case (Cons _ a1)
      then show ?thesis using IH that v pre by auto
    qed
    then show ?thesis using IH by blast
  next
    case (Cons p ps)
    moreover obtain u1 v1 e1 where p: "p = (u1, v1, e1)" by (cases p)
    moreover obtain w where "w \<in> lang r" "v = w @ v1"
      using Cons mt_sound [of u1 v1 e1 r u v "[]"] 1(3) by (auto simp: p)
    ultimately show ?thesis using 1(2) by (subst (asm) find_from.simps) auto
  qed
qed

lemma find_from_before:
  assumes "find_from r u v = Some (pre, m, post, e)" "plain r" "[] \<notin> lang r"
  shows "\<not> occurs r pre"
proof
  assume "occurs r pre"
  then obtain a w b where w: "pre = a @ w @ b" "w \<in> lang r" by (auto simp: occurs_def)
  then have "v = a @ w @ (b @ m @ post)" using find_from_split [OF assms(1)] by simp
  then have "length pre \<le> length a" using find_from_Some [OF assms(1,2)] w(2) by blast
  then show False using w assms(3) by (cases w) auto
qed

lemma match_whole_iff: "plain r \<Longrightarrow> (match_whole r s \<noteq> None) \<longleftrightarrow> s \<in> lang r"
proof -
  assume r: "plain r"
  have "(match_whole r s \<noteq> None) \<longleftrightarrow> (\<exists>u e. (u, [], e) \<in> set (mt r ([], s, [])))"
    unfolding match_whole_def by (auto simp: find_None_iff)
  also have "\<dots> \<longleftrightarrow> s \<in> lang r"
    using r mt_sound [of _ "[]" _ r "[]" s "[]"] mt_complete [of s r "[]" "[]" "[]"] by fastforce
  finally show ?thesis .
qed

lemma MatchString_iff: "plain r \<Longrightarrow> MatchString r s \<longleftrightarrow> occurs r s"
  by (simp add: MatchString_def find_from_None)

text \<open>
  How a replacement splits the text: the parts it keeps are parts of the text, and the pattern
  does not occur in any of them.
\<close>

lemma replace_from_induct [consumes 2, case_names keep replace]:
  assumes r: "plain r" "[] \<notin> lang r"
    and keep: "\<And>v. \<not> occurs r v \<Longrightarrow> P v v"
    and replace: "\<And>pre m post out. m \<in> lang r \<Longrightarrow> \<not> occurs r pre
        \<Longrightarrow> \<forall>a w x. pre @ m @ post = a @ w @ x \<and> w \<in> lang r \<longrightarrow> length pre \<le> length a
        \<Longrightarrow> P post out \<Longrightarrow> P (pre @ m @ post) (pre @ repl @ out)"
  shows "P v (replace_from r repl u v)"
proof (induction "length v" arbitrary: u v rule: less_induct)
  case less
  show ?case
  proof (cases "find_from r u v")
    case None
    then have "\<not> occurs r v" using find_from_None [OF r(1)] by blast
    then show ?thesis using None keep by (subst replace_from.simps) simp
  next
    case (Some p)
    obtain pre m post e where p: "p = (pre, m, post, e)" by (cases p)
    note f = Some [unfolded p]
    have v: "v = pre @ m @ post" by (rule find_from_split [OF f])
    have m: "m \<in> lang r" "m \<noteq> []" using find_from_Some [OF f r(1)] r(2) by auto
    have "P post (replace_from r repl (rev (pre @ m) @ u) post)" using v m(2) by (intro less) simp
    then have "P v (pre @ repl @ replace_from r repl (rev (pre @ m) @ u) post)"
      unfolding v using find_from_Some [OF f r(1)] find_from_before [OF f r] m(1) by (intro replace) (simp_all flip: v)
    then show ?thesis using f m(2) by (subst replace_from.simps) simp
  qed
qed

text \<open>The bytes the words of a pattern are made of.\<close>

fun alph :: "rx \<Rightarrow> char \<Rightarrow> bool" where
  "alph Eps c \<longleftrightarrow> False"
| "alph (Cls P) c \<longleftrightarrow> P c"
| "alph (Seq r s) c \<longleftrightarrow> alph r c \<or> alph s c"
| "alph (Alt r s) c \<longleftrightarrow> alph r c \<or> alph s c"
| "alph (Star r) c \<longleftrightarrow> alph r c"
| "alph (Cap n r) c \<longleftrightarrow> alph r c"
| "alph WordB c \<longleftrightarrow> False"

lemma star_of_set: "w \<in> star_of L \<Longrightarrow> c \<in> set w \<Longrightarrow> \<exists>v\<in>L. c \<in> set v"
  by (induction rule: star_of.induct) auto

lemma lang_alph: "w \<in> lang r \<Longrightarrow> c \<in> set w \<Longrightarrow> alph r c"
  by (induction r arbitrary: w) (fastforce dest!: star_of_set)+

fun nullable :: "rx \<Rightarrow> bool" where
  "nullable Eps \<longleftrightarrow> True"
| "nullable (Cls P) \<longleftrightarrow> False"
| "nullable (Seq r s) \<longleftrightarrow> nullable r \<and> nullable s"
| "nullable (Alt r s) \<longleftrightarrow> nullable r \<or> nullable s"
| "nullable (Star r) \<longleftrightarrow> True"
| "nullable (Cap n r) \<longleftrightarrow> nullable r"
| "nullable WordB \<longleftrightarrow> False"

lemma nullable_iff: "nullable r \<longleftrightarrow> [] \<in> lang r"
  by (induction r) (auto intro: star_Nil)

text \<open>A byte the words never contain separates their occurrences.\<close>

lemma occurs_separated:
  assumes "\<not> alph r c"
  shows "occurs r (x @ c # y) \<longleftrightarrow> occurs r x \<or> occurs r y"
proof
  assume "occurs r (x @ c # y)"
  then obtain a w b where *: "x @ c # y = a @ w @ b" "w \<in> lang r" by (auto simp: occurs_def)
  then have notin: "c \<notin> set w" using assms lang_alph by blast
  show "occurs r x \<or> occurs r y"
  proof (cases "length a \<le> length x")
    case True
    then obtain e where e: "x = a @ e" "w @ b = e @ c # y" using append_shorter [OF *(1) [symmetric]] by blast
    then show ?thesis using append_split_notin [OF notin e(2)] *(2) unfolding occurs_def by blast
  next
    case False
    then have "length (x @ [c]) \<le> length a" by simp
    moreover have "(x @ [c]) @ y = a @ w @ b" using *(1) by simp
    ultimately obtain e where "y = e @ w @ b" using append_shorter by blast
    then show ?thesis using *(2) unfolding occurs_def by blast
  qed
next
  assume "occurs r x \<or> occurs r y"
  then obtain a w b where w: "w \<in> lang r" "x = a @ w @ b \<or> y = a @ w @ b" by (auto simp: occurs_def)
  then have "x @ c # y = a @ w @ (b @ c # y) \<or> x @ c # y = (x @ c # a) @ w @ b" by auto
  then show "occurs r (x @ c # y)" using w(1) unfolding occurs_def by blast
qed

section \<open>The derived forms\<close>

lemma plain_derived [simp]:
  "plain (Plus r) = plain r" "plain (Opt r) = plain r" "plain (AtLeast n r) = plain r" "plain (Lit s)"
  "plain (fold_chr c)" "plain (FoldLit s)" "plain (FoldCls P)"
proof -
  show lit: "plain (Lit s)" for s by (induction s) simp_all
  show "plain (AtLeast n r) = plain r" by (induction n) auto
  show chr: "plain (fold_chr c)" for c by (simp add: fold_chr_def lit Let_def)
  show "plain (FoldLit s)" by (induction s) (simp_all add: chr)
  show "plain (FoldCls P)" by (simp add: FoldCls_def lit)
qed (simp_all add: Plus_def Opt_def)

lemma alph_derived [simp]:
  "alph (Plus r) c = alph r c" "alph (Opt r) c = alph r c" "alph (AtLeast n r) c = alph r c" "alph (Lit s) c \<longleftrightarrow> c \<in> set s"
proof -
  show "alph (AtLeast n r) c = alph r c" by (induction n) auto
  show "alph (Lit s) c \<longleftrightarrow> c \<in> set s" by (induction s) auto
qed (simp_all add: Plus_def Opt_def)

lemma nullable_derived [simp]:
  "nullable (Plus r) = nullable r" "nullable (Opt r)" "nullable (AtLeast n r) \<longleftrightarrow> n = 0 \<or> nullable r" "nullable (Lit s) \<longleftrightarrow> s = []"
proof -
  show "nullable (AtLeast n r) \<longleftrightarrow> n = 0 \<or> nullable r" by (induction n) auto
  show "nullable (Lit s) \<longleftrightarrow> s = []" by (cases s) auto
qed (simp_all add: Plus_def Opt_def)

lemma lang_SeqI: "a \<in> lang r \<Longrightarrow> b \<in> lang s \<Longrightarrow> a @ b \<in> lang (Seq r s)"
  by auto

lemma lang_SeqE:
  assumes "w \<in> lang (Seq r s)"
  obtains a b where "w = a @ b" "a \<in> lang r" "b \<in> lang s"
  using assms by auto

lemma lang_Seq_Cls: "w \<in> lang (Seq (Cls P) r) \<longleftrightarrow> (\<exists>c v. w = c # v \<and> P c \<and> v \<in> lang r)"
proof
  assume "w \<in> lang (Seq (Cls P) r)"
  then show "\<exists>c v. w = c # v \<and> P c \<and> v \<in> lang r" by auto
next
  assume "\<exists>c v. w = c # v \<and> P c \<and> v \<in> lang r"
  then obtain c v where "w = [c] @ v" "P c" "v \<in> lang r" by auto
  then show "w \<in> lang (Seq (Cls P) r)" by (simp only: lang.simps mem_Collect_eq) blast
qed

lemma lang_Lit [simp]: "lang (Lit s) = {s}"
  by (induction s) auto

lemma star_of_Cls: "star_of {[c] |c. P c} = {w. \<forall>c\<in>set w. P c}"
proof (intro set_eqI iffI)
  fix w assume "w \<in> star_of {[c] |c. P c}"
  then show "w \<in> {w. \<forall>c\<in>set w. P c}" by induction auto
next
  fix w assume "w \<in> {w. \<forall>c\<in>set w. P c}"
  then show "w \<in> star_of {[c] |c. P c}"
  proof (induction w)
    case (Cons c w)
    then show ?case using star_append [of "[c]" "{[c] |c. P c}" w] by auto
  qed (simp add: star_Nil)
qed

lemma lang_Star_Cls [simp]: "lang (Star (Cls P)) = {w. \<forall>c\<in>set w. P c}"
  by (simp add: star_of_Cls)

lemma lang_AtLeast_Cls [simp]: "lang (AtLeast n (Cls P)) = {w. n \<le> length w \<and> (\<forall>c\<in>set w. P c)}"
proof (induction n)
  case (Suc n)
  have "w \<in> lang (AtLeast (Suc n) (Cls P)) \<longleftrightarrow> Suc n \<le> length w \<and> (\<forall>c\<in>set w. P c)" for w
    by (cases w) (auto simp: Suc lang_Seq_Cls simp del: lang.simps)
  then show ?case by blast
qed (simp del: lang.simps)

lemma lang_Plus_Cls [simp]: "lang (Plus (Cls P)) = {w. w \<noteq> [] \<and> (\<forall>c\<in>set w. P c)}"
proof -
  have "w \<in> lang (Plus (Cls P)) \<longleftrightarrow> w \<noteq> [] \<and> (\<forall>c\<in>set w. P c)" for w
    by (cases w) (simp_all add: Plus_def lang_Seq_Cls del: lang.simps)
  then show ?thesis by blast
qed

lemma lang_Opt [simp]: "lang (Opt r) = insert [] (lang r)"
  by (auto simp: Opt_def)

section \<open>Captures\<close>

text \<open>The words of a pattern together with what its groups capture, the latest first.\<close>

inductive_set stars :: "(string \<times> captures) set \<Rightarrow> (string \<times> captures) set" for L :: "(string \<times> captures) set" where
  stars_Nil: "([], []) \<in> stars L"
| stars_append: "(w, d) \<in> L \<Longrightarrow> (v, e) \<in> stars L \<Longrightarrow> (w @ v, e @ d) \<in> stars L"

fun langc :: "rx \<Rightarrow> (string \<times> captures) set" where
  "langc Eps = {([], [])}"
| "langc (Cls P) = {([c], []) |c. P c}"
| "langc (Seq r s) = {(a @ b, e @ d) |a b d e. (a, d) \<in> langc r \<and> (b, e) \<in> langc s}"
| "langc (Alt r s) = langc r \<union> langc s"
| "langc (Star r) = stars (langc r)"
| "langc (Cap n r) = {(w, (n, w) # d) |w d. (w, d) \<in> langc r}"
| "langc WordB = {}"

lemma mt_captures:
  "(u', v', e') \<in> set (mt r (u, v, e)) \<Longrightarrow> plain r \<Longrightarrow> \<exists>w d. (w, d) \<in> langc r \<and> v = w @ v' \<and> u' = rev w @ u \<and> e' = d @ e"
proof (induction r "(u, v, e)" arbitrary: u v e u' v' e' rule: mt.induct)
  case (2 P u v e)
  then show ?case by (cases v) (auto split: if_splits)
next
  case (3 r s u v e)
  then obtain u1 v1 e1 where *: "(u1, v1, e1) \<in> set (mt r (u, v, e))" "(u', v', e') \<in> set (mt s (u1, v1, e1))" by auto
  then obtain w1 d1 w2 d2 where "(w1, d1) \<in> langc r" "v = w1 @ v1" "u1 = rev w1 @ u" "e1 = d1 @ e"
    "(w2, d2) \<in> langc s" "v1 = w2 @ v'" "u' = rev w2 @ u1" "e' = d2 @ e1"
    using 3(1) [OF *(1)] 3(2) [OF *(1) *(2)] 3(4) by auto
  then show ?case by (intro exI [of _ "w1 @ w2"] exI [of _ "d2 @ d1"]) auto
next
  case (4 r s u v e)
  then show ?case by (simp, metis UnI1 UnI2)
next
  case (5 r u v e)
  show ?case
  proof (cases "(u', v', e') = (u, v, e)")
    case True
    then show ?thesis by (auto intro: stars_Nil)
  next
    case False
    then obtain u1 v1 e1 where *: "(u1, v1, e1) \<in> set (mt r (u, v, e))" "length v1 < length v"
      "(u', v', e') \<in> set (mt (Star r) (u1, v1, e1))"
      using 5(3) by (subst (asm) mt_Star) blast
    then obtain w1 d1 where 1: "(w1, d1) \<in> langc r" "v = w1 @ v1" "u1 = rev w1 @ u" "e1 = d1 @ e"
      using 5(1) [OF *(1)] 5(4) by auto
    have "\<exists>w d. (w, d) \<in> langc (Star r) \<and> v1 = w @ v' \<and> u' = rev w @ u1 \<and> e' = d @ e1" using * 5(2,4) by blast
    then obtain w2 d2 where 2: "(w2, d2) \<in> langc (Star r)" "v1 = w2 @ v'" "u' = rev w2 @ u1" "e' = d2 @ e1" by blast
    have "(w1 @ w2, d2 @ d1) \<in> langc (Star r)" using 1(1) 2(1) by (auto intro: stars_append)
    then show ?thesis using 1 2 by (intro exI [of _ "w1 @ w2"] exI [of _ "d2 @ d1"]) auto
  qed
next
  case (6 n r u v e)
  then obtain d where *: "(u', v', d) \<in> set (mt r (u, v, e))" "e' = (n, rev (take (length u' - length u) u')) # d" by auto
  then obtain w d' where "(w, d') \<in> langc r" "v = w @ v'" "u' = rev w @ u" "d = d' @ e" using 6(1) [OF *(1)] 6(3) by auto
  then show ?case using *(2) by (intro exI [of _ w] exI [of _ "(n, w) # d'"]) auto
qed (auto split: if_splits)

lemma match_whole_captures: "match_whole r s = Some e \<Longrightarrow> plain r \<Longrightarrow> (s, e) \<in> langc r"
  unfolding match_whole_def by (auto simp: find_Some_iff) (metis append_Nil2 mt_captures nth_mem)

lemma langc_lang: "(w, d) \<in> langc r \<Longrightarrow> w \<in> lang r"
proof (induction r arbitrary: w d)
  case (Star r)
  have "(w, d) \<in> stars (langc r) \<Longrightarrow> w \<in> star_of (lang r)" for w d
    by (induction rule: stars.induct) (auto intro: star_Nil star_append Star.IH)
  then show ?case using Star.prems by simp
next
  case (Seq r s)
  then obtain a b d' e where "w = a @ b" "(a, d') \<in> langc r" "(b, e) \<in> langc s" by auto
  then show ?case using Seq.IH lang_SeqI by metis
qed auto

text \<open>A pattern without groups captures nothing.\<close>

fun groupless :: "rx \<Rightarrow> bool" where
  "groupless (Seq r s) \<longleftrightarrow> groupless r \<and> groupless s"
| "groupless (Alt r s) \<longleftrightarrow> groupless r \<and> groupless s"
| "groupless (Star r) \<longleftrightarrow> groupless r"
| "groupless (Cap n r) \<longleftrightarrow> False"
| "groupless _ \<longleftrightarrow> True"

lemma langc_groupless: "groupless r \<Longrightarrow> (w, d) \<in> langc r \<Longrightarrow> d = []"
proof (induction r arbitrary: w d)
  case (Star r)
  have "(w, d) \<in> stars (langc r) \<Longrightarrow> d = []" for w d
    by (induction rule: stars.induct) (use Star in auto)
  then show ?case using Star.prems by simp
next
  case (Seq r s)
  then show ?case by fastforce
qed auto

lemma groupless_derived [simp]: "groupless (Plus r) = groupless r" "groupless (Lit s)"
proof -
  show "groupless (Lit s)" by (induction s) simp_all
qed (simp add: Plus_def)

end
