(* ===== verification/Jwt_Keystore.thy ===== *)
theory Jwt_Keystore
  imports Jwt
begin

text \<open>
  The contract of \<open>jwt.KeySet\<close> (\<open>pkg/jwt/keyset.go\<close>): a map from identifiers to keys with at
  most one active key. The locale \<open>key_store\<close> states what a client relies on; it is interpreted
  on the model of the key set, and the key set is shown to refine the abstract store for every
  sequence of operations. Also the generation and printing of keys (\<open>GenerateKey\<close>,
  \<open>cmd/keygen\<close>) and the accessors of the claims.
\<close>

section \<open>The contract\<close>

locale key_store =
  fixes add :: "'k \<Rightarrow> 's \<Rightarrow> 's"
    and activate :: "string \<Rightarrow> 's \<Rightarrow> 's"
    and lookup :: "'s \<Rightarrow> string \<Rightarrow> 'k option"
    and active :: "'s \<Rightarrow> string option"
    and key_id :: "'k \<Rightarrow> string"
    and can_sign :: "'k \<Rightarrow> bool"
    and good :: "'k \<Rightarrow> bool"
  assumes lookup_add: "good k \<Longrightarrow> lookup (add k s) n = (if n = key_id k then Some k else lookup s n)"
    and active_add: "good k \<Longrightarrow> active (add k s) =
      (case active s of None \<Rightarrow> if can_sign k then Some (key_id k) else None | Some a \<Rightarrow> Some a)"
    and lookup_activate: "lookup (activate n s) = lookup s"
    and active_activate: "n \<noteq> [] \<Longrightarrow> active (activate n s) = (if \<exists>k. lookup s n = Some k \<and> can_sign k then Some n else active s)"
begin

text \<open>The active key can sign, if there is one.\<close>

lemma active_signs_add:
  assumes "good k" "\<And>n. active s = Some n \<Longrightarrow> \<exists>q. lookup s n = Some q \<and> can_sign q"
    and "active s = Some (key_id k) \<Longrightarrow> can_sign k"
    and "active (add k s) = Some n"
  shows "\<exists>q. lookup (add k s) n = Some q \<and> can_sign q"
  using assms by (auto simp: lookup_add active_add split: option.splits if_splits)

lemma active_signs_activate:
  assumes "m \<noteq> []" "\<And>n. active s = Some n \<Longrightarrow> \<exists>q. lookup s n = Some q \<and> can_sign q" "active (activate m s) = Some n"
  shows "\<exists>q. lookup (activate m s) n = Some q \<and> can_sign q"
  using assms by (auto simp: lookup_activate active_activate split: if_splits)

text \<open>A key stays as it is until one is added under its identifier.\<close>

lemma lookup_adds:
  assumes "\<forall>k\<in>set ks. good k \<and> key_id k \<noteq> n"
  shows "lookup (fold add ks s) n = lookup s n"
  using assms by (induction ks arbitrary: s) (auto simp: lookup_add)

end

section \<open>The key set provides it\<close>

definition lookup_key :: "key_set \<Rightarrow> string \<Rightarrow> key option" where
  "lookup_key s n = (case Get n s of Inl _ \<Rightarrow> None | Inr k \<Rightarrow> Some k)"

definition active_id :: "key_set \<Rightarrow> string option" where
  "active_id s = (if ks_activeKID s = [] then None else Some (ks_activeKID s))"

definition good_key :: "key \<Rightarrow> bool" where
  "good_key k \<longleftrightarrow> key_ID k \<noteq> [] \<and> length (key_Public k) = PublicKeySize"

lemma lookup_key_eq: "lookup_key s n = map_of (ks_keys s) n"
  by (simp add: lookup_key_def Get_def split: option.split)

interpretation keys: key_store "\<lambda>k s. snd (Add cd k s)" "\<lambda>n s. snd (SetActive n s)" lookup_key active_id key_ID CanSign good_key
  for cd :: "'b codec"
  by unfold_locales
    (auto simp: lookup_key_eq Add_def SetActive_def active_id_def good_key_def Let_def update_conv split: option.splits)

section \<open>Refinement of a map\<close>

text \<open>The abstract store: a partial map and the identifier of the active key.\<close>

record abs_store =
  ab_keys :: "string \<Rightarrow> key option"
  ab_active :: "string option"

definition abs_of :: "key_set \<Rightarrow> abs_store" where
  "abs_of s = \<lparr>ab_keys = map_of (ks_keys s), ab_active = active_id s\<rparr>"

datatype keys_call = CallAdd key | CallSetActive string

text \<open>A call is refused as a whole, or takes effect.\<close>

fun abs_op :: "('b codec) \<Rightarrow> keys_call \<Rightarrow> abs_store \<Rightarrow> abs_store" where
  "abs_op cd (CallAdd k) a =
     (if length (key_Public k) \<noteq> PublicKeySize then a
      else (let k = (if key_ID k = [] then k\<lparr>key_ID := cd_KeyID cd (key_Public k)\<rparr> else k) in
            \<lparr>ab_keys = (ab_keys a)(key_ID k \<mapsto> k),
             ab_active = (if ab_active a = None \<and> CanSign k then Some (key_ID k) else ab_active a)\<rparr>))"
| "abs_op cd (CallSetActive n) a =
     (case ab_keys a n of Some k \<Rightarrow> if CanSign k then a\<lparr>ab_active := Some n\<rparr> else a | None \<Rightarrow> a)"

fun key_op :: "('b codec) \<Rightarrow> keys_call \<Rightarrow> key_set \<Rightarrow> key_set" where
  "key_op cd (CallAdd k) s = snd (Add cd k s)"
| "key_op cd (CallSetActive n) s = snd (SetActive n s)"

text \<open>No key is stored under the empty identifier, which stands for no active key.\<close>

definition named :: "key_set \<Rightarrow> bool" where "named s \<longleftrightarrow> map_of (ks_keys s) [] = None"

lemma key_op_refines:
  assumes "\<And>p. cd_KeyID cd p \<noteq> []" "named s"
  shows "abs_of (key_op cd x s) = abs_op cd x (abs_of s) \<and> named (key_op cd x s)"
proof (cases x)
  case (CallAdd k)
  have "[] \<noteq> cd_KeyID cd p" for p using assms(1) [of p] by auto
  then show ?thesis
    using CallAdd assms by (auto simp: abs_of_def named_def Add_def active_id_def Let_def update_conv' update_conv)
next
  case (CallSetActive n)
  have "n \<noteq> []" if "map_of (ks_keys s) n = Some k" for k using that assms(2) by (auto simp: named_def)
  then show ?thesis
    using assms(2) CallSetActive by (auto simp: abs_of_def named_def SetActive_def active_id_def split: option.splits)
qed

section \<open>Generating and printing keys\<close>

definition KeyID :: "'b codec \<Rightarrow> bytes \<Rightarrow> string" where "KeyID cd public = cd_KeyID cd public"

text \<open>\<open>gen\<close> is the answer of \<open>ed25519.GenerateKey\<close>: a public and a private key.\<close>

definition GenerateKey :: "'b codec \<Rightarrow> go_error + (bytes \<times> bytes) \<Rightarrow> go_error + key" where
  "GenerateKey cd gen =
     (case gen of
        Inl err \<Rightarrow> Inl (Errorf ''generating the Ed25519 key'' err)
      | Inr (public, private) \<Rightarrow> Inr \<lparr>key_ID = KeyID cd public, key_Public = public, key_Private = private\<rparr>)"

text \<open>The exit status, the standard output and the error stream of \<open>keygen\<close>.\<close>

definition env_line :: "string \<Rightarrow> bytes \<Rightarrow> string" where
  "env_line name pem = name @ ''='' @ [CHR 0x22] @ escape pem @ [CHR 0x22]"

definition keygen_main :: "'b codec \<Rightarrow> go_error + (bytes \<times> bytes) \<Rightarrow> bool \<Rightarrow> int \<times> string list \<times> string list" where
  "keygen_main cd gen raw =
     (case GenerateKey cd gen of
        Inl err \<Rightarrow> (1, [], [''generating the key: '' @ err_text err])
      | Inr key \<Rightarrow>
          (case EncodePrivateKeyPEM cd key of
             Inl err \<Rightarrow> (1, [], [''encoding the private key: '' @ err_text err])
           | Inr privatePEM \<Rightarrow>
               (case EncodePublicKeyPEM cd key of
                  Inl err \<Rightarrow> (1, [], [''encoding the public key: '' @ err_text err])
                | Inr publicPEM \<Rightarrow>
                    (0, [''# kid: '' @ key_ID key, []] @
                        (if raw
                         then [''# JWT_PRIVATE_KEY_PEM  --  identity only, copy everything between the markers'', TrimSpace privatePEM,
                               [], ''# JWT_PUBLIC_KEYS_PEM  --  every service'', TrimSpace publicPEM]
                         else [''# identity only:'', env_line ''JWT_PRIVATE_KEY_PEM'' privatePEM, [],
                               ''# every service:'', env_line ''JWT_PUBLIC_KEYS_PEM'' publicPEM, [],
                               ''# This form is for a .env file only. For Doppler or any other secrets manager'',
                               ''# run it again with -pem: the escaped form does not parse there.'']), []))))"

section \<open>Reading claims\<close>

definition Claims_Subject :: "jwt_claims \<Rightarrow> string" where "Claims_Subject c = cl_Subject c"
definition Claims_ID :: "jwt_claims \<Rightarrow> string" where "Claims_ID c = cl_ID c"

text \<open>\<open>zero\<close> is the zero value of \<open>time.Time\<close>.\<close>

definition Claims_ExpiresAt :: "timestamp \<Rightarrow> jwt_claims \<Rightarrow> timestamp" where
  "Claims_ExpiresAt zero c = (case cl_ExpiresAt c of None \<Rightarrow> zero | Some t \<Rightarrow> t)"
definition Claims_IssuedAt :: "timestamp \<Rightarrow> jwt_claims \<Rightarrow> timestamp" where
  "Claims_IssuedAt zero c = (case cl_IssuedAt c of None \<Rightarrow> zero | Some t \<Rightarrow> t)"

definition TTL :: "issuer \<Rightarrow> duration" where "TTL i = jc_AccessTokenTTL (is_cfg i)"

text \<open>
  What a caller of \<open>Issue\<close> reads off the claims: the lifetime is the one \<open>TTL\<close> reports, which
  is never zero or negative, up to the whole seconds of the two dates.
\<close>

lemma issued_lifetime:
  assumes "NewIssuer keys cfg = Inr i" "Issue L i uuid now req = Inr (tok, c)"
  shows "0 < TTL i" "Claims_IssuedAt zero c = NumericDate now" "Claims_ExpiresAt zero c = NumericDate (now + TTL i)"
    "Claims_Subject c = tr_UserID req" "Claims_ID c = uuid"
  using assms
  by (auto simp: NewIssuer_def Issue_def TTL_def Claims_IssuedAt_def Claims_ExpiresAt_def Claims_Subject_def Claims_ID_def
      DefaultAccessTokenTTL_def Let_def split: sum.splits)

section \<open>Properties\<close>

lemma key_ops_refine:
  assumes "\<And>p. cd_KeyID cd p \<noteq> []" "named s"
  shows "abs_of (fold (key_op cd) ops s) = fold (abs_op cd) ops (abs_of s) \<and> named (fold (key_op cd) ops s)"
  using assms(2) by (induction ops arbitrary: s) (simp_all add: key_op_refines [OF assms(1)])

text \<open>The active identifier of an abstract store that started empty names a key.\<close>

lemma abs_active_known: "(ab_active a \<noteq> None \<longrightarrow> ab_keys a (the (ab_active a)) \<noteq> None)
    \<Longrightarrow> ab_active (fold (abs_op cd) ops a) \<noteq> None \<longrightarrow> ab_keys (fold (abs_op cd) ops a) (the (ab_active (fold (abs_op cd) ops a))) \<noteq> None"
proof (induction ops arbitrary: a)
  case (Cons x ops)
  have "ab_active (abs_op cd x a) \<noteq> None \<longrightarrow> ab_keys (abs_op cd x a) (the (ab_active (abs_op cd x a))) \<noteq> None"
    using Cons.prems by (cases x) (auto simp: Let_def split: option.splits)
  then show ?case using Cons.IH by simp
qed simp

text \<open>
  C17. The key set refines a map with a marked key: after any sequence of \<open>Add\<close> and
  \<open>SetActive\<close>, refused calls included, \<open>Get\<close> and \<open>Active\<close> answer what the
  abstract store answers after the same sequence.
\<close>

theorem key_set_refines_store:
  assumes "\<And>p. cd_KeyID cd p \<noteq> []"
  shows "let s = fold (key_op cd) calls NewKeySet; a = fold (abs_op cd) calls \<lparr>ab_keys = Map.empty, ab_active = None\<rparr> in
    abs_of s = a
    \<and> (\<forall>n. Get n s = (case ab_keys a n of None \<Rightarrow> Inl (Wrapped (err_text ErrUnknownKey @ '': '' @ n) [ErrUnknownKey]) | Some k \<Rightarrow> Inr k))
    \<and> Active s = (case ab_active a of None \<Rightarrow> Inl ErrNoSigningKey | Some n \<Rightarrow> Inr (the (ab_keys a n)))"
proof -
  let ?s = "fold (key_op cd) calls NewKeySet" and ?a = "fold (abs_op cd) calls \<lparr>ab_keys = Map.empty, ab_active = None\<rparr>"
  have new: "abs_of NewKeySet = \<lparr>ab_keys = Map.empty, ab_active = None\<rparr>" "named NewKeySet"
    by (simp_all add: abs_of_def NewKeySet_def active_id_def named_def)
  have a: "?a = abs_of ?s" using key_ops_refine [OF assms new(2), of calls] new(1) by simp
  have known: "ab_active ?a \<noteq> None \<longrightarrow> ab_keys ?a (the (ab_active ?a)) \<noteq> None" by (rule abs_active_known) simp
  have got: "Get n ?s = (case ab_keys ?a n of None \<Rightarrow> Inl (Wrapped (err_text ErrUnknownKey @ '': '' @ n) [ErrUnknownKey]) | Some k \<Rightarrow> Inr k)" for n
    by (simp add: a abs_of_def Get_def split: option.split)
  have act: "Active ?s = (case ab_active ?a of None \<Rightarrow> Inl ErrNoSigningKey | Some n \<Rightarrow> Inr (the (ab_keys ?a n)))"
    using known by (auto simp: a abs_of_def Active_def active_id_def split: if_splits)
  show ?thesis unfolding Let_def using a [symmetric] got act by blast
qed

lemma key_set_refines_store_witness:
  "abs_of (fold (key_op demo_codec) [CallAdd \<lparr>key_ID = ''a'', key_Public = replicate 32 (CHR ''p''), key_Private = ''s''\<rparr>, CallSetActive ''b''] NewKeySet)
   = fold (abs_op demo_codec) [CallAdd \<lparr>key_ID = ''a'', key_Public = replicate 32 (CHR ''p''), key_Private = ''s''\<rparr>, CallSetActive ''b'']
       \<lparr>ab_keys = Map.empty, ab_active = None\<rparr>"
  using key_set_refines_store [of demo_codec "[CallAdd \<lparr>key_ID = ''a'', key_Public = replicate 32 (CHR ''p''), key_Private = ''s''\<rparr>, CallSetActive ''b'']"]
  by (simp add: demo_codec_def Let_def)

text \<open>
  The active key keeps its ability to sign when keys are added under other identifiers or with a
  private half.
\<close>

lemma active_key_keeps_signing:
  assumes "good_key k" "\<And>n. active_id s = Some n \<Longrightarrow> \<exists>q. lookup_key s n = Some q \<and> CanSign q"
    and "active_id s = Some (key_ID k) \<Longrightarrow> CanSign k" and "active_id (snd (Add cd k s)) = Some n"
  shows "\<exists>q. lookup_key (snd (Add cd k s)) n = Some q \<and> CanSign q"
  using assms by (rule keys.active_signs_add)

text \<open>
  What the PEM and PKCS#8 codecs document: decoding undoes encoding, with or without the white space
  around the text, a PEM holds no backslash, and marshalling is undone by parsing.
\<close>

definition pem_doc :: "'b codec \<Rightarrow> bool" where
  "pem_doc cd \<longleftrightarrow> (\<forall>block. \<exists>rest. cd_Decode cd (TrimSpace (cd_Encode cd block)) = Some (block, rest))
     \<and> (\<forall>block. backslash \<notin> set (cd_Encode cd block))
     \<and> (\<forall>p block. cd_MarshalPKCS8 cd p = Inr block \<longrightarrow> cd_PKCS8 cd block = Inr (Ed25519Key p))
     \<and> (\<forall>p block. cd_MarshalPKIX cd p = Inr block \<longrightarrow> cd_PKIX cd block = Inr (Ed25519Key p))"

text \<open>
  C29. A pair that \<open>keygen\<close> prints is the pair a service loads, in either form: the escaped
  line for a \<open>.env\<close> file and the PEM itself both parse back to the generated key, the
  public line to its public half.
\<close>

theorem keygen_roundtrip:
  assumes "pem_doc cd" "cd_PublicOf cd private = public"
    and "keygen_main cd (Inr (public, private)) raw = (0, out, errs)"
  shows "\<exists>key privatePEM publicPEM. GenerateKey cd (Inr (public, private)) = Inr key
    \<and> (if raw then {TrimSpace privatePEM, TrimSpace publicPEM} \<subseteq> set out
       else {env_line ''JWT_PRIVATE_KEY_PEM'' privatePEM, env_line ''JWT_PUBLIC_KEYS_PEM'' publicPEM} \<subseteq> set out)
    \<and> (\<forall>form \<in> {escape, TrimSpace}. ParsePrivateKeyPEM cd (normalizePEM (form privatePEM)) = Inr key
         \<and> ParsePublicKeyPEM cd (normalizePEM (form publicPEM)) = Inr (key\<lparr>key_Private := []\<rparr>))"
proof -
  let ?key = "\<lparr>key_ID = cd_KeyID cd public, key_Public = public, key_Private = private\<rparr>"
  obtain bp bq where b: "cd_MarshalPKCS8 cd private = Inr bp" "cd_MarshalPKIX cd public = Inr bq"
    using assms(3) by (auto simp: keygen_main_def GenerateKey_def EncodePrivateKeyPEM_def EncodePublicKeyPEM_def split: sum.splits)
  have form: "normalizePEM (form (cd_Encode cd block)) = TrimSpace (cd_Encode cd block)" if "form \<in> {escape, TrimSpace}" for form block
  proof -
    have no: "backslash \<notin> set (cd_Encode cd block)" "backslash \<notin> set (TrimSpace (cd_Encode cd block))"
      using assms(1) set_TrimSpace [of "cd_Encode cd block"] by (auto simp: pem_doc_def)
    then show ?thesis using that replace_pair_char [OF no(2)] replace_pair_id [OF no(2)] by (auto simp: normalizePEM_def escape_def)
  qed
  have dec: "\<exists>rest. cd_Decode cd (TrimSpace (cd_Encode cd block)) = Some (block, rest)" for block
    using assms(1) by (simp add: pem_doc_def)
  have parse: "ParsePrivateKeyPEM cd (TrimSpace (cd_Encode cd bp)) = Inr ?key" "ParsePublicKeyPEM cd (TrimSpace (cd_Encode cd bq)) = Inr (?key\<lparr>key_Private := []\<rparr>)"
  proof -
    have "cd_PKCS8 cd bp = Inr (Ed25519Key private)" "cd_PKIX cd bq = Inr (Ed25519Key public)"
      using assms(1) b unfolding pem_doc_def by blast+
    then show "ParsePrivateKeyPEM cd (TrimSpace (cd_Encode cd bp)) = Inr ?key"
      "ParsePublicKeyPEM cd (TrimSpace (cd_Encode cd bq)) = Inr (?key\<lparr>key_Private := []\<rparr>)"
      using dec [of bp] dec [of bq] assms(2) by (auto simp: ParsePrivateKeyPEM_def ParsePublicKeyPEM_def Let_def)
  qed
  have out: "if raw then {TrimSpace (cd_Encode cd bp), TrimSpace (cd_Encode cd bq)} \<subseteq> set out
       else {env_line ''JWT_PRIVATE_KEY_PEM'' (cd_Encode cd bp), env_line ''JWT_PUBLIC_KEYS_PEM'' (cd_Encode cd bq)} \<subseteq> set out"
    using assms(3) b by (auto simp: keygen_main_def GenerateKey_def EncodePrivateKeyPEM_def EncodePublicKeyPEM_def)
  show ?thesis
    using form parse out
    by (intro exI [of _ ?key] exI [of _ "cd_Encode cd bp"] exI [of _ "cd_Encode cd bq"]) (simp add: GenerateKey_def KeyID_def)
qed

definition pem_codec :: "unit codec" where
  "pem_codec =
     \<lparr>cd_KeyID = \<lambda>p. CHR ''k'' # take 1 p, cd_PublicOf = \<lambda>p. p,
      cd_Decode = \<lambda>data. if data = ''BEGIN'' @ [newline] @ ''END'' then Some ((), []) else None,
      cd_Encode = \<lambda>_. ''BEGIN'' @ [newline] @ ''END'' @ [newline], cd_PKCS8 = \<lambda>_. Inr (Ed25519Key ''s''), cd_PKIX = \<lambda>_. Inr (Ed25519Key ''s''),
      cd_MarshalPKCS8 = \<lambda>p. if p = ''s'' then Inr () else Inl ErrInvalidKey, cd_MarshalPKIX = \<lambda>p. if p = ''s'' then Inr () else Inl ErrInvalidKey,
      cd_Base64 = \<lambda>p. p\<rparr>"

lemma keygen_roundtrip_witness:
  "\<exists>key privatePEM. GenerateKey pem_codec (Inr (''s'', ''s'')) = Inr key \<and> ParsePrivateKeyPEM pem_codec (normalizePEM (escape privatePEM)) = Inr key"
proof -
  have doc: "pem_doc pem_codec" by (auto simp: pem_doc_def pem_codec_def TrimSpace_def is_space_def split: if_splits)
  have "fst (keygen_main pem_codec (Inr (''s'', ''s'')) False) = 0"
    by (simp add: keygen_main_def GenerateKey_def EncodePrivateKeyPEM_def EncodePublicKeyPEM_def pem_codec_def)
  then obtain out errs where "keygen_main pem_codec (Inr (''s'', ''s'')) False = (0, out, errs)"
    by (cases "keygen_main pem_codec (Inr (''s'', ''s'')) False") auto
  from keygen_roundtrip [OF doc _ this] show ?thesis by (auto simp: pem_codec_def)
qed

end
