(* ===== verification/Services.thy ===== *)
theory Services
  imports Identity Sentry Jwt_Keystore
begin

text \<open>
  The processes of the other services. admin, booking and tours have one \<open>main.go\<close>, the same but
  for the name of the service: the gRPC server with the standard health service only, and an HTTP
  server without a gateway. mail-dispatcher has no gRPC server at all. The reporter each of them
  sets up before its logger is connected to \<open>run\<close> here.
\<close>

section \<open>The reporter of a process\<close>

text \<open>\<open>new\<close> is the constructor of the reporting library, \<open>tags\<close> the tags of its global scope.\<close>

definition reporter_for ::
  "(writer_config \<Rightarrow> go_error + (writer \<times> ('s \<Rightarrow> go_error option \<times> 's))) \<Rightarrow> build_info \<Rightarrow> (string \<times> string) list
   \<Rightarrow> svc_config \<Rightarrow> go_error + 's sentry_sink" where
  "reporter_for new build tags cfg =
     fst (sentry_Setup new
       \<lparr>so_DSN = bc_SentryDSN (sc_Base cfg), so_Environment = bc_Environment (sc_Base cfg),
        so_Release = Release (bc_ServiceName (sc_Base cfg)) (bi_Version build) (bi_Commit build),
        so_ServiceName = bc_ServiceName (sc_Base cfg)\<rparr> tags)"

text \<open>\<open>run\<close> with that reporter: its writer is one of the logger's, and it is closed on the way out.\<close>

definition reported_run ::
  "(writer_config \<Rightarrow> go_error + (writer \<times> ('s \<Rightarrow> go_error option \<times> 's))) \<Rightarrow> (string \<times> string) list
   \<Rightarrow> (string \<Rightarrow> level option) \<Rightarrow> (go_error + svc_config) \<Rightarrow> build_info
   \<Rightarrow> (svc_config \<Rightarrow> go_error option) \<Rightarrow> (svc_config \<Rightarrow> logger \<Rightarrow> go_error option) \<Rightarrow> bool \<Rightarrow> go_error option \<times> run_event list" where
  "reported_run new tags zparse load build migrate service migrateOnly =
     run zparse load build
       (\<lambda>cfg. case reporter_for new build tags cfg of Inl err \<Rightarrow> Inl err | Inr sink \<Rightarrow> Inr (Sink_Writer (Some sink)))
       migrate service migrateOnly"

section \<open>admin, booking and tours\<close>

definition plain_buildGRPC ::
  "('q, 'm, 'v) grpc_libs \<Rightarrow> svc_config \<Rightarrow> logger \<Rightarrow> go_error + ('q, 'p, 'h, 's) grpc_server" where
  "plain_buildGRPC L cfg log =
     grpc_New L
       \<lparr>gc_Address = GRPCAddress (sc_Base cfg), gc_Environment = bc_Environment (sc_Base cfg), gc_Logger = log, gc_Metrics = True,
        gc_MaxRecvMsgSize = bc_GRPCMaxRecvMsgSize (sc_Base cfg), gc_ShutdownTimeout = bc_ShutdownTimeout (sc_Base cfg),
        gc_MinClientAPIVersion = bc_MinClientAPIVersion (sc_Base cfg), gc_PublicMethods = Some (NewAllowlist HealthMethods)\<rparr>
       \<lparr>dp_RateLimiter = None, dp_Authenticator = None, dp_Authorizer = None, dp_Extra = []\<rparr>"

definition plain_buildHTTP ::
  "(string \<Rightarrow> go_error + string) \<Rightarrow> svc_config \<Rightarrow> string \<Rightarrow> logger \<Rightarrow> registry \<Rightarrow> (go_error + unit http_server) option" where
  "plain_buildHTTP listen cfg version log healthRegistry =
     (case http_New \<lparr>hc_Address = HTTPAddress (sc_Base cfg), hc_ServiceName = bc_ServiceName (sc_Base cfg),
                     hc_Version = version, hc_Logger = log, hc_Gateway = None, hc_Health = Some healthRegistry,
                     hc_Metrics = True, hc_Extra = [], hc_ShutdownTimeout = bc_ShutdownTimeout (sc_Base cfg)\<rparr> of
        None \<Rightarrow> None
      | Some (Inl err) \<Rightarrow> Some (Inl err)
      | Some (Inr srv) \<Rightarrow>
          (case http_Listen listen srv of
             (Some err, srv) \<Rightarrow> Some (Inl err)
           | (None, srv) \<Rightarrow> Some (Inr srv)))"

text \<open>\<open>serve\<close> opens what identity's does; the key set is loaded and thrown away.\<close>

definition plain_serve ::
  "('q, 'm, 'v) grpc_libs \<Rightarrow> ('x, 'o, 'p, 'r, 'b) outside \<Rightarrow> svc_config \<Rightarrow> string \<Rightarrow> logger
   \<Rightarrow> ending list \<Rightarrow> ('x, 'o, 'p, 'r, 'q) world \<Rightarrow> ('x, 'o, 'p, 'r, 'q) world served" where
  "plain_serve L os cfg version log es w0 =
     (case open_dependencies os cfg version w0 of
        (None, w) \<Rightarrow> ServeStuck
      | (Some (Inl err), w) \<Rightarrow> ServeEnded (Some err) w
      | (Some (Inr op), w) \<Rightarrow>
     (let healthRegistry = health_registry cfg version (os_poolPing os (op_pool op)) (op_redis op) (wd_redis w)
                             (op_broker op) (wd_broker w) (os_took os) in
      case plain_buildGRPC L cfg log of
        Inl err \<Rightarrow> ServeEnded (Some err) w
      | Inr grpcSrv \<Rightarrow>
     (case grpc_Listen (os_listen os) grpcSrv of
        (Some err, _) \<Rightarrow> ServeEnded (Some err) w
      | (None, grpcSrv) \<Rightarrow>
     (case plain_buildHTTP (os_listen os) cfg version log healthRegistry of
        None \<Rightarrow> ServePanicked
      | Some (Inl err) \<Rightarrow> ServeEnded (Some err) w
      | Some (Inr httpSrv) \<Rightarrow>
     served_of (Runner_Run (service_runner (bc_ShutdownTimeout (sc_Base cfg)) (stoppers_of os op httpSrv)) es
             (w\<lparr>wd_grpc := Some grpcSrv,
                wd_log := wd_log w @ emit log InfoLevel [(''grpc'', grpc_Address grpcSrv), (''http'', http_Address httpSrv)] None ''ready''\<rparr>))))))"

text \<open>\<open>main\<close>, with the name of the service as an argument.\<close>

definition service_main :: "string \<Rightarrow> bool \<Rightarrow> go_error option \<Rightarrow> go_error option \<Rightarrow> int \<times> string list" where
  "service_main name healthcheck probe outcome =
     (if healthcheck
      then (case probe of Some err \<Rightarrow> (1, [name @ '': unhealthy: '' @ err_text err]) | None \<Rightarrow> (0, []))
      else (case outcome of Some err \<Rightarrow> (1, [name @ '': fatal: '' @ err_text err]) | None \<Rightarrow> (0, [])))"

text \<open>The processes, each under its own name.\<close>

definition admin_main :: "bool \<Rightarrow> go_error option \<Rightarrow> go_error option \<Rightarrow> int \<times> string list" where
  "admin_main = service_main ''admin''"

definition booking_main :: "bool \<Rightarrow> go_error option \<Rightarrow> go_error option \<Rightarrow> int \<times> string list" where
  "booking_main = service_main ''booking''"

definition tours_main :: "bool \<Rightarrow> go_error option \<Rightarrow> go_error option \<Rightarrow> int \<times> string list" where
  "tours_main = service_main ''tours''"

section \<open>mail-dispatcher\<close>

definition mail_serviceName :: string where "mail_serviceName = ''mail-dispatcher''"

definition mail_main :: "bool \<Rightarrow> go_error option \<Rightarrow> go_error option \<Rightarrow> int \<times> string list" where
  "mail_main = service_main mail_serviceName"

definition mail_runner :: "duration \<Rightarrow> 'w stoppers \<Rightarrow> 'w runner" where
  "mail_runner timeout sp =
     Runner_Add \<lparr>cm_Name = ''http'', cm_Start = True, cm_Stop = Some (sp_http sp)\<rparr>
      (Runner_Add \<lparr>cm_Name = ''outbox-worker'', cm_Start = True, cm_Stop = None\<rparr>
       (Runner_Add \<lparr>cm_Name = ''broker'', cm_Start = False, cm_Stop = Some (sp_broker sp)\<rparr>
        (Runner_Add \<lparr>cm_Name = ''cache'', cm_Start = False, cm_Stop = Some (sp_cache sp)\<rparr>
         (Runner_Add \<lparr>cm_Name = ''database'', cm_Start = False, cm_Stop = Some (\<lambda>w. (None, sp_database sp w))\<rparr>
          (Runner_Add \<lparr>cm_Name = ''tracing'', cm_Start = False, cm_Stop = Some (sp_tracing sp)\<rparr>
           (NewRunner timeout))))))"

definition mail_serve ::
  "('x, 'o, 'p, 'r, 'b) outside \<Rightarrow> svc_config \<Rightarrow> string \<Rightarrow> logger
   \<Rightarrow> ending list \<Rightarrow> ('x, 'o, 'p, 'r, 'q) world \<Rightarrow> ('x, 'o, 'p, 'r, 'q) world served" where
  "mail_serve os cfg version log es w0 =
     (case open_dependencies os cfg version w0 of
        (None, w) \<Rightarrow> ServeStuck
      | (Some (Inl err), w) \<Rightarrow> ServeEnded (Some err) w
      | (Some (Inr op), w) \<Rightarrow>
     (let healthRegistry = health_registry cfg version (os_poolPing os (op_pool op)) (op_redis op) (wd_redis w)
                             (op_broker op) (wd_broker w) (os_took os) in
      case plain_buildHTTP (os_listen os) cfg version log healthRegistry of
        None \<Rightarrow> ServePanicked
      | Some (Inl err) \<Rightarrow> ServeEnded (Some err) w
      | Some (Inr httpSrv) \<Rightarrow>
     served_of (Runner_Run (mail_runner (bc_ShutdownTimeout (sc_Base cfg)) (stoppers_of os op httpSrv)) es
             (w\<lparr>wd_log := wd_log w @ emit log InfoLevel [(''http'', http_Address httpSrv)] None ''ready''\<rparr>))))"

section \<open>Lemmas\<close>

text \<open>Without extra handlers no pattern is mounted twice: the HTTP server is always built.\<close>

lemma plain_buildHTTP_eq:
  "plain_buildHTTP listen cfg version log g =
     Some (case listen (HTTPAddress (sc_Base cfg)) of
        Inl err \<Rightarrow> Inl (Errorf (''listening on '' @ HTTPAddress (sc_Base cfg)) err)
      | Inr bound \<Rightarrow> Inr \<lparr>hs_cfg = \<lparr>hc_Address = HTTPAddress (sc_Base cfg), hc_ServiceName = bc_ServiceName (sc_Base cfg),
            hc_Version = version, hc_Logger = log, hc_Gateway = None, hc_Health = Some g, hc_Metrics = True, hc_Extra = [],
            hc_ShutdownTimeout = (if bc_ShutdownTimeout (sc_Base cfg) \<le> 0 then 15 * Second else bc_ShutdownTimeout (sc_Base cfg))\<rparr>,
          hs_handler = [(PathLiveness, LivenessRoute (bc_ServiceName (sc_Base cfg)) version), (PathReadiness, ReadinessRoute g), (PathMetrics, MetricsRoute)],
          hs_timeouts = [defaultReadHeaderTimeout, defaultReadTimeout, defaultWriteTimeout, defaultIdleTimeout], hs_listener = Some bound\<rparr>)"
  by (simp add: plain_buildHTTP_def http_New_def http_Listen_def mux_Handle_def Let_def PathLiveness_def PathReadiness_def PathMetrics_def
      split: sum.split)

text \<open>
  A process exits with 0 exactly if what it was asked to do succeeded, the probe with
  \<open>-healthcheck\<close> and the run without, and otherwise says which service failed and why.
\<close>

lemma service_exit_status:
  "fst (service_main name hc probe outcome) = 0 \<longleftrightarrow> (if hc then probe else outcome) = None"
  "(if hc then probe else outcome) = Some err \<Longrightarrow> \<exists>what. service_main name hc probe outcome = (1, [name @ '': '' @ what @ '': '' @ err_text err])"
  by (cases hc; auto simp: service_main_def split: option.split)+

section \<open>Properties\<close>

lemma mail_runner_stops:
  "List.map_filter cm_Stop (rev (rn_components (mail_runner t sp))) =
     [sp_http sp, sp_broker sp, sp_cache sp, \<lambda>w. (None, sp_database sp w), sp_tracing sp]"
  by (simp add: mail_runner_def Runner_Add_def NewRunner_def List.map_filter_def)

lemma Runner_Run_mail:
  assumes "e \<in> set es" "ends_run e"
  shows "\<exists>res. served_of (Runner_Run (mail_runner t sp) es w) =
    (let w' = run_stops [sp_http sp, sp_broker sp, sp_cache sp, \<lambda>w. (None, sp_database sp w), sp_tracing sp] w
     in if returned [4, 5] es then ServeEnded res w' else ServeDraining w')"
proof -
  have "started_at (mail_runner t sp) = [4, 5]"
    by (simp add: started_at_def mail_runner_def Runner_Add_def NewRunner_def nth_Cons')
  moreover  obtain errs where "stop_all (rev (rn_components (mail_runner t sp))) [] w =
      (errs, run_stops [sp_http sp, sp_broker sp, sp_cache sp, \<lambda>w. (None, sp_database sp w), sp_tracing sp] w)"
    using stop_all_run [of "rev (rn_components (mail_runner t sp))" "[]" w] by (auto simp: mail_runner_stops)
  ultimately show ?thesis using ends_run_ex [OF assms] by (auto simp: Runner_Run_def shutdown_def Let_def)
qed

lemma mail_served:
  assumes "mail_serve os cfg version log [] w = ServeRunning" "e \<in> set es" "ends_run e" "br_wf (wd_broker w)"
  shows "\<exists>res w'. mail_serve os cfg version log es w = (if returned [4, 5] es then ServeEnded res w' else ServeDraining w') \<and> released w w'
     \<and> wd_stopped w' = wd_stopped w @ [''http'', ''broker'', ''cache'', ''database'', ''tracing'']"
proof -
  obtain op w0 srv where opened: "open_dependencies os cfg version w = (Some (Inr op), w0)"
    and built: "plain_buildHTTP (os_listen os) cfg version log (health_registry cfg version (os_poolPing os (op_pool op)) (op_redis op) (wd_redis w0)
         (op_broker op) (wd_broker w0) (os_took os)) = Some (Inr srv)"
    using assms(1) by (auto simp: mail_serve_def Let_def split: option.splits sum.splits prod.splits)
  define ls where "ls = wd_log w0 @ emit log InfoLevel [(''http'', http_Address srv)] None ''ready''"
  have "mail_serve os cfg version log es w =
      served_of (Runner_Run (mail_runner (bc_ShutdownTimeout (sc_Base cfg)) (stoppers_of os op srv)) es (w0\<lparr>wd_log := ls\<rparr>))"
    by (simp add: mail_serve_def opened built Let_def ls_def)
  moreover have "opened_by op w (w0\<lparr>wd_log := ls\<rparr>)" using open_dependencies_opens [OF opened] by simp
  ultimately show ?thesis
    using Runner_Run_mail [OF assms(2,3), of "bc_ShutdownTimeout (sc_Base cfg)" "stoppers_of os op srv" "w0\<lparr>wd_log := ls\<rparr>"]
      stops_release [OF _ assms(4), of op "w0\<lparr>wd_log := ls\<rparr>" os srv] by (cases "returned [4, 5] es") (auto simp: Let_def)
qed

lemma plain_served:
  assumes "plain_serve L os cfg version log [] w = ServeRunning" "e \<in> set es" "ends_run e" "br_wf (wd_broker w)"
  shows "\<exists>res w'. plain_serve L os cfg version log es w = (if returned [4, 5, 6] es then ServeEnded res w' else ServeDraining w') \<and> released w w'
     \<and> wd_stopped w' = wd_stopped w @ [''http'', ''grpc'', ''broker'', ''cache'', ''database'', ''tracing'']
     \<and> (\<exists>s. wd_grpc w' = Some s \<and> gs_stopped s \<and> gs_health s = NOT_SERVING)"
proof -
  obtain op w0 srv and g0 g :: "(_, ping_info, unit, unit) grpc_server"
    where opened: "open_dependencies os cfg version w = (Some (Inr op), w0)"
    and built: "plain_buildGRPC L cfg log = Inr g0" "grpc_Listen (os_listen os) g0 = (None, g)"
      "plain_buildHTTP (os_listen os) cfg version log (health_registry cfg version (os_poolPing os (op_pool op)) (op_redis op) (wd_redis w0)
         (op_broker op) (wd_broker w0) (os_took os)) = Some (Inr srv)"
    using assms(1) by (auto simp: plain_serve_def Let_def split: option.splits sum.splits prod.splits)
  define ls where "ls = wd_log w0 @ emit log InfoLevel [(''grpc'', grpc_Address g), (''http'', http_Address srv)] None ''ready''"
  let ?w1 = "w0\<lparr>wd_grpc := Some g, wd_log := ls\<rparr>"
  have "plain_serve L os cfg version log es w =
      served_of (Runner_Run (service_runner (bc_ShutdownTimeout (sc_Base cfg)) (stoppers_of os op srv)) es ?w1)"
    by (simp add: plain_serve_def opened built Let_def ls_def)
  moreover have "opened_by op w ?w1" "wd_grpc ?w1 = Some g" using open_dependencies_opens [OF opened] by simp_all
  ultimately show ?thesis
    using Runner_Run_service [OF assms(2,3), of "bc_ShutdownTimeout (sc_Base cfg)" "stoppers_of os op srv" ?w1]
      stops_release_grpc [OF _ assms(4), of op ?w1 g os srv] by (cases "returned [4, 5, 6] es") (auto simp: Let_def)
qed

text \<open>
  C34. A service without RPCs gives back what it opened: building its transports never panics, and
  when the run of a started service ends, for whatever reason and whatever fails to stop, its
  components have stopped in the reverse order of their registration, transports before what
  they depend on, the broker has the connections and channels it had before the start, and no
  pool is left. mail-dispatcher has no gRPC server to stop; that of the others is stopped and no
  longer reports that it serves. \<open>serve\<close> returns when the outbox worker and the servers have.
\<close>

theorem plain_services_release:
  assumes "e \<in> set es" "ends_run e" "br_wf (wd_broker w)"
  shows "plain_serve L os cfg version log es w \<noteq> ServePanicked \<and> mail_serve os cfg version log es w \<noteq> ServePanicked
    \<and> (mail_serve os cfg version log [] w = ServeRunning \<longrightarrow>
         (\<exists>res w'. mail_serve os cfg version log es w = (if returned [4, 5] es then ServeEnded res w' else ServeDraining w') \<and> released w w'
            \<and> wd_stopped w' = wd_stopped w @ [''http'', ''broker'', ''cache'', ''database'', ''tracing'']))
    \<and> (plain_serve L os cfg version log [] w = ServeRunning \<longrightarrow>
         (\<exists>res w'. plain_serve L os cfg version log es w = (if returned [4, 5, 6] es then ServeEnded res w' else ServeDraining w') \<and> released w w'
            \<and> wd_stopped w' = wd_stopped w @ [''http'', ''grpc'', ''broker'', ''cache'', ''database'', ''tracing'']
            \<and> (\<exists>s. wd_grpc w' = Some s \<and> gs_stopped s \<and> gs_health s = NOT_SERVING)))"
proof (intro conjI impI)
  have no_panic [simp]: "served_of x \<noteq> ServePanicked" for x :: "('x, 'o, 'p, 'r, 'q) world run_state" by (cases x) simp_all
  show "plain_serve L os cfg version log es w \<noteq> ServePanicked"
    by (auto simp: plain_serve_def plain_buildHTTP_eq Let_def split: option.splits sum.splits prod.splits)
  show "mail_serve os cfg version log es w \<noteq> ServePanicked"
    by (auto simp: mail_serve_def plain_buildHTTP_eq Let_def split: option.splits sum.splits prod.splits)
qed (use mail_served plain_served assms in blast)+

text \<open>
  An empty DSN switches reporting off and nothing else: whatever the reporting library would do, the
  process runs as one without a reporter.
\<close>

lemma empty_dsn_disables_reporting:
  assumes "bc_SentryDSN (sc_Base cfg) = []"
  shows "reported_run new tags zparse (Inr cfg) build migrate service migrateOnly = run zparse (Inr cfg) build (\<lambda>_. Inr None) migrate service migrateOnly"
  using assms by (simp add: reported_run_def run_def reporter_for_def sentry_Setup_def Sink_Writer_def)

lemma plain_services_release_witness:
  "\<exists>res w'. mail_serve demo_outside demo_svc_config ''v1'' Nop [Signalled, Ended 5 None, Ended 4 None] (demo_world :: (unit, unit, int, mem_redis, nat) world) = ServeEnded res w'
     \<and> br_open (wd_broker w') = [Conn 1] \<and> wd_stopped w' = [''http'', ''broker'', ''cache'', ''database'', ''tracing'']"
proof -
  obtain op and w :: "(unit, unit, int, mem_redis, nat) world"
    where "open_dependencies demo_outside demo_svc_config ''v1'' demo_world = (Some (Inr op), w)" using demo_opens by blast
  moreover have "os_listen demo_outside = Inr" by (simp add: demo_outside_def)
  ultimately have run: "mail_serve demo_outside demo_svc_config ''v1'' Nop [] (demo_world :: (unit, unit, int, mem_redis, nat) world) = ServeRunning"
    by (simp add: mail_serve_def plain_buildHTTP_eq Runner_Run_def Let_def)
  have "br_wf (wd_broker demo_world)" by code_simp
  with plain_services_release [where e = Signalled and es = "[Signalled, Ended 5 None, Ended 4 None]" and w = "demo_world :: (unit, unit, int, mem_redis, nat) world"
      and os = demo_outside and cfg = demo_svc_config and version = "''v1''" and log = Nop and L = demo_libs] run
  obtain res w' where "mail_serve demo_outside demo_svc_config ''v1'' Nop [Signalled, Ended 5 None, Ended 4 None] (demo_world :: (unit, unit, int, mem_redis, nat) world) = ServeEnded res w'"
    "released demo_world w'" "wd_stopped w' = wd_stopped (demo_world :: (unit, unit, int, mem_redis, nat) world) @ [''http'', ''broker'', ''cache'', ''database'', ''tracing'']"
    by (simp add: ends_run_def returned_def) blast
  moreover have "br_open (wd_broker demo_world) = [Conn 1]" "wd_stopped demo_world = []" by (simp_all add: demo_world_def demo_broker_open_def)
  ultimately show ?thesis by (auto simp: released_def)
qed

end
