(* ===== verification/Commitcheck.thy ===== *)
theory Commitcheck
  imports Go_Regexp
begin

text \<open>
  \<open>tools/commitcheck\<close>: the checker of commit messages. The grammar of a header with its
  captures, every rule of \<open>validate\<close>, the report of \<open>check\<close>, the ways a message is
  read (a revision range through git, or the standard input) and the exit status. git is a
  parameter: its output, or its failure with what it wrote to its error stream.
\<close>

section \<open>Helpers of the standard library\<close>

abbreviation NL :: char where "NL \<equiv> CHR 0x0A"
abbreviation NUL :: char where "NUL \<equiv> CHR 0x00"

text \<open>\<open>strings.Split\<close> for a separator of one byte.\<close>

fun Split :: "char \<Rightarrow> string \<Rightarrow> string list" where
  "Split sep [] = [[]]"
| "Split sep (c # s) = (if c = sep then [] # Split sep s else (case Split sep s of [] \<Rightarrow> [[c]] | w # ws \<Rightarrow> (c # w) # ws))"

text \<open>
  \<open>strings.ToLower\<close> of a string of one byte: a byte that is not ASCII is no character, and
  comes back as the replacement character U+FFFD.
\<close>

definition ToLower_byte :: "char \<Rightarrow> string" where
  "ToLower_byte c = (if (of_char c :: nat) < 128 then [lower_char c] else [CHR 0xEF, CHR 0xBF, CHR 0xBD])"

section \<open>The rules\<close>

definition errProblems :: go_error where "errProblems = Sentinel ''commit message(s) do not follow Conventional Commits''"

definition types :: "string list" where
  "types = [''build'', ''chore'', ''ci'', ''docs'', ''feat'', ''fix'', ''perf'', ''refactor'', ''revert'', ''style'', ''test'']"

definition scope_char :: "char \<Rightarrow> bool" where
  "scope_char c \<longleftrightarrow> is_lower c \<or> is_digit c \<or> c \<in> set ''._/-''"

definition headerPattern :: rx where
  "headerPattern = Seq (Cap ''type'' (Plus (Cls is_lower)))
     (Seq (Opt (Seq (Lit ''('') (Seq (Cap ''scope'' (Plus (Cls scope_char))) (Lit '')''))))
     (Seq (Opt (Cap ''breaking'' (Lit ''!'')))
     (Seq (Lit '': '') (Cap ''subject'' (Plus (Cls (\<lambda>c. c \<noteq> NL)))))))"

definition maxHeaderLength :: nat where "maxHeaderLength = 72"

definition firstLine :: "string \<Rightarrow> string" where
  "firstLine message = TrimSpace (takeWhile (\<lambda>c. c \<noteq> NL) (TrimSpace message))"

text \<open>The submatch of a named group; \<open>FindStringSubmatch\<close> gives the empty string for one that took no part.\<close>

definition group :: "captures \<Rightarrow> string \<Rightarrow> string" where
  "group e n = (case map_of e n of None \<Rightarrow> '''' | Some w \<Rightarrow> w)"

definition problem_length :: "string \<Rightarrow> string" where
  "problem_length header = ''the header is '' @ Itoa (int (length header)) @ '' characters, the limit is '' @ Itoa (int maxHeaderLength)"

definition problem_match :: string where
  "problem_match = ''it does not match '' @ [CHR 0x22] @ ''type(scope): subject'' @ [CHR 0x22]"

definition validate :: "string \<Rightarrow> string list" where
  "validate message =
     (let header = firstLine message in
      if HasPrefix header ''Merge '' \<or> HasPrefix header ''Revert '' then []
      else if header = '''' then [''the message is empty'']
      else (let problems = (if length header > maxHeaderLength then [problem_length header] else []) in
            case match_whole headerPattern header of
              None \<Rightarrow> problems @ [problem_match]
            | Some e \<Rightarrow>
                (let commitType = group e ''type'';
                     subject = group e ''subject'';
                     lines = Split NL message
                 in problems
                    @ (if commitType \<notin> set types then [quote commitType @ '' is not one of the allowed types''] else [])
                    @ (if HasSuffix subject ''.'' then [''the subject ends with a period''] else [])
                    @ (if take 1 subject \<noteq> ToLower_byte (hd subject) then [''the subject starts with a capital letter''] else [])
                    @ (if length lines > 1 \<and> TrimSpace (lines ! 1) \<noteq> ''''
                       then [''the second line is not blank, so the body runs into the header''] else []))))"

section \<open>The report\<close>

definition usage_text :: string where
  "usage_text = concat (map (\<lambda>l. l @ [NL])
     ['''', ''  Expected:  type(scope)!: subject'', '''', ''    types    '' @ Join types '' '', ''    scope    optional, lowercase'',
      ''    !        optional, marks a breaking change'',
      ''    subject  required, lowercase, no trailing period, header <= '' @ Itoa (int maxHeaderLength) @ '' characters'', '''',
      ''  Examples:  feat(tours): add the variant manifest'', ''             fix(pkg/amqp): reconnect after a channel error'',
      ''             feat(proto)!: drop the deprecated SearchTours filter'', ''''])"

text \<open>What a message contributes to the error stream.\<close>

definition report_message :: "string \<Rightarrow> string" where
  "report_message message = [NL] @ ''  '' @ firstLine message @ [NL] @ concat (map (\<lambda>p. ''    - '' @ p @ [NL]) (validate message))"

text \<open>The loop of \<open>check\<close>: the failures counted and what was written so far.\<close>

fun check_loop :: "string list \<Rightarrow> nat \<Rightarrow> string \<Rightarrow> nat \<times> string" where
  "check_loop [] failures stderr = (failures, stderr)"
| "check_loop (message # messages) failures stderr =
     (if validate message = [] then check_loop messages failures stderr
      else check_loop messages (failures + 1) (stderr @ report_message message))"

text \<open>The error, the standard output and the error stream of \<open>check\<close>.\<close>

definition check :: "string list \<Rightarrow> go_error option \<times> string \<times> string" where
  "check messages =
     (case check_loop messages 0 [] of (failures, stderr) \<Rightarrow>
        if failures > 0
        then (Some errProblems, [],
              stderr @ usage_text @ ''commitcheck: '' @ Itoa (int failures) @ '' '' @ err_text errProblems @ [NL, NL])
        else if messages = [] then (None, ''==> commitcheck: no commits in the range, nothing was checked'' @ [NL], [])
        else (None, ''==> commitcheck: '' @ Itoa (int (length messages)) @ '' message(s), all conventional'' @ [NL], []))"

section \<open>Reading the messages\<close>

definition gitTimeout :: duration where "gitTimeout = 30 * Second"

text \<open>The first line of the baseline file that is neither blank nor a comment; \<open>None\<close> is a file that cannot be read.\<close>

definition baseline :: "string option \<Rightarrow> string" where
  "baseline raw =
     (case raw of
        None \<Rightarrow> ''''
      | Some text \<Rightarrow>
          (case find (\<lambda>line. line \<noteq> '''' \<and> \<not> HasPrefix line ''#'') (map TrimSpace (Split NL text)) of
             None \<Rightarrow> '''' | Some line \<Rightarrow> line))"

text \<open>\<open>git args\<close> is what the command prints, or its error with what it wrote to its error stream.\<close>

definition readRange ::
  "(string list \<Rightarrow> (go_error \<times> string) + string) \<Rightarrow> string option \<Rightarrow> string \<Rightarrow> go_error + string list" where
  "readRange git raw revisionRange =
     (let exempt = baseline raw;
          args = [''log'', ''--format=%B%x00'', revisionRange] @ (if exempt \<noteq> '''' then [''--not'', exempt] else [])
      in case git args of
           Inl (err, stderr) \<Rightarrow>
             if stderr \<noteq> ''''
             then Inl (Wrapped (''reading the commits of '' @ quote revisionRange @ '': '' @ err_text err @ '': '' @ TrimSpace stderr) [err])
             else Inl (Errorf (''reading the commits of '' @ quote revisionRange) err)
         | Inr out \<Rightarrow> Inr (map TrimSpace (filter (\<lambda>part. TrimSpace part \<noteq> '''') (Split NUL out))))"

text \<open>
  \<open>bufio.Scanner\<close> with its default buffer: lines without their ending, an error when a line does
  not fit into the 64 KiB with its newline. \<open>input\<close> is what the stream holds and the error it
  ends with, if any.
\<close>

definition dropCR :: "string \<Rightarrow> string" where
  "dropCR line = (if line \<noteq> [] \<and> last line = CHR 0x0D then butlast line else line)"

definition maxScanLine :: nat where "maxScanLine = 65535"

definition scan_lines :: "string \<times> go_error option \<Rightarrow> go_error + string list" where
  "scan_lines input =
     (case input of (bytes, err) \<Rightarrow>
        (let parts = Split NL bytes;
             lines = (if last parts = [] then butlast parts else parts)
         in if \<exists>l \<in> set lines. length l > maxScanLine then Inl (Sentinel ''bufio.Scanner: token too long'')
            else case err of Some e \<Rightarrow> Inl e | None \<Rightarrow> Inr (map dropCR lines)))"

definition readStdin :: "string \<times> go_error option \<Rightarrow> go_error + string" where
  "readStdin input =
     (case scan_lines input of
        Inl err \<Rightarrow> Inl (Errorf ''reading stdin'' err)
      | Inr lines \<Rightarrow> Inr (concat (map (\<lambda>l. l @ [NL]) lines)))"

text \<open>The exit status, the standard output and the error stream of the command.\<close>

definition main ::
  "(string list \<Rightarrow> (go_error \<times> string) + string) \<Rightarrow> string option \<Rightarrow> string \<times> go_error option \<Rightarrow> string list \<Rightarrow> int \<times> string \<times> string" where
  "main git raw input args =
     (let messages =
        (if args \<noteq> [] \<and> hd args = ''--stdin'' then (case readStdin input of Inl err \<Rightarrow> Inl err | Inr message \<Rightarrow> Inr [message])
         else readRange git raw (if args \<noteq> [] then hd args else ''main..HEAD''))
      in case messages of
           Inl err \<Rightarrow> (1, [], [NL] @ ''commitcheck: '' @ err_text err @ [NL, NL])
         | Inr ms \<Rightarrow> (case check ms of (Some err, stdout, stderr) \<Rightarrow> (1, stdout, stderr) | (None, stdout, stderr) \<Rightarrow> (0, stdout, stderr)))"

section \<open>The grammar\<close>

text \<open>A header by its parts, and how it is written.\<close>

datatype header = Header (h_type: string) (h_scope: "string option") (h_breaking: bool) (h_subject: string)

fun print_header :: "header \<Rightarrow> string" where
  "print_header (Header t sc br sub) =
     t @ (case sc of None \<Rightarrow> [] | Some x \<Rightarrow> ''('' @ x @ '')'') @ (if br then ''!'' else []) @ '': '' @ sub"

fun header_ok :: "header \<Rightarrow> bool" where
  "header_ok (Header t sc br sub) \<longleftrightarrow> t \<noteq> [] \<and> list_all is_lower t \<and> (case sc of None \<Rightarrow> True | Some x \<Rightarrow> x \<noteq> [] \<and> list_all scope_char x)
     \<and> sub \<noteq> [] \<and> NL \<notin> set sub"

lemma not_lower [simp]: "\<not> is_lower (CHR ''('')" "\<not> is_lower (CHR ''!'')" "\<not> is_lower (CHR '':'')" "\<not> scope_char (CHR '')'')"
  by code_simp+

text \<open>What follows the type starts with a byte no type contains.\<close>

lemma header_type: "header_ok h \<Longrightarrow> takeWhile is_lower (print_header h) = h_type h"
  by (cases h rule: print_header.cases) (auto simp: takeWhile_append list_all_iff split: option.splits)

lemma paren_split:
  assumes "list_all scope_char x" "list_all scope_char y" "x @ CHR '')'' # r = y @ CHR '')'' # s"
  shows "x = y \<and> r = s"
proof -
  have n: "CHR '')'' \<notin> set x" "CHR '')'' \<notin> set y" using assms(1,2) not_lower(4) by (auto simp: list_all_iff)
  obtain z where z: "y = x @ z" "CHR '')'' # r = z @ CHR '')'' # s" using append_split_notin [OF n(1) assms(3)] by blast
  then show ?thesis using n(2) by (cases z) auto
qed

lemma header_inj:
  assumes "header_ok a" "header_ok b" "print_header a = print_header b"
  shows "a = b"
proof -
  obtain t sc br sub where a: "a = Header t sc br sub" by (cases a)
  obtain t' sc' br' sub' where b: "b = Header t' sc' br' sub'" by (cases b)
  have "t = t'" using header_type [OF assms(1)] header_type [OF assms(2)] assms(3) by (simp add: a b)
  moreover from this have "sc = sc' \<and> br = br' \<and> sub = sub'"
    using assms by (cases sc; cases sc'; cases br; cases br') (auto simp: a b dest: paren_split [rotated 2])
  ultimately show ?thesis by (simp add: a b)
qed

text \<open>The pattern matches the headers, and its groups are their parts.\<close>

lemma header_plain: "plain headerPattern"
  by (simp add: headerPattern_def)

lemma lang_header: "header_ok h \<Longrightarrow> print_header h \<in> lang headerPattern"
proof -
  assume ok: "header_ok h"
  obtain t sc br sub where h: "h = Header t sc br sub" by (cases h)
  have 1: "t \<in> lang (Cap ''type'' (Plus (Cls is_lower)))" using ok by (auto simp: h list_all_iff)
  have paren: "''('' @ x @ '')'' \<in> lang (Seq (Lit ''('') (Seq (Cap ''scope'' (Plus (Cls scope_char))) (Lit '')'')))" if "sc = Some x" for x
    by (intro lang_SeqI) (use ok that in \<open>auto simp: h list_all_iff\<close>)
  then have 2: "(case sc of None \<Rightarrow> [] | Some x \<Rightarrow> ''('' @ x @ '')'')
      \<in> lang (Opt (Seq (Lit ''('') (Seq (Cap ''scope'' (Plus (Cls scope_char))) (Lit '')''))))"
    unfolding lang_Opt by (cases sc) (simp_all only: option.case insert_iff HOL.simp_thms)
  have 3: "(if br then ''!'' else []) \<in> lang (Opt (Cap ''breaking'' (Lit ''!'')))" by simp
  have 4: "'': '' @ sub \<in> lang (Seq (Lit '': '') (Cap ''subject'' (Plus (Cls (\<lambda>c. c \<noteq> NL)))))"
    using ok by (intro lang_SeqI) (auto simp: h)
  show ?thesis unfolding h print_header.simps headerPattern_def by (intro lang_SeqI 1 2 3 4)
qed

lemma langc_SeqE:
  assumes "(w, e) \<in> langc (Seq r s)"
  obtains a b d f where "w = a @ b" "e = f @ d" "(a, d) \<in> langc r" "(b, f) \<in> langc s"
  using assms by auto

lemma langc_Plus_Cls: "(w, e) \<in> langc (Plus (Cls P)) \<Longrightarrow> w \<noteq> [] \<and> list_all P w \<and> e = []"
  using langc_groupless [of "Plus (Cls P)" w e] langc_lang [of w e "Plus (Cls P)"] by (simp add: list_all_iff)

lemma langc_Lit: "(w, e) \<in> langc (Lit s) \<Longrightarrow> w = s \<and> e = []"
  using langc_groupless [of "Lit s" w e] langc_lang [of w e "Lit s"] by simp

lemma header_captures:
  assumes "(w, e) \<in> langc headerPattern"
  shows "\<exists>h. header_ok h \<and> w = print_header h \<and> group e ''type'' = h_type h \<and> group e ''subject'' = h_subject h"
proof -
  obtain t r1 d1 f1 where 1: "w = t @ r1" "e = f1 @ d1" "(t, d1) \<in> langc (Cap ''type'' (Plus (Cls is_lower)))"
    and r1: "(r1, f1) \<in> langc (Seq (Opt (Seq (Lit ''('') (Seq (Cap ''scope'' (Plus (Cls scope_char))) (Lit '')''))))
     (Seq (Opt (Cap ''breaking'' (Lit ''!''))) (Seq (Lit '': '') (Cap ''subject'' (Plus (Cls (\<lambda>c. c \<noteq> NL)))))))"
    using assms unfolding headerPattern_def by (rule langc_SeqE)
  obtain sc r2 d2 f2 where 2: "r1 = sc @ r2" "f1 = f2 @ d2"
      "(sc, d2) \<in> langc (Opt (Seq (Lit ''('') (Seq (Cap ''scope'' (Plus (Cls scope_char))) (Lit '')''))))"
    and r2: "(r2, f2) \<in> langc (Seq (Opt (Cap ''breaking'' (Lit ''!''))) (Seq (Lit '': '') (Cap ''subject'' (Plus (Cls (\<lambda>c. c \<noteq> NL))))))"
    using r1 by (rule langc_SeqE)
  obtain br r3 d3 f3 where 3: "r2 = br @ r3" "f2 = f3 @ d3" "(br, d3) \<in> langc (Opt (Cap ''breaking'' (Lit ''!'')))"
    and r3: "(r3, f3) \<in> langc (Seq (Lit '': '') (Cap ''subject'' (Plus (Cls (\<lambda>c. c \<noteq> NL)))))"
    using r2 by (rule langc_SeqE)
  have t: "t \<noteq> []" "list_all is_lower t" "d1 = [(''type'', t)]" using 1(3) by (auto dest: langc_Plus_Cls)
  have sc: "(sc = [] \<and> d2 = []) \<or> (\<exists>x. sc = ''('' @ x @ '')'' \<and> x \<noteq> [] \<and> list_all scope_char x \<and> d2 = [(''scope'', x)])"
    using 2(3) unfolding Opt_def langc.simps(1,4)
    by (auto elim!: langc_SeqE dest!: langc_Lit simp del: langc.simps(3)) (auto dest!: langc_Plus_Cls)
  have br: "(br = [] \<and> d3 = []) \<or> (br = ''!'' \<and> d3 = [(''breaking'', ''!'')])"
    using 3(3) unfolding Opt_def by (auto dest!: langc_Lit)
  obtain sub where sub: "r3 = '': '' @ sub" "sub \<noteq> []" "\<forall>c\<in>set sub. c \<noteq> NL" "f3 = [(''subject'', sub)]"
    using r3 by (auto elim!: langc_SeqE dest!: langc_Lit simp del: langc.simps(3)) (auto dest!: langc_Plus_Cls simp: list_all_iff)
  obtain sco where sco: "sc = (case sco of None \<Rightarrow> [] | Some x \<Rightarrow> ''('' @ x @ '')'')"
      "case sco of None \<Rightarrow> True | Some x \<Rightarrow> x \<noteq> [] \<and> list_all scope_char x" "d2 = [] \<or> fst (hd d2) = ''scope'' \<and> tl d2 = []"
    using sc by (elim disjE exE conjE) (auto intro: that [of None] that [of "Some _"])
  obtain brk where brk: "br = (if brk then ''!'' else [])" "d3 = [] \<or> d3 = [(''breaking'', ''!'')]"
    using br by (elim disjE conjE) (auto intro: that [of False] that [of True])
  have e: "e = f3 @ d3 @ d2 @ d1" using 1(2) 2(2) 3(2) by simp
  have "header_ok (Header t sco brk sub)" using t sco(2) sub(2,3) by auto
  moreover have "w = print_header (Header t sco brk sub)" using 1(1) 2(1) 3(1) sco(1) brk(1) sub(1) by simp
  moreover have "group e ''subject'' = sub" by (simp add: e sub(4) group_def)
  moreover have "group e ''type'' = t"
    using brk(2) sco(3) by (cases d2) (auto simp: e sub(4) t(3) group_def)
  ultimately show ?thesis by (intro exI [of _ "Header t sco brk sub"]) simp
qed

lemma header_parse:
  assumes "header_ok h"
  shows "\<exists>e. match_whole headerPattern (print_header h) = Some e \<and> group e ''type'' = h_type h \<and> group e ''subject'' = h_subject h"
proof -
  obtain e where e: "match_whole headerPattern (print_header h) = Some e"
    using match_whole_iff [OF header_plain, of "print_header h"] lang_header [OF assms] by auto
  moreover obtain h' where "header_ok h'" "print_header h = print_header h'" "group e ''type'' = h_type h'" "group e ''subject'' = h_subject h'"
    using header_captures [OF match_whole_captures [OF e header_plain]] by blast
  ultimately show ?thesis using header_inj [OF assms] by auto
qed

section \<open>Properties\<close>

lemma match_header_iff: "match_whole headerPattern s = None \<longleftrightarrow> (\<nexists>h. header_ok h \<and> s = print_header h)"
proof
  assume none: "match_whole headerPattern s = None"
  show "\<nexists>h. header_ok h \<and> s = print_header h"
  proof
    assume "\<exists>h. header_ok h \<and> s = print_header h"
    then show False using none header_parse by fastforce
  qed
next
  assume no: "\<nexists>h. header_ok h \<and> s = print_header h"
  show "match_whole headerPattern s = None"
  proof (rule ccontr)
    assume "match_whole headerPattern s \<noteq> None"
    then obtain e where "match_whole headerPattern s = Some e" by blast
    then show False using header_captures [OF match_whole_captures [OF _ header_plain]] no by blast
  qed
qed

definition exempt :: "string \<Rightarrow> bool" where
  "exempt header \<longleftrightarrow> HasPrefix header ''Merge '' \<or> HasPrefix header ''Revert ''"

definition small_start :: "string \<Rightarrow> bool" where
  "small_start s \<longleftrightarrow> (of_char (hd s) :: nat) < 128 \<and> \<not> between CHR ''A'' CHR ''Z'' (hd s)"

definition second_blank :: "string \<Rightarrow> bool" where
  "second_blank message \<longleftrightarrow> (let lines = Split NL message in length lines \<le> 1 \<or> TrimSpace (lines ! 1) = [])"

lemma small_start_iff:
  assumes "s \<noteq> []"
  shows "take 1 s = ToLower_byte (hd s) \<longleftrightarrow> small_start s"
proof -
  obtain c cs where s: "s = c # cs" using assms by (cases s) auto
  have "lower_char c = c \<longleftrightarrow> \<not> between CHR ''A'' CHR ''Z'' c"
  proof (cases "between CHR ''A'' CHR ''Z'' c")
    case True
    then have "(of_char (lower_char c) :: nat) = of_char c + 32" by (simp add: lower_char_def between_def)
    then show ?thesis using True by auto
  next
    case False
    then show ?thesis by (auto simp: lower_char_def between_def)
  qed
  then show ?thesis by (auto simp: s ToLower_byte_def small_start_def)
qed

lemma print_header_nonempty: "header_ok h \<Longrightarrow> print_header h \<noteq> []"
  by (cases h) simp

text \<open>
  C18. Which messages pass: merges and reverts, and those whose first line is a header of at most
  72 bytes, with a type of the list, a subject that neither ends with a period nor starts with a
  capital (or a non-ASCII byte), and a second line that is blank if there is one.
\<close>

theorem validate_iff:
  "validate message = [] \<longleftrightarrow> exempt (firstLine message)
     \<or> (\<exists>h. header_ok h \<and> firstLine message = print_header h \<and> length (print_header h) \<le> maxHeaderLength \<and> h_type h \<in> set types
          \<and> last (h_subject h) \<noteq> CHR ''.'' \<and> small_start (h_subject h) \<and> second_blank message)"
proof (cases "exempt (firstLine message)")
  case True
  then show ?thesis by (simp add: validate_def exempt_def Let_def)
next
  case not_exempt: False
  show ?thesis
  proof (cases "match_whole headerPattern (firstLine message)")
    case None
    then have "\<nexists>h. header_ok h \<and> firstLine message = print_header h" by (simp only: match_header_iff not_False_eq_True)
    then show ?thesis using not_exempt None by (auto simp: validate_def exempt_def Let_def)
  next
    case (Some e)
    then obtain h where h: "header_ok h" "firstLine message = print_header h" "group e ''type'' = h_type h" "group e ''subject'' = h_subject h"
      using header_captures [OF match_whole_captures [OF _ header_plain]] by blast
    have sub: "h_subject h \<noteq> []" using h(1) by (cases h) simp
    have "validate message = [] \<longleftrightarrow> length (print_header h) \<le> maxHeaderLength \<and> h_type h \<in> set types
        \<and> \<not> HasSuffix (h_subject h) ''.'' \<and> small_start (h_subject h) \<and> second_blank message"
      using not_exempt Some print_header_nonempty [OF h(1)] small_start_iff [OF sub]
      by (simp add: validate_def exempt_def second_blank_def Let_def h not_less)
    moreover have "HasSuffix (h_subject h) ''.'' \<longleftrightarrow> last (h_subject h) = CHR ''.''"
      using sub by (cases "h_subject h" rule: rev_cases) (auto simp: HasSuffix_def)
    moreover have "h' = h" if "header_ok h'" "firstLine message = print_header h'" for h'
      using header_inj [OF that(1) h(1)] that(2) h(2) by simp
    ultimately show ?thesis using not_exempt h by metis
  qed
qed

text \<open>
  A message built from a header by the grammar, with the rules kept and its body behind a blank
  line, passes; what the checker reads back from the header are its type and its subject.
\<close>

theorem header_roundtrip:
  assumes "header_ok h"
  shows "\<exists>e. match_whole headerPattern (print_header h) = Some e \<and> group e ''type'' = h_type h \<and> group e ''subject'' = h_subject h"
  by (rule header_parse [OF assms])

lemma header_roundtrip_witness:
  "\<exists>e. match_whole headerPattern ''feat(proto)!: drop it'' = Some e \<and> group e ''type'' = ''feat'' \<and> group e ''subject'' = ''drop it''"
proof -
  have "header_ok (Header ''feat'' (Some ''proto'') True ''drop it'')" by code_simp
  then show ?thesis using header_roundtrip by fastforce
qed

text \<open>The loop counts the messages with problems and reports them in order.\<close>

lemma check_loop_eq:
  "check_loop ms n out = (n + length (filter (\<lambda>m. validate m \<noteq> []) ms), out @ concat (map report_message (filter (\<lambda>m. validate m \<noteq> []) ms)))"
  by (induction ms arbitrary: n out) simp_all

text \<open>
  The verdict on a list of messages: an error exactly if some message breaks a rule; then
  every message that does is reported, in order, with all its problems, and the others are not
  mentioned.
\<close>

theorem check_reports_all:
  "check messages =
     (let bad = filter (\<lambda>m. validate m \<noteq> []) messages in
      if bad \<noteq> []
      then (Some errProblems, [], concat (map report_message bad) @ usage_text
              @ ''commitcheck: '' @ Itoa (int (length bad)) @ '' '' @ err_text errProblems @ [NL, NL])
      else (None, (if messages = [] then ''==> commitcheck: no commits in the range, nothing was checked'' @ [NL]
              else ''==> commitcheck: '' @ Itoa (int (length messages)) @ '' message(s), all conventional'' @ [NL]), []))"
  by (simp add: check_def check_loop_eq Let_def)

text \<open>What git prints for a list of messages is read back as those messages.\<close>

lemma Split_word: "sep \<notin> set w \<Longrightarrow> Split sep (w @ sep # s) = w # Split sep s"
  by (induction w) auto

lemma Split_absent: "sep \<notin> set w \<Longrightarrow> Split sep w = [w]"
  by (induction w) auto

lemma Split_log: "\<forall>m \<in> set ms. NUL \<notin> set m \<Longrightarrow>
  filter (\<lambda>p. TrimSpace p \<noteq> []) (Split NUL (concat (map (\<lambda>m. m @ [NUL, NL]) ms)))
    = filter (\<lambda>p. TrimSpace p \<noteq> []) (case ms of [] \<Rightarrow> [] | m # rest \<Rightarrow> m # map (\<lambda>r. NL # r) rest)"
proof (induction ms)
  case Nil
  then show ?case by (simp add: TrimSpace_def)
next
  case (Cons m ms)
  have *: "filter (\<lambda>p. TrimSpace p \<noteq> []) (Split NUL (NL # concat (map (\<lambda>m. m @ [NUL, NL]) rest)))
      = filter (\<lambda>p. TrimSpace p \<noteq> []) (map (\<lambda>r. NL # r) rest)" if "\<forall>m \<in> set rest. NUL \<notin> set m" for rest
    using that
  proof (induction rest)
    case Nil
    then show ?case by (simp add: TrimSpace_def is_space_def)
  next
    case (Cons r rest)
    then show ?case using Split_word [of NUL "NL # r" "NL # concat (map (\<lambda>m. m @ [NUL, NL]) rest)"] by simp
  qed
  show ?case using Cons.prems * [of ms] Split_word [of NUL m "NL # concat (map (\<lambda>m. m @ [NUL, NL]) ms)"] by simp
qed

lemma TrimSpace_NL [simp]: "TrimSpace (NL # s) = TrimSpace s"
  by (simp add: TrimSpace_def is_space_def)

text \<open>
  What the checker sees of a revision range: git is asked for the messages of the range, less
  what the baseline exempts, and when it prints them each with a NUL byte behind it, the trimmed
  messages that are not blank are read back, in order, whatever lines they hold.
\<close>

theorem readRange_reads_all:
  assumes "git ([''log'', ''--format=%B%x00'', rev_range] @ (if baseline raw \<noteq> [] then [''--not'', baseline raw] else []))
      = Inr (concat (map (\<lambda>m. m @ [NUL, NL]) ms))"
    and "\<forall>m \<in> set ms. NUL \<notin> set m"
  shows "readRange git raw rev_range = Inr (filter (\<lambda>m. m \<noteq> []) (map TrimSpace ms))"
proof -
  have "map TrimSpace (filter (\<lambda>p. TrimSpace p \<noteq> []) (map (\<lambda>r. NL # r) rest)) = filter (\<lambda>m. m \<noteq> []) (map TrimSpace rest)" for rest
    by (induction rest) simp_all
  then have "map TrimSpace (filter (\<lambda>p. TrimSpace p \<noteq> []) (case ms of [] \<Rightarrow> [] | m # rest \<Rightarrow> m # map (\<lambda>r. NL # r) rest))
      = filter (\<lambda>m. m \<noteq> []) (map TrimSpace ms)"
    by (cases ms) simp_all
  then show ?thesis using assms Split_log [OF assms(2)] by (simp add: readRange_def Let_def)
qed

lemma readRange_reads_all_witness:
  "readRange (\<lambda>args. if length args = 3 then Inr (''fix: a'' @ [NUL, NL] @ ''docs: b'' @ [NL, NUL, NL]) else Inl (ctx_Canceled, []))
     None ''main..HEAD'' = Inr [''fix: a'', ''docs: b'']"
proof -
  have b: "baseline None = []" by (simp add: baseline_def)
  show ?thesis
    by (subst readRange_reads_all [where ms = "[''fix: a'', ''docs: b'' @ [NL]]"]) (simp_all add: b TrimSpace_def is_space_def)
qed

text \<open>A subject that starts with a small letter outside ASCII is refused as starting with a capital.\<close>

lemma non_ascii_subject_refused:
  "validate (''fix: '' @ [CHR 0xC3, CHR 0xA1] @ ''rbol'') = [''the subject starts with a capital letter'']"
  by code_simp

text \<open>The blank-line rule looks at the message as it came: a leading newline moves the header to the second line.\<close>

lemma leading_newline_refused:
  "validate ([NL] @ ''fix: a'') = [''the second line is not blank, so the body runs into the header'']"
  by code_simp

end
