(* ===== verification/Apicheck.thy ===== *)
theory Apicheck
  imports Go_Regexp "HOL-Library.Char_ord" "HOL-Library.List_Lexorder"
begin

text \<open>
  \<open>tools/apicheck\<close>: the checker of the versioned API client collection. The file system and the
  YAML parser are parameters; the rules on environments, the completeness of the collection,
  the duplicate identifiers and the report are those of the source.
\<close>

section \<open>Data\<close>

record yaak_variable =
  yv_Name :: string
  yv_Value :: string

record yaak_resource =
  yr_Model :: string
  yr_Name :: string
  yr_ID :: string
  yr_Variables :: "yaak_variable list"

definition errNoCollection :: go_error where "errNoCollection = Sentinel ''no yaak.*.yaml file''"
definition ac_errProblems :: go_error where "ac_errProblems = Sentinel ''problem(s) found''"

definition credentialVariables :: "string list" where
  "credentialVariables = [''access_token'', ''refresh_token'', ''id_token'', ''password'', ''api_key'', ''client_secret'', ''totp_secret'']"

definition localEnvironmentID :: string where "localEnvironmentID = ''env_local''"
definition requiredEnvironments :: "string list" where "requiredEnvironments = [localEnvironmentID]"
definition requiredModels :: "string list" where "requiredModels = [''workspace'']"

definition local_host :: rx where "local_host = Alt (Lit ''localhost'') (Lit ''127.0.0.1'')"
definition re_digits :: rx where "re_digits = Plus (Cls is_digit)"

definition localAllowedValue :: rx where
  "localAllowedValue = Alts
     [Seq (Lit ''http'') (Seq (Opt (Lit ''s'')) (Seq (Lit ''://'') (Seq local_host
        (Seq (Opt (Seq (Lit '':'') re_digits)) (Opt (Seq (Lit ''/'') (Star (Cls (\<lambda>c. c \<noteq> CHR 0x0A))))))))),
      Seq local_host (Seq (Lit '':'') re_digits),
      Seq re_digits (Seq (Lit ''.'') (Seq re_digits (Seq (Lit ''.'') re_digits)))]"

definition opaque_char :: "char \<Rightarrow> bool" where
  "opaque_char c \<longleftrightarrow> is_alpha c \<or> is_digit c \<or> c = CHR ''_'' \<or> c = CHR ''-''"

definition credentialShaped :: rx where
  "credentialShaped = Alt (Seq (Lit ''eyJ'') (AtLeast 10 (Cls opaque_char))) (AtLeast 40 (Cls opaque_char))"

text \<open>A pattern between \<open>^\<close> and \<open>$\<close>.\<close>

abbreviation whole :: "rx \<Rightarrow> string \<Rightarrow> bool" where "whole r s \<equiv> match_whole r s \<noteq> None"

section \<open>The rules\<close>

text \<open>What one variable of an environment contributes.\<close>

definition check_variable :: "string \<Rightarrow> bool \<Rightarrow> yaak_variable \<Rightarrow> string list" where
  "check_variable filename isLocal v =
     (let value = TrimSpace (yv_Value v) in
      if value = '''' then []
      else if ToLower (yv_Name v) \<in> set credentialVariables
      then [filename @ '': '' @ quote (yv_Name v) @ '' carries a value. Credentials are filled in at run time by the sign-in request, never committed (03 section 8.2, rule 4)'']
      else if whole credentialShaped value
      then [filename @ '': '' @ quote (yv_Name v) @ '' holds something that looks like a credential'']
      else if \<not> isLocal
      then [filename @ '': '' @ quote (yv_Name v) @ '' carries a value. Only the local environment is versioned filled in, because its endpoints are the ports the compose file publishes (03 section 8.2, rule 2)'']
      else if \<not> whole localAllowedValue value
      then [filename @ '': '' @ quote (yv_Name v) @ '' = '' @ quote value @ '' is not a localhost endpoint or a version. The local environment is versioned filled in only for the constants of the compose file'']
      else [])"

definition checkEnvironment :: "string \<Rightarrow> yaak_resource \<Rightarrow> string list" where
  "checkEnvironment filename doc = concat (map (check_variable filename (yr_ID doc = localEnvironmentID)) (yr_Variables doc))"

definition checkCompleteness :: "string set \<Rightarrow> string set \<Rightarrow> nat \<Rightarrow> string list" where
  "checkCompleteness environments models requests =
     map (\<lambda>i. ''the '' @ quote i @ '' environment is missing. It is the one the collection cannot work without, and it has to be marked public in Yaak for Directory Sync to write it'')
       (filter (\<lambda>i. i \<notin> environments) requiredEnvironments)
     @ map (\<lambda>m. ''there is no '' @ m @ '' file'') (filter (\<lambda>m. m \<notin> models) requiredModels)
     @ (if requests = 0 then [''the collection has no requests''] else [])"

section \<open>The run\<close>

text \<open>\<open>filepath.Base\<close>.\<close>

definition Base :: "string \<Rightarrow> string" where
  "Base path =
     (if path = '''' then ''.''
      else (let p = rev (takeWhile (\<lambda>c. c \<noteq> CHR ''/'') (dropWhile (\<lambda>c. c = CHR ''/'') (rev path)))
            in if p = '''' then ''/'' else p))"

record ac_env =
  ac_Glob :: "string \<Rightarrow> go_error + string list" \<comment> \<open>the files \<open>yaak.*.yaml\<close> of a directory\<close>
  ac_ReadFile :: "string \<Rightarrow> go_error + string"
  ac_Unmarshal :: "string \<Rightarrow> go_error + yaak_resource"

record ac_state =
  as_seenIDs :: "(string \<times> string) list"
  as_failures :: "string list"
  as_requests :: nat
  as_environments :: nat
  as_seenEnvironments :: "string set"
  as_seenModels :: "string set"

definition ac_start :: ac_state where
  "ac_start = \<lparr>as_seenIDs = [], as_failures = [], as_requests = 0, as_environments = 0, as_seenEnvironments = {}, as_seenModels = {}\<rparr>"

text \<open>The body of the loop once a file has been parsed.\<close>

definition check_id :: "string \<Rightarrow> yaak_resource \<Rightarrow> ac_state \<Rightarrow> ac_state" where
  "check_id base doc s =
     (if yr_ID doc = '''' then s
      else s\<lparr>as_failures := as_failures s @
               (case map_of (as_seenIDs s) (yr_ID doc) of
                  None \<Rightarrow> []
                | Some previous \<Rightarrow>
                    [base @ '' duplicates the id '' @ quote (yr_ID doc) @ '', already declared by '' @ previous
                       @ ''. Delete the stale one: a rename that Yaak also wrote under the old name leaves both, and the copy that is not the live one drifts silently'']),
             as_seenIDs := AList.update (yr_ID doc) base (as_seenIDs s)\<rparr>)"

definition check_doc :: "string \<Rightarrow> yaak_resource \<Rightarrow> ac_state \<Rightarrow> ac_state" where
  "check_doc base doc s0 =
     (let s = check_id base doc (s0\<lparr>as_seenModels := insert (yr_Model doc) (as_seenModels s0)\<rparr>) in
      if yr_Model doc = ''environment''
      then s\<lparr>as_environments := as_environments s + 1, as_seenEnvironments := insert (yr_ID doc) (as_seenEnvironments s),
             as_failures := as_failures s @ checkEnvironment base doc\<rparr>
      else if yr_Model doc \<in> {''http_request'', ''grpc_request''} then s\<lparr>as_requests := as_requests s + 1\<rparr>
      else s)"

fun check_files :: "ac_env \<Rightarrow> string list \<Rightarrow> ac_state \<Rightarrow> go_error + ac_state" where
  "check_files E [] s = Inr s"
| "check_files E (file # files) s =
     (case ac_ReadFile E file of
        Inl err \<Rightarrow> Inl (Errorf (''reading '' @ file) err)
      | Inr raw \<Rightarrow>
          (case ac_Unmarshal E raw of
             Inl err \<Rightarrow>
               check_files E files (s\<lparr>as_failures := as_failures s @ [Base file @ '': does not parse as YAML: '' @ err_text err]\<rparr>)
           | Inr doc \<Rightarrow> check_files E files (check_doc (Base file) doc s)))"

text \<open>The error of the run, the standard output and the lines of the error stream.\<close>

definition run :: "ac_env \<Rightarrow> string \<Rightarrow> go_error option \<times> string \<times> string list" where
  "run E dir =
     (case ac_Glob E dir of
        Inl err \<Rightarrow> (Some (Errorf (''listing '' @ dir) err), [], [])
      | Inr found \<Rightarrow>
          if found = [] then (Some (Wrapped (err_text errNoCollection @ '' in '' @ dir) [errNoCollection]), [], [])
          else (let files = sort found in
                case check_files E files ac_start of
                  Inl err \<Rightarrow> (Some err, [], [])
                | Inr s \<Rightarrow>
                    (let failures = as_failures s @ checkCompleteness (as_seenEnvironments s) (as_seenModels s) (as_requests s) in
                     if failures \<noteq> []
                     then (Some (Wrapped (Itoa (int (length failures)) @ '' '' @ err_text ac_errProblems) [ac_errProblems]), [],
                           map (\<lambda>f. ''  - '' @ f) failures)
                     else (None, ''==> api-client: '' @ Itoa (int (length files)) @ '' files, '' @ Itoa (int (as_requests s)) @ '' requests, ''
                             @ Itoa (int (as_environments s)) @ '' environments, no credentials committed'', []))))"

definition ac_main :: "ac_env \<Rightarrow> string list \<Rightarrow> int \<times> string \<times> string list" where
  "ac_main E args =
     (let dir = (if args \<noteq> [] then hd args else ''api-client'') in
      case run E dir of
        (Some err, stdout, stderr) \<Rightarrow> (1, stdout, stderr @ [''api-client: '' @ err_text err])
      | (None, stdout, stderr) \<Rightarrow> (0, stdout, stderr))"

section \<open>What passes\<close>

lemma patterns_plain [simp]: "plain localAllowedValue" "plain credentialShaped"
  by (simp_all add: localAllowedValue_def credentialShaped_def local_host_def re_digits_def)

text \<open>A variable that may be committed.\<close>

definition harmless :: "bool \<Rightarrow> yaak_variable \<Rightarrow> bool" where
  "harmless isLocal v \<longleftrightarrow> TrimSpace (yv_Value v) = []
     \<or> isLocal \<and> ToLower (yv_Name v) \<notin> set credentialVariables \<and> TrimSpace (yv_Value v) \<in> lang localAllowedValue
       \<and> TrimSpace (yv_Value v) \<notin> lang credentialShaped"

lemma check_variable_iff: "check_variable file isLocal v = [] \<longleftrightarrow> harmless isLocal v"
  by (simp add: check_variable_def harmless_def Let_def flip: match_whole_iff)

lemma checkEnvironment_iff:
  "checkEnvironment file doc = [] \<longleftrightarrow> (\<forall>v \<in> set (yr_Variables doc). harmless (yr_ID doc = localEnvironmentID) v)"
  by (simp add: checkEnvironment_def check_variable_iff)

lemma checkCompleteness_iff:
  "checkCompleteness envs models n = [] \<longleftrightarrow> localEnvironmentID \<in> envs \<and> ''workspace'' \<in> models \<and> n > 0"
  by (simp add: checkCompleteness_def requiredEnvironments_def requiredModels_def)

definition load :: "ac_env \<Rightarrow> string \<Rightarrow> yaak_resource option" where
  "load E file = (case ac_ReadFile E file of Inl _ \<Rightarrow> None | Inr raw \<Rightarrow> (case ac_Unmarshal E raw of Inl _ \<Rightarrow> None | Inr doc \<Rightarrow> Some doc))"

definition env_ok :: "yaak_resource \<Rightarrow> bool" where
  "env_ok d \<longleftrightarrow> (yr_Model d = ''environment'' \<longrightarrow> (\<forall>v \<in> set (yr_Variables d). harmless (yr_ID d = localEnvironmentID) v))"

definition ids :: "yaak_resource list \<Rightarrow> string list" where
  "ids docs = filter (\<lambda>i. i \<noteq> []) (map yr_ID docs)"

lemma check_doc_effect:
  "as_seenModels (check_doc b d s) = insert (yr_Model d) (as_seenModels s)"
  "as_seenEnvironments (check_doc b d s) = (if yr_Model d = ''environment'' then insert (yr_ID d) (as_seenEnvironments s) else as_seenEnvironments s)"
  "as_requests (check_doc b d s) = as_requests s + (if yr_Model d \<in> {''http_request'', ''grpc_request''} then 1 else 0)"
  "set (map fst (as_seenIDs (check_doc b d s))) = set (map fst (as_seenIDs s)) \<union> set (ids [d])"
  "as_failures (check_doc b d s) = [] \<longleftrightarrow> as_failures s = [] \<and> env_ok d \<and> set (map fst (as_seenIDs s)) \<inter> set (ids [d]) = {}"
proof -
  have dup: "map_of xs k = None \<longleftrightarrow> k \<notin> fst ` set xs" for xs :: "(string \<times> string) list" and k by (rule map_of_eq_None_iff)
  show "as_failures (check_doc b d s) = [] \<longleftrightarrow> as_failures s = [] \<and> env_ok d \<and> set (map fst (as_seenIDs s)) \<inter> set (ids [d]) = {}"
    using dup [of "as_seenIDs s" "yr_ID d"]
    by (auto simp: check_doc_def check_id_def Let_def ids_def env_ok_def checkEnvironment_iff split: option.splits)
  show "set (map fst (as_seenIDs (check_doc b d s))) = set (map fst (as_seenIDs s)) \<union> set (ids [d])"
    by (auto simp: check_doc_def check_id_def Let_def ids_def dom_update)
qed (simp_all add: check_doc_def check_id_def Let_def)

lemma check_files_keeps_failures: "check_files E files s = Inr s' \<Longrightarrow> as_failures s \<noteq> [] \<Longrightarrow> as_failures s' \<noteq> []"
  by (induction E files s rule: check_files.induct) (auto split: sum.splits simp: check_doc_effect)

text \<open>The loop ends without a failure exactly if every file loads, the environments are harmless and no identifier comes twice.\<close>

lemma check_files_iff:
  "(\<exists>s'. check_files E files s = Inr s' \<and> as_failures s' = []) \<longleftrightarrow> as_failures s = []
     \<and> (\<exists>docs. map (load E) files = map Some docs \<and> list_all env_ok docs \<and> distinct (ids docs)
          \<and> set (map fst (as_seenIDs s)) \<inter> set (ids docs) = {})"
proof (induction files arbitrary: s)
  case Nil
  then show ?case by (simp add: ids_def)
next
  case (Cons f files)
  show ?case
  proof (cases "load E f")
    case None
    then have "\<nexists>s'. check_files E (f # files) s = Inr s' \<and> as_failures s' = []"
      using check_files_keeps_failures by (fastforce simp: load_def split: sum.splits)
    then show ?thesis using None by (auto simp: Cons_eq_map_conv)
  next
    case (Some d)
    then have step: "check_files E (f # files) s = check_files E files (check_doc (Base f) d s)"
      by (auto simp: load_def split: sum.splits)
    have ids_Cons: "ids (d # docs) = ids [d] @ ids docs" for docs by (simp add: ids_def)
    have one: "distinct (ids [d])" by (simp add: ids_def)
    have first: "(\<exists>docs. map (load E) (f # files) = map Some docs \<and> P docs) \<longleftrightarrow> (\<exists>rest. map (load E) files = map Some rest \<and> P (d # rest))" for P
      using Some by (auto simp: Cons_eq_map_conv)
    have sets: "distinct (ids (d # rest)) \<and> S \<inter> set (ids (d # rest)) = {}
        \<longleftrightarrow> distinct (ids rest) \<and> S \<inter> set (ids [d]) = {} \<and> (S \<union> set (ids [d])) \<inter> set (ids rest) = {}" for rest and S :: "string set"
      unfolding ids_Cons [of rest] distinct_append set_append using one by blast
    show ?thesis
      unfolding step Cons.IH check_doc_effect(4,5) first sets by auto
  qed
qed

lemma check_files_seen:
  assumes "check_files E files s = Inr s'" "map (load E) files = map Some docs"
  shows "as_seenModels s' = as_seenModels s \<union> yr_Model ` set docs
    \<and> as_seenEnvironments s' = as_seenEnvironments s \<union> yr_ID ` {d \<in> set docs. yr_Model d = ''environment''}
    \<and> as_requests s' = as_requests s + length (filter (\<lambda>d. yr_Model d \<in> {''http_request'', ''grpc_request''}) docs)"
  using assms
proof (induction files arbitrary: s docs)
  case (Cons f files)
  obtain d rest where docs: "docs = d # rest" "load E f = Some d" "map (load E) files = map Some rest"
    using Cons.prems(2) by (auto simp: Cons_eq_map_conv map_eq_Cons_conv)
  have step: "check_files E files (check_doc (Base f) d s) = Inr s'"
    using Cons.prems(1) docs(2) by (auto simp: load_def split: sum.splits)
  have envs: "{x. (x = d \<or> x \<in> set rest) \<and> yr_Model x = ''environment''}
      = (if yr_Model d = ''environment'' then insert d {x \<in> set rest. yr_Model x = ''environment''} else {x \<in> set rest. yr_Model x = ''environment''})"
    by auto
  show ?case using Cons.IH [OF step docs(3)] by (simp add: docs(1) check_doc_effect envs)
qed simp

text \<open>What a run without an error has loaded.\<close>

lemma passes_docs:
  assumes "fst (run E dir) = None" "ac_Glob E dir = Inr files"
  shows "\<exists>docs. map (load E) (sort files) = map Some docs \<and> list_all env_ok docs"
proof -
  have "\<exists>s'. check_files E (sort files) ac_start = Inr s' \<and> as_failures s' = []"
    using assms by (auto simp: run_def Let_def split: sum.splits if_splits)
  then show ?thesis unfolding check_files_iff by blast
qed

section \<open>Properties\<close>

text \<open>
  C20. When the collection passes: it has files, all of them load, no identifier is declared twice,
  no environment carries anything but what may be committed, and the local environment, the
  workspace and at least one request are there.
\<close>

theorem collection_passes_iff:
  "fst (run E dir) = None \<longleftrightarrow>
     (\<exists>files docs. ac_Glob E dir = Inr files \<and> files \<noteq> [] \<and> map (load E) (sort files) = map Some docs
        \<and> list_all env_ok docs \<and> distinct (ids docs)
        \<and> (\<exists>d \<in> set docs. yr_Model d = ''environment'' \<and> yr_ID d = localEnvironmentID)
        \<and> (\<exists>d \<in> set docs. yr_Model d = ''workspace'') \<and> (\<exists>d \<in> set docs. yr_Model d \<in> {''http_request'', ''grpc_request''}))"
proof (cases "ac_Glob E dir")
  case (Inl err)
  then show ?thesis by (simp add: run_def)
next
  case (Inr files)
  have ok: "(\<exists>s'. check_files E (sort files) ac_start = Inr s' \<and> as_failures s' = []) \<longleftrightarrow>
      (\<exists>docs. map (load E) (sort files) = map Some docs \<and> list_all env_ok docs \<and> distinct (ids docs))"
    by (simp add: check_files_iff ac_start_def)
  have seen: "checkCompleteness (as_seenEnvironments s') (as_seenModels s') (as_requests s') = [] \<longleftrightarrow>
      (\<exists>d \<in> set docs. yr_Model d = ''environment'' \<and> yr_ID d = localEnvironmentID)
        \<and> (\<exists>d \<in> set docs. yr_Model d = ''workspace'') \<and> (\<exists>d \<in> set docs. yr_Model d \<in> {''http_request'', ''grpc_request''})"
    if "check_files E (sort files) ac_start = Inr s'" "map (load E) (sort files) = map Some docs" for s' docs
  proof -
    have mem: "(k \<in> f ` S) \<longleftrightarrow> (\<exists>x \<in> S. f x = k)" for k :: string and f :: "yaak_resource \<Rightarrow> string" and S by auto
    show ?thesis
      using check_files_seen [OF that] by (simp add: checkCompleteness_iff ac_start_def filter_empty_conv mem Bex_def)
  qed
  have "fst (run E dir) = None \<longleftrightarrow> files \<noteq> [] \<and> (\<exists>s'. check_files E (sort files) ac_start = Inr s' \<and> as_failures s' = []
      \<and> checkCompleteness (as_seenEnvironments s') (as_seenModels s') (as_requests s') = [])"
    by (simp add: run_def Inr Let_def split: sum.split)
  also have "\<dots> \<longleftrightarrow> files \<noteq> [] \<and> (\<exists>docs. map (load E) (sort files) = map Some docs \<and> list_all env_ok docs \<and> distinct (ids docs)
        \<and> (\<exists>d \<in> set docs. yr_Model d = ''environment'' \<and> yr_ID d = localEnvironmentID)
        \<and> (\<exists>d \<in> set docs. yr_Model d = ''workspace'') \<and> (\<exists>d \<in> set docs. yr_Model d \<in> {''http_request'', ''grpc_request''}))"
    using ok seen by blast
  finally show ?thesis by (simp add: Inr)
qed

text \<open>
  C19. What a passing collection has committed: every variable of every environment is blank, or
  it belongs to the local environment, does not have the name of a credential, is not shaped
  like one, and holds a localhost endpoint or a version.
\<close>

theorem passing_collection_harmless:
  assumes "fst (run E dir) = None" "ac_Glob E dir = Inr files" "file \<in> set files" "load E file = Some d"
    "yr_Model d = ''environment''" "v \<in> set (yr_Variables d)"
  shows "TrimSpace (yv_Value v) = [] \<or> yr_ID d = localEnvironmentID \<and> ToLower (yv_Name v) \<notin> set credentialVariables
    \<and> TrimSpace (yv_Value v) \<in> lang localAllowedValue \<and> TrimSpace (yv_Value v) \<notin> lang credentialShaped"
proof -
  obtain docs where docs: "map (load E) (sort files) = map Some docs" "list_all env_ok docs"
    using passes_docs [OF assms(1,2)] by blast
  have "Some d \<in> set (map (load E) (sort files))" using assms(3,4) by force
  then have "env_ok d" using docs by (auto simp: list_all_iff)
  then show ?thesis using assms(5,6) by (auto simp: env_ok_def harmless_def)
qed

definition demo_files :: ac_env where
  "demo_files = \<lparr>ac_Glob = \<lambda>_. Inr [''api/yaak.env.yaml'', ''api/yaak.ws.yaml'', ''api/yaak.rq.yaml''], ac_ReadFile = Inr,
     ac_Unmarshal = \<lambda>raw.
       if raw = ''api/yaak.env.yaml''
       then Inr \<lparr>yr_Model = ''environment'', yr_Name = ''local'', yr_ID = ''env_local'',
         yr_Variables = [\<lparr>yv_Name = ''base_url'', yv_Value = ''http://localhost:8080''\<rparr>, \<lparr>yv_Name = ''password'', yv_Value = '' ''\<rparr>]\<rparr>
       else if raw = ''api/yaak.ws.yaml''
       then Inr \<lparr>yr_Model = ''workspace'', yr_Name = ''w'', yr_ID = ''wk_1'', yr_Variables = []\<rparr>
       else Inr \<lparr>yr_Model = ''http_request'', yr_Name = ''r'', yr_ID = ''rq_1'', yr_Variables = []\<rparr>\<rparr>"

lemma demo_passes: "fst (run demo_files ''api'') = None"
  by code_simp

lemma collection_passes_iff_witness: "\<exists>files. ac_Glob demo_files ''api'' = Inr files \<and> files \<noteq> []"
  using collection_passes_iff [of demo_files "''api''"] demo_passes by blast

lemma passing_collection_harmless_witness:
  "\<exists>d v. load demo_files ''api/yaak.env.yaml'' = Some d \<and> v \<in> set (yr_Variables d) \<and> yv_Name v = ''base_url''
    \<and> TrimSpace (yv_Value v) \<in> lang localAllowedValue"
proof -
  let ?v = "\<lparr>yv_Name = ''base_url'', yv_Value = ''http://localhost:8080''\<rparr>"
  let ?d = "\<lparr>yr_Model = ''environment'', yr_Name = ''local'', yr_ID = ''env_local'',
    yr_Variables = [?v, \<lparr>yv_Name = ''password'', yv_Value = '' ''\<rparr>]\<rparr>"
  have l: "load demo_files ''api/yaak.env.yaml'' = Some ?d" by (simp add: load_def demo_files_def)
  have t: "TrimSpace (yv_Value ?v) \<noteq> []" by code_simp
  have "TrimSpace (yv_Value ?v) \<in> lang localAllowedValue"
    using passing_collection_harmless [OF demo_passes _ _ l, of _ ?v] t by (simp add: demo_files_def)
  then show ?thesis using l by (intro exI [of _ ?d] exI [of _ ?v]) simp
qed

end
