(* ===== verification/Event_Flow.thy ===== *)
theory Event_Flow
  imports Outbox_Service Amqp_Consumer
begin

text \<open>
  An event on its way through two services: the outbox worker of one publishes it
  (\<open>Outbox_Service\<close>), the topic exchange routes it to the queue a consumer of another has
  bound (\<open>Amqp_Broker\<close>), and that consumer handles it (\<open>Amqp_Consumer\<close>). The
  arrivals of messages and the consumer's work interleave in any order.

  The locale \<open>custodian\<close> states what the broker and the consumer promise together: a
  message that is taken is kept (by the broker, or accepted by the handler), and no work loses it. It
  is interpreted on the model of both.
\<close>

section \<open>Routing\<close>

text \<open>
  The routing of a topic exchange, as documented: keys and patterns are words separated by
  dots, \<open>*\<close> stands for one word and \<open>#\<close> for any number of words. A queue gets one copy
  however many of its bindings match. The default exchange routes by queue name.
\<close>

fun topic_words :: "string \<Rightarrow> string list" where
  "topic_words [] = [[]]"
| "topic_words (c # cs) =
     (if c = CHR ''.'' then [] # topic_words cs
      else (case topic_words cs of [] \<Rightarrow> [[c]] | w # ws \<Rightarrow> (c # w) # ws))"

fun words_match :: "string list \<Rightarrow> string list \<Rightarrow> bool" where
  "words_match [] ws = (ws = [])"
| "words_match (p # ps) [] = (p = ''#'' \<and> words_match ps [])"
| "words_match (p # ps) (w # ws) =
     (if p = ''#'' then words_match ps (w # ws) \<or> words_match (p # ps) ws
      else (p = ''*'' \<or> p = w) \<and> words_match ps ws)"

definition topic_matches :: "string \<Rightarrow> string \<Rightarrow> bool" where
  "topic_matches pattern key = words_match (topic_words pattern) (topic_words key)"

definition bound_queues :: "broker \<Rightarrow> string \<Rightarrow> string \<Rightarrow> string list" where
  "bound_queues b exchange key =
     remdups (map fst (filter (\<lambda>(q, pattern, ex). ex = exchange \<and> topic_matches pattern key) (br_bindings b)))"

definition message_of :: "publishing \<Rightarrow> message" where
  "message_of m = \<lparr>msg_RoutingKey = pb_Key m, msg_Headers = pb_Headers m, msg_Body = pb_Body m, msg_Expiration = pb_Expiration m\<rparr>"

definition route :: "publishing \<Rightarrow> broker \<Rightarrow> broker" where
  "route m b =
     (if pb_Exchange m = '''' then enqueue (pb_Key m) (message_of m) b
      else fold (\<lambda>q. enqueue q (message_of m)) (bound_queues b (pb_Exchange m) (pb_Key m)) b)"

section \<open>The catalogue of events\<close>

text \<open>
  The routing keys are written down twice: in \<open>pkg/outbox\<close> for who records events and in
  \<open>pkg/amqp\<close> for who consumes them.
\<close>

definition outbox_routing_keys :: "string list" where
  "outbox_routing_keys = [RoutingKeyUserRegistered, ''booking.confirmed'', ''booking.cancelled'', ''subscription.renewed'', ''tour.published'',
     ''tour_run.completed'']"

definition amqp_routing_keys :: "string list" where
  "amqp_routing_keys = [''user.registered'', ''booking.confirmed'', ''booking.cancelled'', ''subscription.renewed'', ''tour.published'',
     ''tour_run.completed'']"

lemma words_match_self: "words_match ws ws"
proof (induction ws)
  case (Cons w ws)
  then show ?case by (cases ws) auto
qed simp

text \<open>
  A queue bound to a key of the one catalogue receives the events recorded under the same key of
  the other, and of the keys of the catalogue no other.
\<close>

lemma catalogues_agree:
  "outbox_routing_keys = amqp_routing_keys"
  "k \<in> set amqp_routing_keys \<Longrightarrow> k' \<in> set outbox_routing_keys \<Longrightarrow> topic_matches k k' \<longleftrightarrow> k = k'"
proof -
  show "outbox_routing_keys = amqp_routing_keys" by code_simp
  have "\<forall>k\<in>set amqp_routing_keys. \<forall>k'\<in>set outbox_routing_keys. topic_matches k k' \<longrightarrow> k = k'" by code_simp
  then show "k \<in> set amqp_routing_keys \<Longrightarrow> k' \<in> set outbox_routing_keys \<Longrightarrow> topic_matches k k' \<longleftrightarrow> k = k'"
    by (auto simp: topic_matches_def words_match_self)
qed

text \<open>
  A message that matches no binding reaches no queue: the exchange drops it, and confirms it all the
  same. With the mandatory flag it returns the message as well, but the publisher listens for no
  returns (\<open>publisher.go\<close>), so it does not learn of it.
\<close>

lemma unroutable_dropped: "pb_Exchange m \<noteq> '''' \<Longrightarrow> bound_queues b (pb_Exchange m) (pb_Key m) = [] \<Longrightarrow> route m b = b"
  by (simp add: route_def)

section \<open>Interleaved steps\<close>

text \<open>
  A message arrives at the broker, or the consumer runs for a while: \<open>Consume\<close> is called, on a channel
  that carries all frames or is lost after some number of them, or its loop goes on from where it
  was. What a lost channel leaves unacknowledged stays with the broker; that it is delivered again,
  which only adds deliveries, is left out.
\<close>

datatype stint = Called "nat option" "cevent list" | Continued "cevent list"

fun stint_run ::
  "consumer \<Rightarrow> (64 word \<Rightarrow> int) \<Rightarrow> string \<Rightarrow> go_ctx \<Rightarrow> (go_ctx \<Rightarrow> message \<Rightarrow> go_error option) \<Rightarrow> stint \<Rightarrow> cworld \<Rightarrow> cworld" where
  "stint_run c f2i now ctx handler (Called link evs) w = snd (Consume c f2i now ctx handler evs (w\<lparr>cw_link := link\<rparr>))"
| "stint_run c f2i now ctx handler (Continued evs) w = snd (consume_loop c f2i now ctx handler evs w)"

datatype flow_step = Arrives publishing | Works stint

fun arrivals :: "flow_step list \<Rightarrow> publishing list" where
  "arrivals [] = []"
| "arrivals (Arrives m # steps) = m # arrivals steps"
| "arrivals (Works st # steps) = arrivals steps"

definition arrive :: "publishing \<Rightarrow> cworld \<Rightarrow> cworld" where
  "arrive m w = w\<lparr>cw_broker := route m (cw_broker w)\<rparr>"

fun flow ::
  "consumer \<Rightarrow> (64 word \<Rightarrow> int) \<Rightarrow> string \<Rightarrow> go_ctx \<Rightarrow> (go_ctx \<Rightarrow> message \<Rightarrow> go_error option) \<Rightarrow> flow_step list \<Rightarrow> cworld \<Rightarrow> cworld" where
  "flow c f2i now ctx handler [] w = w"
| "flow c f2i now ctx handler (Arrives m # steps) w = flow c f2i now ctx handler steps (arrive m w)"
| "flow c f2i now ctx handler (Works st # steps) w =
     flow c f2i now ctx handler steps (stint_run c f2i now ctx handler st w)"

section \<open>The contract\<close>

locale custodian =
  fixes take_in :: "publishing \<Rightarrow> 'w \<Rightarrow> 'w" and work :: "stint \<Rightarrow> 'w \<Rightarrow> 'w"
    and ready :: "'w \<Rightarrow> bool" and held :: "'w \<Rightarrow> nat" and meant :: "publishing \<Rightarrow> bool"
  assumes take_ready: "ready w \<Longrightarrow> ready (take_in m w)"
    and work_ready: "ready w \<Longrightarrow> ready (work st w)"
    and take_held: "ready w \<Longrightarrow> held w + (if meant m then 1 else 0) \<le> held (take_in m w)"
    and work_held: "ready w \<Longrightarrow> held w \<le> held (work st w)"
begin

fun steps_do :: "flow_step list \<Rightarrow> 'w \<Rightarrow> 'w" where
  "steps_do [] w = w"
| "steps_do (Arrives m # steps) w = steps_do steps (take_in m w)"
| "steps_do (Works st # steps) w = steps_do steps (work st w)"

lemma all_held:
  "ready w \<Longrightarrow> held w + length (filter meant (arrivals steps)) \<le> held (steps_do steps w)"
proof (induction steps arbitrary: w)
  case (Cons x steps)
  show ?case
  proof (cases x)
    case (Arrives m)
    with Cons.IH [OF take_ready [OF Cons.prems, of m]] take_held [OF Cons.prems, of m] show ?thesis by auto
  next
    case (Works st)
    with Cons.IH [OF work_ready [OF Cons.prems, of st]] work_held [OF Cons.prems, of st] show ?thesis by auto
  qed
qed simp

end

section \<open>Lemmas: the consumer keeps its queues\<close>

text \<open>A property that enqueuing and settling keep is kept by everything the consumer does.\<close>

lemma handle_kept:
  assumes "P (cw_broker w)"
    and script: "\<And>b s. P b \<Longrightarrow> P (b\<lparr>br_script := s\<rparr>)"
    and enq: "\<And>b k m. P b \<Longrightarrow> P (enqueue k m b)" and settle: "\<And>b tag. P b \<Longrightarrow> P (settle tag b)"
  shows "P (cw_broker (handle c f2i now ctx d handler w))"
proof -
  have dl: "P (dead_lettered q m b)" if "P b" for q m b
    using that enq by (simp add: dead_lettered_def split: option.split)
  have send: "P (cw_broker w')" if "send_frame f w = (r, w')" "P (cw_broker w)" "\<And>b b'. f b = Some b' \<Longrightarrow> P b \<Longrightarrow> P b'" for f w r w'
  proof -
    have "P (snd (br_call (cw_broker w)))" using that(2) script by (auto simp: br_call_def split: list.split)
    with that(1,3) show ?thesis by (auto simp: send_frame_def transmit_def split: prod.splits reply.splits option.splits if_splits)
  qed
  have ack: "P (cw_broker (consumer_ack ctx tag w))" if "P (cw_broker w)" for ctx tag w
  proof -
    have "P b'" if "ack_frame tag b = Some b'" "P b" for b b' using that settle by (auto simp: ack_frame_def split: if_splits)
    then have "P (cw_broker (snd (send_frame (ack_frame tag) w)))" by (rule send [OF prod.collapse [symmetric] that])
    then show ?thesis by (auto simp: consumer_ack_def say_def split: prod.splits option.splits)
  qed
  have nack: "P (cw_broker (consumer_nack ctx tag w))" if "P (cw_broker w)" for ctx tag w
  proof -
    have "P b'" if "nack_frame tag b = Some b'" "P b" for b b' using that settle dl by (auto simp: nack_frame_def split: option.splits)
    then have "P (cw_broker (snd (send_frame (nack_frame tag) w)))" by (rule send [OF prod.collapse [symmetric] that])
    then show ?thesis by (auto simp: consumer_nack_def say_def split: prod.splits option.splits)
  qed
  have raw: "P (cw_broker w')" if "publishRaw k body hs x w = (r, w')" "P (cw_broker w)" for k body hs x w r w'
    using publishRaw_send [OF that(1)] send [OF _ that(2)] enq by (metis publish_frame_def option.inject)
  have "P (cw_broker (case publishRaw k body hs x w of (Some err, w2) \<Rightarrow> consumer_nack ctx tag (say (ls err) w2)
      | (None, w2) \<Rightarrow> consumer_ack ctx tag w2))" if "P (cw_broker w)" for k body hs x w ctx tag ls
    using that by (auto split: prod.split option.split intro!: ack nack dest: raw)
  with assms(1) ack show ?thesis
    by (simp add: handle_def scheduleRetry_def deadLetter_def Let_def split: action.split option.split)
qed

text \<open>
  \<open>serving c b\<close>: the queues and bindings of the consumer \<open>c\<close> are declared, and delivery tags
  are handed out once.
\<close>

definition tags_fresh :: "broker \<Rightarrow> bool" where
  "tags_fresh b \<longleftrightarrow> distinct (map fst (br_unacked b)) \<and> (\<forall>d\<in>set (br_unacked b). fst d < br_tag b)"

definition serving :: "consumer \<Rightarrow> broker \<Rightarrow> bool" where
  "serving c b \<longleftrightarrow> consumer_ready (qs_Name (co_spec c)) b \<and> tags_fresh b
     \<and> (\<forall>k\<in>set (qs_RoutingKeys (co_spec c)). (qs_Name (co_spec c), k, am_Exchange (cn_cfg (co_conn c))) \<in> set (br_bindings b))"

lemma serving_kept [simp]:
  "serving c (b\<lparr>br_script := s\<rparr>) = serving c b" "serving c (update_queue q f b) = serving c b"
  by (simp_all add: serving_def tags_fresh_def) (simp add: update_queue_def)

lemma serving_settle: "serving c b \<Longrightarrow> serving c (settle tag b)"
  by (auto simp: serving_def tags_fresh_def settle_def distinct_map_filter consumer_ready_def dead_letter_target_def)

lemma serving_route: "serving c b \<Longrightarrow> serving c (route m b)"
proof -
  have "serving c (fold (\<lambda>q. enqueue q x) qs b) = serving c b" for qs x b
    by (induction qs arbitrary: b) (simp_all add: enqueue_def)
  then show "serving c b \<Longrightarrow> serving c (route m b)" by (simp add: route_def enqueue_def)
qed

lemma serving_handle: "serving c (cw_broker w) \<Longrightarrow> serving c (cw_broker (handle c f2i now ctx d handler w))"
  by (rule handle_kept) (simp_all add: enqueue_def serving_settle)

lemma serving_deliver:
  assumes "serving c b" "deliver (qs_Name (co_spec c)) b = Some (d, b')"
  shows "serving c b' \<and> holds (qs_Name (co_spec c)) d b'"
proof -
  let ?q = "qs_Name (co_spec c)"
  obtain m where d: "d = (br_tag b, m)"
    and b': "b' = (update_queue ?q tl b)\<lparr>br_unacked := br_unacked b @ [(br_tag b, ?q, m)], br_tag := br_tag b + 1\<rparr>"
    using assms(2) by (auto simp: deliver_def split: list.splits)
  have fresh: "br_tag b \<notin> fst ` set (br_unacked b)" using assms(1) by (auto simp: serving_def tags_fresh_def)
  then have "tags_fresh b'" using assms(1) by (auto simp: b' serving_def tags_fresh_def)
  moreover have "map_of (br_unacked b) (br_tag b) = None" using fresh by (simp add: map_of_eq_None_iff)
  ultimately show ?thesis
    using assms(1) by (simp add: serving_def holds_def tags_fresh_def d b' map_add_def) (simp add: update_queue_def)
qed

lemma serving_expire: "serving c b \<Longrightarrow> serving c (expire q b)"
  by (simp add: expire_def dead_lettered_def enqueue_def split: list.split option.split)

lemma serving_script [simp]: "serving c (b\<lparr>br_script := s\<rparr>) = serving c b"
  by (simp add: serving_def tags_fresh_def)

lemma serving_stop: "serving c (cw_broker w) \<Longrightarrow> serving c (cw_broker (consumer_stop c e w))"
  using consumer_stop_broker [of c e w] by auto

lemma serving_loop: "serving c (cw_broker w) \<Longrightarrow> serving c (cw_broker (snd (consume_loop c f2i now ctx handler evs w)))"
proof (induction evs arbitrary: w)
  case (Cons ev evs)
  show ?case
  proof (cases ev)
    case Delivered
    show ?thesis
    proof (cases "deliver (qs_Name (co_spec c)) (cw_broker w)")
      case None
      with Cons Delivered show ?thesis by simp
    next
      case (Some db)
      obtain d b where db: "db = (d, b)" by (cases db)
      have "serving c (cw_broker (handle c f2i now ctx d handler (w\<lparr>cw_broker := b\<rparr>)))"
        using serving_deliver [OF Cons.prems] Some db by (intro serving_handle) simp
      from Cons.IH [OF this] Some db Delivered show ?thesis by simp
    qed
  qed (use Cons in \<open>simp_all add: serving_expire serving_stop\<close>)
qed simp

lemma serving_stint: "serving c (cw_broker w) \<Longrightarrow> serving c (cw_broker (stint_run c f2i now ctx handler st w))"
proof (cases st)
  case (Called link evs)
  assume "serving c (cw_broker w)"
  then show ?thesis
    by (cases rule: Consume_cases [of c f2i now ctx handler evs "w\<lparr>cw_link := link\<rparr>"]) (simp_all add: Called serving_loop)
qed (simp add: serving_loop)

section \<open>Lemmas: no copy is lost\<close>

lemma copies_frame [simp]: "copies body (b\<lparr>br_tag := t\<rparr>) = copies body b"
  by (simp add: copies_def)

lemma enqueue_missing:
  assumes "map_of (br_queues b) q = None"
  shows "enqueue q m b = b"
proof -
  have "map_of xs q = None \<Longrightarrow> AList.map_entry q f xs = xs" for xs :: "(string \<times> queue) list" and f
    by (induction xs) (auto split: if_splits)
  with assms show ?thesis by (simp add: enqueue_def update_queue_def)
qed

lemma copies_enqueue_grows: "copies body b \<le> copies body (enqueue q m b)"
  by (cases "map_of (br_queues b) q = None") (simp_all add: enqueue_missing copies_enqueue)

lemma copies_tl:
  assumes "msgs b q = m # ms"
  shows "copies body b = copies body (update_queue q tl b) + (if msg_Body m = body then 1 else 0)"
proof -
  obtain x where x: "map_of (br_queues b) q = Some x" "q_messages x = m # ms"
    using assms by (auto simp: msgs_def split: option.splits)
  from sum_map_entry [OF x(1), of "\<lambda>x. copies_in body (q_messages x)" "\<lambda>x. x\<lparr>q_messages := tl (q_messages x)\<rparr>"] x(2)
  show ?thesis by (simp add: copies_def update_queue_def copies_in_Cons)
qed

lemma copies_deliver: "deliver q b = Some (d, b') \<Longrightarrow> copies body b' = copies body b"
proof -
  have app: "copies_in body (xs @ ys) = copies_in body xs + copies_in body ys" for xs ys by (simp add: copies_in_def)
  have "copies body (b\<lparr>br_unacked := br_unacked b @ [(t, q, m)]\<rparr>) = copies body b + (if msg_Body m = body then 1 else 0)" for b t m
    by (simp add: copies_def app copies_in_Cons) (simp add: copies_in_def)
  from this [of "update_queue q tl b"]
  show "deliver q b = Some (d, b') \<Longrightarrow> copies body b' = copies body b"
    by (auto simp: deliver_def dest: copies_tl [where body = body] split: list.splits)
qed

lemma copies_expire:
  assumes "serving c b"
  shows "copies body b \<le> copies body (expire (RetryQueueName (qs_Name (co_spec c))) b)"
proof -
  let ?q = "qs_Name (co_spec c)" and ?b = "update_queue (RetryQueueName (qs_Name (co_spec c))) tl b"
  have ready: "consumer_ready ?q ?b" using assms by (simp add: serving_def)
  have q: "map_of (br_queues ?b) ?q \<noteq> None" "dead_letter_target (RetryQueueName ?q) ?b = Some ?q"
    using consumer_ready_queues [OF ready] ready by (simp_all only: consumer_ready_def not_False_eq_True)
  show ?thesis
  proof (cases "msgs b (RetryQueueName ?q)")
    case (Cons m ms)
    then have "expire (RetryQueueName ?q) b = enqueue ?q (m\<lparr>msg_Expiration := ''''\<rparr>) ?b"
      using q(2) by (simp only: expire_def dead_lettered_def list.case option.case)
    with copies_enqueue [OF q(1), of body "m\<lparr>msg_Expiration := ''''\<rparr>"] copies_tl [OF Cons, of body] show ?thesis by simp
  qed (simp add: expire_def)
qed

text \<open>
  What is kept of a body: the copies the broker holds, and the calls of the handler that accepted it.
\<close>

definition accepted :: "bytes \<Rightarrow> (message \<times> go_error option) list \<Rightarrow> nat" where
  "accepted body calls = length (filter (\<lambda>(m, res). msg_Body m = body \<and> res = None) calls)"

definition kept :: "bytes \<Rightarrow> cworld \<Rightarrow> nat" where
  "kept body w = copies body (cw_broker w) + accepted body (cw_handled w)"

lemma accepted_append [simp]:
  "accepted body (calls @ [(m, res)]) = accepted body calls + (if msg_Body m = body \<and> res = None then 1 else 0)"
  by (simp add: accepted_def)

lemma accepted_pos: "0 < accepted body calls \<longleftrightarrow> (\<exists>m. (m, None) \<in> set calls \<and> msg_Body m = body)"
  by (auto simp: accepted_def filter_empty_conv)

lemma kept_handle:
  assumes "holds (qs_Name (co_spec c)) d (cw_broker w)"
  shows "kept body w \<le> kept body (handle c f2i now ctx d handler w)"
proof (cases "handler (contextFor c ctx (snd d)) (snd d)")
  case None
  have "holds (qs_Name (co_spec c)) d (cw_broker (handled (snd d, None) w))" using assms by simp
  from ack_effect(2) [OF this, of body "contextFor c ctx (snd d)"] ack_effect(4) [OF this, of "contextFor c ctx (snd d)"]
  show ?thesis by (simp add: handle_accepted [where handler = handler, OF None] kept_def split: if_splits)
next
  case (Some err)
  show ?thesis
    by (rule failed_handle_effect [where handler = handler and f2i = f2i and now = now, OF assms Some refl refl]) (simp add: kept_def)
qed

lemma kept_loop:
  "serving c (cw_broker w) \<Longrightarrow> kept body w \<le> kept body (snd (consume_loop c f2i now ctx handler evs w))"
proof (induction evs arbitrary: w)
  case (Cons ev evs)
  show ?case
  proof (cases ev)
    case Delivered
    show ?thesis
    proof (cases "deliver (qs_Name (co_spec c)) (cw_broker w)")
      case None
      with Cons Delivered show ?thesis by simp
    next
      case (Some db)
      obtain d b where db: "db = (d, b)" by (cases db)
      let ?w = "w\<lparr>cw_broker := b\<rparr>" and ?h = "handle c f2i now ctx d handler (w\<lparr>cw_broker := b\<rparr>)"
      have b: "serving c (cw_broker ?w)" "holds (qs_Name (co_spec c)) d (cw_broker ?w)"
        using serving_deliver [OF Cons.prems] Some db by auto
      have "kept body w = kept body ?w" using Some db by (simp add: kept_def copies_deliver)
      also have "\<dots> \<le> kept body ?h" by (rule kept_handle [OF b(2)])
      also have "\<dots> \<le> kept body (snd (consume_loop c f2i now ctx handler evs ?h))"
        by (rule Cons.IH [OF serving_handle [OF b(1)]])
      finally show ?thesis using Some db Delivered by simp
    qed
  next
    case Expired
    let ?w = "w\<lparr>cw_broker := expire (RetryQueueName (qs_Name (co_spec c))) (cw_broker w)\<rparr>"
    have "serving c (cw_broker ?w)" using serving_expire [OF Cons.prems] by simp
    from Cons.IH [OF this] copies_expire [OF Cons.prems, of body] Expired show ?thesis by (simp add: kept_def)
  next
    case (CtxDone e)
    with consumer_stop_broker [of c e w] show ?thesis by (auto simp: kept_def consumer_stop_handled)
  qed simp
qed simp

lemma kept_stint:
  assumes "serving c (cw_broker w)"
  shows "kept body w \<le> kept body (stint_run c f2i now ctx handler st w)"
proof (cases st)
  case (Called link evs)
  show ?thesis
  proof (cases rule: Consume_cases [of c f2i now ctx handler evs "w\<lparr>cw_link := link\<rparr>"])
    case (subscribed w0 s)
    then show ?thesis using kept_loop [of c w0 body f2i now ctx handler evs] assms by (simp add: Called kept_def)
  qed (simp add: Called kept_def)
qed (use assms in \<open>simp add: kept_loop\<close>)

text \<open>\<open>reaches c m\<close>: the message goes to an exchange and key the queue of \<open>c\<close> is bound to.\<close>

definition reaches :: "consumer \<Rightarrow> publishing \<Rightarrow> bool" where
  "reaches c m \<longleftrightarrow> pb_Exchange m \<noteq> '''' \<and> pb_Exchange m = am_Exchange (cn_cfg (co_conn c))
     \<and> (\<exists>k\<in>set (qs_RoutingKeys (co_spec c)). topic_matches k (pb_Key m))"

lemma copies_fold_enqueue:
  "copies body b + (if (\<exists>q\<in>set qs. map_of (br_queues b) q \<noteq> None) \<and> msg_Body m = body then 1 else 0)
     \<le> copies body (fold (\<lambda>q. enqueue q m) qs b)"
proof (induction qs arbitrary: b)
  case (Cons q qs)
  have same: "map_of (br_queues (enqueue q m b)) n \<noteq> None \<longleftrightarrow> map_of (br_queues b) n \<noteq> None" for n
    by (simp add: enqueue_def map_of_update_queue)
  have step: "copies body b + (if map_of (br_queues b) q \<noteq> None \<and> msg_Body m = body then 1 else 0) \<le> copies body (enqueue q m b)"
    by (cases "map_of (br_queues b) q = None") (auto simp: copies_enqueue_grows copies_enqueue)
  from Cons.IH [of "enqueue q m b"] step show ?case
    unfolding same fold.simps comp_def by (auto split: if_splits)
qed simp

lemma copies_route:
  assumes "serving c b"
  shows "copies body b + (if reaches c m \<and> pb_Body m = body then 1 else 0) \<le> copies body (route m b)"
proof (cases "pb_Exchange m = ''''")
  case True
  then show ?thesis by (simp add: route_def reaches_def copies_enqueue_grows)
next
  case False
  let ?q = "qs_Name (co_spec c)"
  have "?q \<in> set (bound_queues b (pb_Exchange m) (pb_Key m))" if "reaches c m"
    using that assms by (force simp: reaches_def serving_def bound_queues_def image_iff)
  moreover have "map_of (br_queues b) ?q \<noteq> None"
    using assms consumer_ready_queues by (auto simp: serving_def)
  ultimately show ?thesis
    using copies_fold_enqueue [of body b "bound_queues b (pb_Exchange m) (pb_Key m)" "message_of m"] False
    by (auto simp: route_def message_of_def split: if_splits)
qed

section \<open>The broker and the consumer keep the contract\<close>

interpretation keeper: custodian arrive "stint_run c f2i now ctx handler"
  "\<lambda>w. serving c (cw_broker w)" "kept body" "\<lambda>m. reaches c m \<and> pb_Body m = body"
  for c f2i now ctx handler body
proof unfold_locales
  fix w :: cworld and m
  assume "serving c (cw_broker w)"
  from copies_route [OF this, of body m]
  show "kept body w + (if reaches c m \<and> pb_Body m = body then 1 else 0) \<le> kept body (arrive m w)"
    by (simp add: kept_def arrive_def)
qed (simp_all add: arrive_def serving_route serving_stint kept_stint)

lemma flow_steps: "keeper.steps_do c f2i now ctx handler steps w = flow c f2i now ctx handler steps w"
  by (induction steps arbitrary: w rule: arrivals.induct) simp_all

lemma flow_keeps:
  assumes "serving c (cw_broker w)" "cw_handled w = []"
    and "w' = flow c f2i now ctx handler steps w"
  shows "length (filter (\<lambda>m. reaches c m \<and> pb_Body m = body) (arrivals steps)) \<le> accepted body (cw_handled w') + copies body (cw_broker w')"
  using keeper.all_held [OF assms(1), of body steps f2i now ctx handler]
  unfolding flow_steps assms(3) [symmetric] by (simp add: kept_def)

lemma NewConsumer_fields:
  assumes "NewConsumer uuid cn spec log b = (Inr c, b')"
  shows "co_conn c = cn \<and> co_spec c = spec"
  using assms by (auto simp: NewConsumer_def split: prod.splits sum.splits option.splits)

lemma started_serving:
  assumes "NewConsumer uuid cn spec log b = (Inr c, b')" "qs_Name spec \<noteq> ''''" "tags_fresh b'"
  shows "serving c b'"
proof -
  have "consumer_ready (qs_Name spec) b'"
    using NewConsumer_declares [OF assms(1,2)] assms(2)
    by (auto simp: consumer_ready_def dead_letter_target_def topology_declared_def has_queue_def dead_letter_args_def)
  then show ?thesis
    using NewConsumer_declares [OF assms(1,2)] NewConsumer_fields [OF assms(1)] assms(2,3)
    by (auto simp: serving_def topology_declared_def)
qed

section \<open>Lemmas: what a queue receives\<close>

lemma msgs_enqueue_other: "q \<noteq> n \<Longrightarrow> msgs (enqueue n m b) q = msgs b q"
  by (simp add: msgs_def enqueue_def map_of_update_queue)

lemma msgs_fold_enqueue:
  assumes "distinct qs" "map_of (br_queues b) q \<noteq> None"
  shows "msgs (fold (\<lambda>n. enqueue n m) qs b) q = msgs b q @ (if q \<in> set qs then [m] else [])"
  using assms
proof (induction qs arbitrary: b)
  case (Cons n qs)
  have "map_of (br_queues (enqueue n m b)) q \<noteq> None" using Cons.prems(2) by (auto simp: enqueue_def map_of_update_queue)
  with Cons show ?case
    by (cases "q = n") (auto simp: msgs_enqueue_other, simp_all add: enqueue_def msgs_update_queue)
qed simp

lemma route_frame:
  "map_of (br_queues (route m b)) q \<noteq> None \<longleftrightarrow> map_of (br_queues b) q \<noteq> None" "br_bindings (route m b) = br_bindings b"
proof -
  have "(map_of (br_queues (fold (\<lambda>n. enqueue n x) qs b)) q \<noteq> None \<longleftrightarrow> map_of (br_queues b) q \<noteq> None)
      \<and> br_bindings (fold (\<lambda>n. enqueue n x) qs b) = br_bindings b" for qs x b
    by (induction qs arbitrary: b) (auto simp: enqueue_def map_of_update_queue, simp_all add: update_queue_def)
  note this [of "message_of m"]
  moreover have "(map_of (br_queues (enqueue n x b)) q \<noteq> None \<longleftrightarrow> map_of (br_queues b) q \<noteq> None)
      \<and> br_bindings (enqueue n x b) = br_bindings b" for n x
    by (simp add: enqueue_def map_of_update_queue) (simp add: update_queue_def)
  ultimately show "map_of (br_queues (route m b)) q \<noteq> None \<longleftrightarrow> map_of (br_queues b) q \<noteq> None" "br_bindings (route m b) = br_bindings b"
    by (simp_all add: route_def)
qed

text \<open>A queue receives what a binding of it matches, in the order of the arrivals, each message once.\<close>

definition bound_to :: "broker \<Rightarrow> string \<Rightarrow> publishing \<Rightarrow> bool" where
  "bound_to b q m \<longleftrightarrow> q \<in> set (bound_queues b (pb_Exchange m) (pb_Key m))"

lemma msgs_routed:
  assumes "map_of (br_queues b) q \<noteq> None" "\<forall>m\<in>set ms. pb_Exchange m \<noteq> ''''"
  shows "msgs (fold route ms b) q = msgs b q @ map message_of (filter (bound_to b q) ms)"
  using assms
proof (induction ms arbitrary: b)
  case (Cons m ms)
  have "msgs (route m b) q = msgs b q @ (if bound_to b q m then [message_of m] else [])"
    using Cons.prems by (simp add: route_def bound_to_def msgs_fold_enqueue bound_queues_def)
  moreover have "bound_to (route m b) q = bound_to b q" by (simp add: bound_to_def bound_queues_def route_frame fun_eq_iff)
  ultimately show ?case using Cons.IH [of "route m b"] Cons.prems unfolding route_frame(1) by simp
qed simp

section \<open>Lemmas: a handler that accepts\<close>

lemma accepted_delivery:
  assumes "serving c (cw_broker w)" "br_script (cw_broker w) = []" "cw_link w = None"
    and "msgs (cw_broker w) (qs_Name (co_spec c)) = m # ms" "handler (contextFor c ctx m) m = None"
  shows "consume_loop c f2i now ctx handler (Delivered # evs) w =
    consume_loop c f2i now ctx handler evs (handled (m, None)
      (w\<lparr>cw_broker := (update_queue (qs_Name (co_spec c)) tl (cw_broker w))\<lparr>br_tag := br_tag (cw_broker w) + 1\<rparr>\<rparr>))"
proof -
  let ?q = "qs_Name (co_spec c)" and ?b = "cw_broker w"
  let ?b' = "(update_queue ?q tl ?b)\<lparr>br_unacked := br_unacked ?b @ [(br_tag ?b, ?q, m)], br_tag := br_tag ?b + 1\<rparr>"
  have deliver: "deliver ?q ?b = Some ((br_tag ?b, m), ?b')" using assms(4) by (simp add: deliver_def)
  have "filter (\<lambda>d. fst d \<noteq> br_tag ?b) (br_unacked ?b) = br_unacked ?b"
    using assms(1) unfolding filter_id_conv by (auto simp: serving_def tags_fresh_def)
  then have settle: "settle (br_tag ?b) ?b' = (update_queue ?q tl ?b)\<lparr>br_tag := br_tag ?b + 1\<rparr>"
    by (simp add: settle_def update_queue_def)
  have "handle c f2i now ctx (br_tag ?b, m) handler (w\<lparr>cw_broker := ?b'\<rparr>) =
      consumer_ack (contextFor c ctx m) (br_tag ?b) (handled (m, None) (w\<lparr>cw_broker := ?b'\<rparr>))"
    using assms(5) by (simp add: handle_accepted)
  also have "\<dots> = handled (m, None) (w\<lparr>cw_broker := settle (br_tag ?b) ?b'\<rparr>)"
    using ack_quiet [of "handled (m, None) (w\<lparr>cw_broker := ?b'\<rparr>)" "br_tag ?b" "contextFor c ctx m"] assms(2,3)
    by (simp add: map_of_eq_None_iff handled_def)
  finally show ?thesis using deliver settle by simp
qed

lemma loop_accepts:
  assumes "serving c (cw_broker w)" "br_script (cw_broker w) = []" "cw_link w = None"
    and "\<And>ctx m. m \<in> set (msgs (cw_broker w) (qs_Name (co_spec c))) \<Longrightarrow> handler ctx m = None"
    and "n = length (msgs (cw_broker w) (qs_Name (co_spec c)))"
  shows "\<exists>w'. consume_loop c f2i now ctx handler (replicate n Delivered) w = (None, w')
     \<and> msgs (cw_broker w') (qs_Name (co_spec c)) = [] \<and> br_unacked (cw_broker w') = br_unacked (cw_broker w)
     \<and> (\<forall>q. q \<noteq> qs_Name (co_spec c) \<longrightarrow> msgs (cw_broker w') q = msgs (cw_broker w) q)
     \<and> cw_handled w' = cw_handled w @ map (\<lambda>m. (m, None)) (msgs (cw_broker w) (qs_Name (co_spec c)))"
  using assms
proof (induction n arbitrary: w)
  case (Suc n)
  let ?q = "qs_Name (co_spec c)"
  obtain m ms where ms: "msgs (cw_broker w) ?q = m # ms" using Suc.prems(5) by (cases "msgs (cw_broker w) ?q") auto
  let ?w = "handled (m, None) (w\<lparr>cw_broker := (update_queue ?q tl (cw_broker w))\<lparr>br_tag := br_tag (cw_broker w) + 1\<rparr>\<rparr>)"
  have exists: "map_of (br_queues (cw_broker w)) ?q \<noteq> None"
    using Suc.prems(1) consumer_ready_queues by (auto simp: serving_def)
  have w: "serving c (cw_broker ?w)" "br_script (cw_broker ?w) = []" "msgs (cw_broker ?w) ?q = ms"
    "br_unacked (cw_broker ?w) = br_unacked (cw_broker w)" "q \<noteq> ?q \<Longrightarrow> msgs (cw_broker ?w) q = msgs (cw_broker w) q" for q
    using Suc.prems(1,2) exists ms
    by (simp_all add: msgs_update_queue) (auto simp: serving_def tags_fresh_def update_queue_def consumer_ready_def dead_letter_target_def
        map_of_map_entry less_Suc_eq split: option.splits)
  have "consume_loop c f2i now ctx handler (replicate (Suc n) Delivered) w = consume_loop c f2i now ctx handler (replicate n Delivered) ?w"
    unfolding replicate_Suc by (rule accepted_delivery [OF Suc.prems(1-3) ms]) (simp add: Suc.prems(4) ms)
  moreover have "cw_link ?w = None" using Suc.prems(3) by simp
  moreover note Suc.IH [OF w(1,2)]
  ultimately show ?case using w(3-5) Suc.prems(4,5) ms by simp
qed simp

lemma serving_queue: "serving c b \<Longrightarrow> map_of (br_queues b) (qs_Name (co_spec c)) \<noteq> None"
  using consumer_ready_queues by (auto simp: serving_def)

lemma Consume_accepts:
  assumes "serving c (cw_broker w)" "br_script (cw_broker w) = []" "cw_link w = None"
    and "\<And>ctx m. m \<in> set (msgs (cw_broker w) (qs_Name (co_spec c))) \<Longrightarrow> handler ctx m = None"
    and "n = length (msgs (cw_broker w) (qs_Name (co_spec c)))"
  shows "\<exists>w'. Consume c f2i now ctx handler (replicate n Delivered) w = (None, w')
     \<and> msgs (cw_broker w') (qs_Name (co_spec c)) = [] \<and> br_unacked (cw_broker w') = br_unacked (cw_broker w)
     \<and> (\<forall>q. q \<noteq> qs_Name (co_spec c) \<longrightarrow> msgs (cw_broker w') q = msgs (cw_broker w) q)
     \<and> cw_handled w' = cw_handled w @ map (\<lambda>m. (m, None)) (msgs (cw_broker w) (qs_Name (co_spec c)))"
proof -
  obtain w0 where w0: "cw_broker w0 = cw_broker w" "cw_link w0 = cw_link w" "cw_handled w0 = cw_handled w" "\<forall>evs. Consume c f2i now ctx handler evs w = consume_loop c f2i now ctx handler evs w0"
    using Consume_quiet [OF assms(2) serving_queue [OF assms(1)]] by blast
  have "\<exists>w'. consume_loop c f2i now ctx handler (replicate n Delivered) w0 = (None, w')
     \<and> msgs (cw_broker w') (qs_Name (co_spec c)) = [] \<and> br_unacked (cw_broker w') = br_unacked (cw_broker w0)
     \<and> (\<forall>q. q \<noteq> qs_Name (co_spec c) \<longrightarrow> msgs (cw_broker w') q = msgs (cw_broker w0) q)
     \<and> cw_handled w' = cw_handled w0 @ map (\<lambda>m. (m, None)) (msgs (cw_broker w0) (qs_Name (co_spec c)))"
    by (rule loop_accepts) (simp_all add: w0(1,2) assms)
  then show ?thesis by (simp only: w0(1,3) spec [OF w0(4)])
qed

lemma route_script: "br_script (route m b) = br_script b"
proof -
  have "br_script (fold (\<lambda>n. enqueue n x) qs b) = br_script b" for qs x b
    by (induction qs arbitrary: b) (simp_all add: enqueue_def)
  then show ?thesis by (simp add: route_def enqueue_def)
qed

lemma serving_fold_route:
  assumes "serving c b"
  shows "serving c (fold route ms b)" "br_script (fold route ms b) = br_script b"
  using assms by (induction ms arbitrary: b) (simp_all add: serving_route route_script)

lemma arrivals_append [simp]: "arrivals (xs @ ys) = arrivals xs @ arrivals ys"
  by (induction xs rule: arrivals.induct) simp_all

lemma arrivals_map [simp]: "arrivals (map Arrives ms) = ms"
  by (induction ms) simp_all

section \<open>Lemmas: a backlog reaches a queue\<close>

lemma backlog_routed:
  fixes cfg :: amqp_config and ctx :: go_ctx and w :: svc
  defines "new \<equiv> map (event_message cfg ctx) (claimed_events (sv_db w))"
  assumes "healthy w" "sv_cancel_at w = Some t" "t \<le> pg_now (sv_db w) + wc_PollInterval (wc_withDefaults wcfg)"
    and "length (claimable (sv_db w)) < n" "am_Exchange cfg \<noteq> ''''" "map_of (br_queues b) q \<noteq> None"
  obtains w' es where "Run n (svc_worker cfg ctx wcfg) svc_env w = Some w'" "ps_taken (sv_pub w') = ps_taken (sv_pub w) @ new"
    "msgs (fold route new b) q = msgs b q @ es"
    "map (\<lambda>m. (msg_RoutingKey m, msg_Body m)) es = map (\<lambda>r. (row_RoutingKey r, row_Payload r))
       (filter (\<lambda>r. q \<in> set (bound_queues b (am_Exchange cfg) (row_RoutingKey r)))
         (sort_key row_ID (filter (row_due (sv_db w)) (pg_rows (sv_db w)))))"
proof
  let ?w' = "env_wait svc_env (wc_PollInterval (wc_withDefaults wcfg)) (sent cfg ctx (claimed_events (sv_db w)) w)"
  let ?es = "map message_of (filter (bound_to b q) new)"
  have claim: "claimable (sv_db w) = sort_key row_ID (filter (row_due (sv_db w)) (pg_rows (sv_db w)))"
    using assms(2) by (simp add: healthy_def claimable_def)
  show "Run n (svc_worker cfg ctx wcfg) svc_env w = Some ?w'"
    using Run_drains [OF assms(2-4)] assms(5) by (simp add: claimed_events_def)
  show "ps_taken (sv_pub ?w') = ps_taken (sv_pub w) @ new" by (simp add: svc_env_def sent_def new_def)
  show "msgs (fold route new b) q = msgs b q @ ?es"
    by (rule msgs_routed [OF assms(7)]) (use assms(6) in \<open>auto simp: event_message_def new_def\<close>)
  show "map (\<lambda>m. (msg_RoutingKey m, msg_Body m)) ?es = map (\<lambda>r. (row_RoutingKey r, row_Payload r))
       (filter (\<lambda>r. q \<in> set (bound_queues b (am_Exchange cfg) (row_RoutingKey r)))
         (sort_key row_ID (filter (row_due (sv_db w)) (pg_rows (sv_db w)))))"
    by (simp add: claim [symmetric] claimed_events_def new_def filter_map comp_def event_message_def message_of_def bound_to_def)
qed

section \<open>A concrete consumer\<close>

definition mail_spec :: queue_spec where
  "mail_spec = \<lparr>qs_Name = ''mail'', qs_RoutingKeys = [''user.*'', ''b.#''], qs_Durable = True\<rparr>"

definition mail_connection :: connection where
  "mail_connection = \<lparr>cn_conn = 0, cn_channel = 1, cn_cfg = demo_cfg\<rparr>"

definition empty_broker :: broker where
  "empty_broker = \<lparr>br_exchanges = [], br_queues = [], br_bindings = [], br_unacked = [], br_tag = 7, br_open = [Conn 0, Chan 0 1],
     br_fresh = 2, br_prefetch = [], br_confirms = [], br_script = []\<rparr>"

definition mail_consumer :: consumer where
  "mail_consumer = \<lparr>co_conn = mail_connection, co_channel = 2, co_spec = mail_spec, co_tag = ''mail-u'', co_log = demo_logger\<rparr>"

definition mail_broker :: broker where
  "mail_broker = snd (NewConsumer ''u'' mail_connection mail_spec demo_logger empty_broker)"

lemma mail_started: "NewConsumer ''u'' mail_connection mail_spec demo_logger empty_broker = (Inr mail_consumer, mail_broker)"
proof -
  have "fst (NewConsumer ''u'' mail_connection mail_spec demo_logger empty_broker) = Inr mail_consumer" by code_simp
  then show ?thesis by (metis mail_broker_def prod.collapse)
qed

text \<open>
  An event no binding matches: the broker confirms it in time, the worker marks it, and no queue
  holds it.
\<close>

lemma unroutable_event_marked:
  "confirms_in_time (sv_pub (demo_svc [])) \<and> pg_marked (sv_db (snd (demo_batch []))) 2
   \<and> (let b = fold route (ps_taken (sv_pub (snd (demo_batch [])))) (mail_broker\<lparr>br_bindings := []\<rparr>)
      in list_all (\<lambda>(q, x). q_messages x = []) (br_queues b) \<and> br_unacked b = [])"
  by code_simp

lemma mail_serving: "serving mail_consumer mail_broker \<and> br_script mail_broker = [] \<and> tags_fresh mail_broker" by code_simp

end
