(* ===== verification/Testutils.thy ===== *)
theory Testutils
  imports Database
begin

text \<open>
  \<open>pkg/testutils\<close>: the dependencies of the integration tests. Containers, connection pools,
  Redis clients and Docker providers are resources that are opened and have to be given back;
  a test collects cleanups (\<open>t.Cleanup\<close>), which run in reverse order when it ends, however it ends.

  Docker, the container library, the pool and the Redis client are not code of the repository: a
  script says what each call answers, as for the servers elsewhere. A call to start a container
  may fail and leave the container behind (\<open>FailApplied\<close>), which the library documents.
  A database is the list of statements executed in it; as the comments of the source
  say, Postgres refuses to copy or drop one that somebody is connected to.
\<close>

section \<open>Resources\<close>

datatype container = PostgresContainer string string | RedisContainer string | RabbitContainer string \<comment> \<open>image, database\<close>

datatype res = Container nat container | Pool nat string | Client nat string | Provider nat

text \<open>What a cleanup of a test does; each is a closure of the source.\<close>

datatype cleanup = StopPostgres nat nat | StopAMQP nat | RemoveContainer nat | CloseClient nat

record bench =
  bn_open :: "res list"
  bn_fresh :: nat
  bn_refused :: "nat list" \<comment> \<open>containers whose termination failed\<close>
  bn_sessions :: "nat list" \<comment> \<open>pools that hold a connection\<close>
  bn_url :: "nat \<Rightarrow> string" \<comment> \<open>the connection string of a container\<close>
  bn_data :: "(string \<times> string list) list" \<comment> \<open>by connection string\<close>
  bn_snapshots :: "(nat \<times> string list) list" \<comment> \<open>by container\<close>
  bn_cleanups :: "cleanup list" \<comment> \<open>the last registered first\<close>
  bn_out :: "string list" \<comment> \<open>the error stream and the log of the test\<close>
  bn_starts :: "reply list" \<comment> \<open>what starting a container answers\<close>
  bn_script :: "reply list" \<comment> \<open>what every other call answers\<close>

definition bn_call :: "bench \<Rightarrow> reply \<times> bench" where
  "bn_call b = (case bn_script b of [] \<Rightarrow> (Ok, b) | r # rs \<Rightarrow> (r, b\<lparr>bn_script := rs\<rparr>))"

text \<open>A call that only reads.\<close>

definition bn_ask :: "bench \<Rightarrow> go_error option \<times> bench" where
  "bn_ask b = (case bn_call b of (Ok, b) \<Rightarrow> (None, b) | (Fail e, b) \<Rightarrow> (Some e, b) | (FailApplied e, b) \<Rightarrow> (Some e, b))"

text \<open>
  The calls of the container library, of the pool and of the client. Starting a container has a
  script of its own.
\<close>

definition container_Run :: "container \<Rightarrow> bench \<Rightarrow> (go_error + nat) \<times> bench" where
  "container_Run k b =
     (let started = b\<lparr>bn_open := bn_open b @ [Container (bn_fresh b) k], bn_fresh := bn_fresh b + 1, bn_starts := tl (bn_starts b)\<rparr> in
      case bn_starts b of
        [] \<Rightarrow> (Inr (bn_fresh b), started)
      | Ok # _ \<Rightarrow> (Inr (bn_fresh b), started)
      | Fail e # rs \<Rightarrow> (Inl e, b\<lparr>bn_starts := rs\<rparr>)
      | FailApplied e # _ \<Rightarrow> (Inl e, started))"

fun is_container :: "nat \<Rightarrow> res \<Rightarrow> bool" where
  "is_container c (Container i k) = (i = c)"
| "is_container c _ = False"

definition container_Terminate :: "nat \<Rightarrow> bench \<Rightarrow> go_error option \<times> bench" where
  "container_Terminate c b =
     (case bn_call b of (r, b) \<Rightarrow>
        (let gone = b\<lparr>bn_open := filter (\<lambda>x. \<not> is_container c x) (bn_open b)\<rparr> in
         case r of
           Ok \<Rightarrow> (None, gone)
         | Fail e \<Rightarrow> (Some e, b\<lparr>bn_refused := c # bn_refused b\<rparr>)
         | FailApplied e \<Rightarrow> (Some e, gone)))"

definition ConnectionString :: "nat \<Rightarrow> bench \<Rightarrow> (go_error + string) \<times> bench" where
  "ConnectionString c b = (case bn_ask b of (Some e, b) \<Rightarrow> (Inl e, b) | (None, b) \<Rightarrow> (Inr (bn_url b c), b))"

text \<open>\<open>pgxpool.New\<close> does not connect, and leaves nothing behind when it fails.\<close>

definition pool_New :: "string \<Rightarrow> bench \<Rightarrow> (go_error + nat) \<times> bench" where
  "pool_New url b =
     (case bn_ask b of
        (Some e, b) \<Rightarrow> (Inl e, b)
      | (None, b) \<Rightarrow> (Inr (bn_fresh b), b\<lparr>bn_open := bn_open b @ [Pool (bn_fresh b) url], bn_fresh := bn_fresh b + 1\<rparr>))"

definition pool_Ping :: "nat \<Rightarrow> bench \<Rightarrow> go_error option \<times> bench" where
  "pool_Ping p b = (case bn_ask b of (Some e, b) \<Rightarrow> (Some e, b) | (None, b) \<Rightarrow> (None, b\<lparr>bn_sessions := p # bn_sessions b\<rparr>))"

definition pool_Reset :: "nat \<Rightarrow> bench \<Rightarrow> bench" where
  "pool_Reset p b = b\<lparr>bn_sessions := filter (\<lambda>x. x \<noteq> p) (bn_sessions b)\<rparr>"

fun is_pool :: "nat \<Rightarrow> res \<Rightarrow> bool" where
  "is_pool p (Pool i url) = (i = p)"
| "is_pool p _ = False"

definition pool_Close :: "nat \<Rightarrow> bench \<Rightarrow> bench" where
  "pool_Close p b = (pool_Reset p b)\<lparr>bn_open := filter (\<lambda>x. \<not> is_pool p x) (bn_open b)\<rparr>"

fun is_client :: "nat \<Rightarrow> res \<Rightarrow> bool" where
  "is_client p (Client i url) = (i = p)"
| "is_client p _ = False"

definition client_Close :: "nat \<Rightarrow> bench \<Rightarrow> bench" where
  "client_Close p b = b\<lparr>bn_open := filter (\<lambda>x. \<not> is_client p x) (bn_open b)\<rparr>"

section \<open>Postgres\<close>

definition PostgresImage :: string where "PostgresImage = ''postgres:18.6-alpine''"
definition PostGISImage :: string where "PostGISImage = ''imresamu/postgis:18-3.6-alpine''"
definition RedisImage :: string where "RedisImage = ''redis:8-alpine''"
definition RabbitMQImage :: string where "RabbitMQImage = ''rabbitmq:4-management-alpine''"

record postgres =
  pgc_URL :: string
  pgc_Pool :: nat
  pgc_container :: nat

record postgresSettings =
  pgs_image :: string
  pgs_database :: string

definition WithPostGIS :: "postgresSettings \<Rightarrow> postgresSettings" where
  "WithPostGIS s = s\<lparr>pgs_image := PostGISImage\<rparr>"

definition WithDatabase :: "string \<Rightarrow> postgresSettings \<Rightarrow> postgresSettings" where
  "WithDatabase name s = s\<lparr>pgs_database := name\<rparr>"

text \<open>The closure \<open>terminate\<close> of \<open>StartPostgres\<close>, and the one it returns.\<close>

definition pg_terminate :: "nat \<Rightarrow> bench \<Rightarrow> bench" where
  "pg_terminate c b =
     (case container_Terminate c b of
        (Some err, b) \<Rightarrow> b\<lparr>bn_out := bn_out b @ [''terminating the PostgreSQL container: '' @ err_text err]\<rparr>
      | (None, b) \<Rightarrow> b)"

definition pg_stop :: "nat \<Rightarrow> nat \<Rightarrow> bench \<Rightarrow> bench" where
  "pg_stop pool c b = pg_terminate c (pool_Close pool b)"

definition StartPostgres :: "(postgresSettings \<Rightarrow> postgresSettings) list \<Rightarrow> bench \<Rightarrow> (go_error + postgres) \<times> bench" where
  "StartPostgres opts b =
     (let settings = fold (\<lambda>opt s. opt s) opts \<lparr>pgs_image = PostgresImage, pgs_database = ''dizen_test''\<rparr> in
      case container_Run (PostgresContainer (pgs_image settings) (pgs_database settings)) b of
        (Inl err, b) \<Rightarrow> (Inl (Errorf ''starting PostgreSQL'' err), b)
      | (Inr c, b) \<Rightarrow>
          (case ConnectionString c b of
             (Inl err, b) \<Rightarrow> (Inl (Errorf ''reading the connection string'' err), pg_terminate c b)
           | (Inr url, b) \<Rightarrow>
               (case pool_New url b of
                  (Inl err, b) \<Rightarrow> (Inl (Errorf ''opening the pool'' err), pg_terminate c b)
                | (Inr pool, b) \<Rightarrow>
                    (case pool_Ping pool b of
                       (Some err, b) \<Rightarrow> (Inl (Errorf ''pinging the database'' err), pg_terminate c (pool_Close pool b))
                     | (None, b) \<Rightarrow> (Inr \<lparr>pgc_URL = url, pgc_Pool = pool, pgc_container = c\<rparr>, b)))))"

section \<open>Tests\<close>

text \<open>How a helper ends: it returns, it fails the test at once (\<open>t.Fatalf\<close>), or it skips it.\<close>

datatype 'a attempt = Done 'a | Fatal string | Skipped string

definition t_Cleanup :: "cleanup \<Rightarrow> bench \<Rightarrow> bench" where
  "t_Cleanup f b = b\<lparr>bn_cleanups := f # bn_cleanups b\<rparr>"

definition SetupPostgres :: "(postgresSettings \<Rightarrow> postgresSettings) list \<Rightarrow> bench \<Rightarrow> postgres attempt \<times> bench" where
  "SetupPostgres opts b =
     (case StartPostgres opts b of
        (Inl err, b) \<Rightarrow> (Fatal (err_text err), b)
      | (Inr pg, b) \<Rightarrow> (Done pg, t_Cleanup (StopPostgres (pgc_Pool pg) (pgc_container pg)) b))"

definition pg_ObjectInUse :: go_error where
  "pg_ObjectInUse = Sentinel ''the database is being accessed by other users''"

definition data_of :: "string \<Rightarrow> bench \<Rightarrow> string list" where
  "data_of url b = (case map_of (bn_data b) url of None \<Rightarrow> [] | Some d \<Rightarrow> d)"

definition in_use :: "nat \<Rightarrow> bench \<Rightarrow> bool" where
  "in_use c b = list_ex (\<lambda>x. case x of Pool p url \<Rightarrow> url = bn_url b c \<and> p \<in> set (bn_sessions b) | _ \<Rightarrow> False) (bn_open b)"

definition container_Snapshot :: "nat \<Rightarrow> bench \<Rightarrow> go_error option \<times> bench" where
  "container_Snapshot c b =
     (case bn_ask b of
        (Some e, b) \<Rightarrow> (Some e, b)
      | (None, b) \<Rightarrow>
          if in_use c b then (Some pg_ObjectInUse, b)
          else (None, b\<lparr>bn_snapshots := AList.update c (data_of (bn_url b c) b) (bn_snapshots b)\<rparr>))"

definition container_Restore :: "nat \<Rightarrow> bench \<Rightarrow> go_error option \<times> bench" where
  "container_Restore c b =
     (case bn_ask b of
        (Some e, b) \<Rightarrow> (Some e, b)
      | (None, b) \<Rightarrow>
          if in_use c b then (Some pg_ObjectInUse, b)
          else (case map_of (bn_snapshots b) c of
                  None \<Rightarrow> (Some (Sentinel ''snapshot not found''), b)
                | Some d \<Rightarrow> (None, b\<lparr>bn_data := AList.update (bn_url b c) d (bn_data b)\<rparr>)))"

definition SnapshotContext :: "postgres \<Rightarrow> bench \<Rightarrow> go_error option \<times> bench" where
  "SnapshotContext pg b =
     (case container_Snapshot (pgc_container pg) (pool_Reset (pgc_Pool pg) b) of
        (Some err, b) \<Rightarrow> (Some (Errorf ''taking the snapshot'' err), b)
      | (None, b) \<Rightarrow> (None, b))"

definition RestoreContext :: "postgres \<Rightarrow> bench \<Rightarrow> go_error option \<times> bench" where
  "RestoreContext pg b =
     (case container_Restore (pgc_container pg) (pool_Reset (pgc_Pool pg) b) of
        (Some err, b) \<Rightarrow> (Some (Errorf ''restoring the snapshot'' err), b)
      | (None, b) \<Rightarrow> (None, b))"

definition fatal_on :: "go_error option \<times> bench \<Rightarrow> unit attempt \<times> bench" where
  "fatal_on r = (case r of (Some err, b) \<Rightarrow> (Fatal (err_text err), b) | (None, b) \<Rightarrow> (Done (), b))"

definition Snapshot :: "postgres \<Rightarrow> bench \<Rightarrow> unit attempt \<times> bench" where
  "Snapshot pg b = fatal_on (SnapshotContext pg b)"

definition Restore :: "postgres \<Rightarrow> bench \<Rightarrow> unit attempt \<times> bench" where
  "Restore pg b = fatal_on (RestoreContext pg b)"

section \<open>Redis and RabbitMQ\<close>

record redis_bench =
  rb_URL :: string
  rb_Client :: nat

text \<open>\<open>redis.NewClient\<close> cannot fail.\<close>

definition client_New :: "string \<Rightarrow> bench \<Rightarrow> nat \<times> bench" where
  "client_New url b = (bn_fresh b, b\<lparr>bn_open := bn_open b @ [Client (bn_fresh b) url], bn_fresh := bn_fresh b + 1\<rparr>)"

definition registerTerminate :: "nat \<Rightarrow> bench \<Rightarrow> bench" where
  "registerTerminate c = t_Cleanup (RemoveContainer c)"

text \<open>\<open>parse\<close> is \<open>redis.ParseURL\<close>.\<close>

definition SetupRedis :: "(string \<Rightarrow> go_error option) \<Rightarrow> bench \<Rightarrow> redis_bench attempt \<times> bench" where
  "SetupRedis parse b =
     (case container_Run (RedisContainer RedisImage) b of
        (Inl err, b) \<Rightarrow> (Fatal (''starting Redis: '' @ err_text err), b)
      | (Inr c, b) \<Rightarrow>
          (case ConnectionString c (registerTerminate c b) of
             (Inl err, b) \<Rightarrow> (Fatal (''reading the connection string: '' @ err_text err), b)
           | (Inr url, b) \<Rightarrow>
               (case parse url of
                  Some err \<Rightarrow> (Fatal (''parsing the Redis URL '' @ quote url @ '': '' @ err_text err), b)
                | None \<Rightarrow>
                    (case client_New url b of
                       (client, b) \<Rightarrow>
                         (case bn_ask (t_Cleanup (CloseClient client) b) of
                            (Some err, b) \<Rightarrow> (Fatal (''pinging Redis: '' @ err_text err), b)
                          | (None, b) \<Rightarrow> (Done \<lparr>rb_URL = url, rb_Client = client\<rparr>, b))))))"

definition amqp_stop :: "nat \<Rightarrow> bench \<Rightarrow> bench" where
  "amqp_stop c b = snd (container_Terminate c b)"

definition StartAMQP :: "bench \<Rightarrow> (go_error + (string \<times> nat)) \<times> bench" where
  "StartAMQP b =
     (case container_Run (RabbitContainer RabbitMQImage) b of
        (Inl err, b) \<Rightarrow> (Inl (Errorf ''starting RabbitMQ'' err), b)
      | (Inr c, b) \<Rightarrow>
          (case ConnectionString c b of
             (Inl err, b) \<Rightarrow> (Inl (Errorf ''reading the AMQP URL'' err), amqp_stop c b)
           | (Inr url, b) \<Rightarrow> (Inr (url, c), b)))"

definition SetupAMQP :: "bench \<Rightarrow> string attempt \<times> bench" where
  "SetupAMQP b =
     (case StartAMQP b of
        (Inl err, b) \<Rightarrow> (Fatal (''starting RabbitMQ: '' @ err_text err), b)
      | (Inr (url, c), b) \<Rightarrow> (Done url, t_Cleanup (StopAMQP c) b))"

section \<open>Docker, migrations and tables\<close>

fun is_provider :: "nat \<Rightarrow> res \<Rightarrow> bool" where
  "is_provider p (Provider i) = (i = p)"
| "is_provider p _ = False"

definition provider_Close :: "nat \<Rightarrow> bench \<Rightarrow> bench" where
  "provider_Close p b = b\<lparr>bn_open := filter (\<lambda>x. \<not> is_provider p x) (bn_open b)\<rparr>"

definition NewDockerProvider :: "bench \<Rightarrow> (go_error + nat) \<times> bench" where
  "NewDockerProvider b =
     (case bn_ask b of
        (Some e, b) \<Rightarrow> (Inl e, b)
      | (None, b) \<Rightarrow> (Inr (bn_fresh b), b\<lparr>bn_open := bn_open b @ [Provider (bn_fresh b)], bn_fresh := bn_fresh b + 1\<rparr>))"

definition DockerAvailable :: "bench \<Rightarrow> bool \<times> bench" where
  "DockerAvailable b =
     (case NewDockerProvider b of
        (Inl err, b) \<Rightarrow> (False, b)
      | (Inr p, b) \<Rightarrow> (case bn_ask b of (err, b) \<Rightarrow> (err = None, provider_Close p b)))"

definition SkipIfNoDocker :: "bench \<Rightarrow> unit attempt \<times> bench" where
  "SkipIfNoDocker b =
     (case NewDockerProvider b of
        (Inl err, b) \<Rightarrow> (Skipped (''Docker is not available: '' @ err_text err), b)
      | (Inr p, b) \<Rightarrow>
          (case bn_ask b of
             (Some err, b) \<Rightarrow> (Skipped (''the Docker daemon is not reachable: '' @ err_text err), provider_Close p b)
           | (None, b) \<Rightarrow> (Done (), provider_Close p b)))"

fun pool_url :: "nat \<Rightarrow> res list \<Rightarrow> string" where
  "pool_url p [] = ''''"
| "pool_url p (x # xs) = (case x of Pool i url \<Rightarrow> if i = p then url else pool_url p xs | _ \<Rightarrow> pool_url p xs)"

definition pool_Exec :: "nat \<Rightarrow> string \<Rightarrow> bench \<Rightarrow> go_error option \<times> bench" where
  "pool_Exec p sql b =
     (case bn_call b of (r, b) \<Rightarrow>
        (let url = pool_url p (bn_open b);
             executed = b\<lparr>bn_data := AList.update url (data_of url b @ [sql]) (bn_data b), bn_sessions := p # bn_sessions b\<rparr>
         in case r of Ok \<Rightarrow> (None, executed) | Fail e \<Rightarrow> (Some e, b) | FailApplied e \<Rightarrow> (Some e, executed)))"

fun apply_loop :: "nat \<Rightarrow> nat \<Rightarrow> string list \<Rightarrow> bench \<Rightarrow> unit attempt \<times> bench" where
  "apply_loop p i [] b = (Done (), b)"
| "apply_loop p i (statement # rest) b =
     (case pool_Exec p statement b of
        (Some err, b) \<Rightarrow> (Fatal (''applying statement '' @ Itoa (int i + 1) @ '': '' @ err_text err @ [CHR 0x0A] @ statement), b)
      | (None, b) \<Rightarrow> apply_loop p (i + 1) rest b)"

definition ApplyMigrations :: "nat \<Rightarrow> string list \<Rightarrow> bench \<Rightarrow> unit attempt \<times> bench" where
  "ApplyMigrations p statements b = apply_loop p 0 statements b"

fun TruncateTables :: "nat \<Rightarrow> string list \<Rightarrow> bench \<Rightarrow> unit attempt \<times> bench" where
  "TruncateTables p [] b = (Done (), b)"
| "TruncateTables p (table # rest) b =
     (case pool_Exec p (''truncate table '' @ table @ '' restart identity cascade'') b of
        (Some err, b) \<Rightarrow> (Fatal (''truncating '' @ table @ '': '' @ err_text err), b)
      | (None, b) \<Rightarrow> TruncateTables p rest b)"

section \<open>The end of a test\<close>

fun run_cleanup :: "cleanup \<Rightarrow> bench \<Rightarrow> bench" where
  "run_cleanup (StopPostgres pool c) b = pg_stop pool c b"
| "run_cleanup (StopAMQP c) b = amqp_stop c b"
| "run_cleanup (RemoveContainer c) b =
     (case container_Terminate c b of
        (Some err, b) \<Rightarrow> b\<lparr>bn_out := bn_out b @ [''could not remove the container: '' @ err_text err]\<rparr>
      | (None, b) \<Rightarrow> b)"
| "run_cleanup (CloseClient client) b = client_Close client b"

definition end_test :: "bench \<Rightarrow> bench" where
  "end_test b = fold run_cleanup (bn_cleanups b) (b\<lparr>bn_cleanups := []\<rparr>)"

text \<open>
  A test: the helpers it calls in turn, up to the first that does not return, and then its
  cleanups. \<open>parse\<close> is \<open>redis.ParseURL\<close>.
\<close>

datatype test_step =
    UsePostgres "(postgresSettings \<Rightarrow> postgresSettings) list"
  | UseRedis
  | UseAMQP
  | NeedDocker
  | Migrate_step nat "string list"
  | Truncate_step nat "string list"
  | Snapshot_step postgres
  | Restore_step postgres

definition returned :: "'a attempt \<times> bench \<Rightarrow> bool \<times> bench" where
  "returned r = (case r of (Done _, b) \<Rightarrow> (True, b) | (Fatal _, b) \<Rightarrow> (False, b) | (Skipped _, b) \<Rightarrow> (False, b))"

fun test_do :: "(string \<Rightarrow> go_error option) \<Rightarrow> test_step \<Rightarrow> bench \<Rightarrow> bool \<times> bench" where
  "test_do parse (UsePostgres opts) b = returned (SetupPostgres opts b)"
| "test_do parse UseRedis b = returned (SetupRedis parse b)"
| "test_do parse UseAMQP b = returned (SetupAMQP b)"
| "test_do parse NeedDocker b = returned (SkipIfNoDocker b)"
| "test_do parse (Migrate_step p ss) b = returned (ApplyMigrations p ss b)"
| "test_do parse (Truncate_step p ts) b = returned (TruncateTables p ts b)"
| "test_do parse (Snapshot_step pg) b = returned (Snapshot pg b)"
| "test_do parse (Restore_step pg) b = returned (Restore pg b)"

fun test_body :: "(string \<Rightarrow> go_error option) \<Rightarrow> test_step list \<Rightarrow> bench \<Rightarrow> bench" where
  "test_body parse [] b = b"
| "test_body parse (s # ss) b = (case test_do parse s b of (True, b) \<Rightarrow> test_body parse ss b | (False, b) \<Rightarrow> b)"

definition run_test :: "(string \<Rightarrow> go_error option) \<Rightarrow> test_step list \<Rightarrow> bench \<Rightarrow> bench" where
  "run_test parse steps b = end_test (test_body parse steps b)"

section \<open>Lemmas: what is open is covered\<close>

text \<open>What a cleanup gives back, and what nobody can give back any more.\<close>

fun gives_back :: "cleanup \<Rightarrow> res \<Rightarrow> bool" where
  "gives_back (StopPostgres p c) x = (is_pool p x \<or> is_container c x)"
| "gives_back (StopAMQP c) x = is_container c x"
| "gives_back (RemoveContainer c) x = is_container c x"
| "gives_back (CloseClient c) x = is_client c x"

definition stuck :: "bench \<Rightarrow> res \<Rightarrow> bool" where
  "stuck b x \<longleftrightarrow> (\<exists>c\<in>set (bn_refused b). is_container c x)"

text \<open>
  \<open>covered Q b\<close>: everything open satisfies \<open>Q\<close>, is given back by a registered cleanup, or is
  a container whose termination was refused; and no start leaves a container behind.
\<close>

definition clean_starts :: "bench \<Rightarrow> bool" where
  "clean_starts b \<longleftrightarrow> (\<forall>r\<in>set (bn_starts b). \<forall>e. r \<noteq> FailApplied e)"

definition covered :: "(res \<Rightarrow> bool) \<Rightarrow> bench \<Rightarrow> bool" where
  "covered Q b \<longleftrightarrow> clean_starts b
     \<and> (\<forall>x\<in>set (bn_open b). Q x \<or> stuck b x \<or> (\<exists>f\<in>set (bn_cleanups b). gives_back f x))"

lemma covered_cong:
  "bn_open b' = bn_open b \<Longrightarrow> bn_refused b' = bn_refused b \<Longrightarrow> bn_cleanups b' = bn_cleanups b \<Longrightarrow> bn_starts b' = bn_starts b
   \<Longrightarrow> covered Q b' = covered Q b"
  by (simp add: covered_def clean_starts_def stuck_def)

lemma bn_ask_frame:
  assumes "bn_ask b = (r, b')"
  shows "bn_open b' = bn_open b" "bn_refused b' = bn_refused b" "bn_cleanups b' = bn_cleanups b" "bn_starts b' = bn_starts b"
  using assms by (auto simp: bn_ask_def bn_call_def split: list.splits reply.splits)

lemma covered_ask: "bn_ask b = (r, b') \<Longrightarrow> covered Q b' = covered Q b"
  by (intro covered_cong bn_ask_frame)

lemma covered_out [simp]:
  "covered Q (b\<lparr>bn_out := o'\<rparr>) = covered Q b" "covered Q (b\<lparr>bn_sessions := s\<rparr>) = covered Q b"
  "covered Q (b\<lparr>bn_data := d\<rparr>) = covered Q b" "covered Q (b\<lparr>bn_snapshots := n\<rparr>) = covered Q b"
  by (simp_all add: covered_def clean_starts_def stuck_def)

lemma covered_opened:
  "covered Q b \<Longrightarrow> P x \<Longrightarrow> covered (\<lambda>y. Q y \<or> P y) (b\<lparr>bn_open := bn_open b @ [x], bn_fresh := n\<rparr>)"
  by (auto simp: covered_def clean_starts_def stuck_def)

lemma covered_closed:
  "covered (\<lambda>y. Q y \<or> P y) b \<Longrightarrow> covered Q (b\<lparr>bn_open := filter (\<lambda>x. \<not> P x) (bn_open b)\<rparr>)"
  by (auto simp: covered_def clean_starts_def stuck_def)

lemma covered_Run:
  assumes "covered Q b" "container_Run k b = (r, b')"
  shows "case r of Inl _ \<Rightarrow> covered Q b' | Inr c \<Rightarrow> covered (\<lambda>x. Q x \<or> is_container c x) b'"
  using assms by (auto simp: container_Run_def covered_def clean_starts_def stuck_def Let_def split: list.splits reply.splits)

lemma covered_Terminate:
  assumes "covered (\<lambda>x. Q x \<or> is_container c x) b" "container_Terminate c b = (r, b')"
  shows "covered Q b'"
proof -
  obtain rep b1 where call: "bn_call b = (rep, b1)" by force
  then have "covered (\<lambda>x. Q x \<or> is_container c x) b1"
    using assms(1) by (subst covered_cong [of b1 b]) (auto simp: bn_call_def split: list.splits)
  moreover from this have "covered Q (b1\<lparr>bn_refused := c # bn_refused b1\<rparr>)"
    by (auto simp: covered_def clean_starts_def stuck_def)
  ultimately show ?thesis
    using assms(2) call covered_closed by (auto simp: container_Terminate_def Let_def split: reply.splits)
qed

lemma covered_Cleanup: "covered (\<lambda>x. Q x \<or> gives_back f x) b \<Longrightarrow> covered Q (t_Cleanup f b)"
  by (auto simp: covered_def clean_starts_def stuck_def t_Cleanup_def)

lemma covered_stops:
  "covered (\<lambda>x. Q x \<or> is_container c x) b \<Longrightarrow> covered Q (pg_terminate c b)"
  "covered (\<lambda>x. Q x \<or> is_container c x) b \<Longrightarrow> covered Q (amqp_stop c b)"
  "covered (\<lambda>x. Q x \<or> is_pool p x) b \<Longrightarrow> covered Q (pool_Close p b)"
  "covered (\<lambda>x. Q x \<or> is_client p x) b \<Longrightarrow> covered Q (client_Close p b)"
proof -
  show "covered (\<lambda>x. Q x \<or> is_container c x) b \<Longrightarrow> covered Q (pg_terminate c b)"
    by (auto simp: pg_terminate_def dest: covered_Terminate split: prod.split option.split)
  show "covered (\<lambda>x. Q x \<or> is_container c x) b \<Longrightarrow> covered Q (amqp_stop c b)"
    by (auto simp: amqp_stop_def intro: covered_Terminate [OF _ prod.collapse [symmetric]])
  show "covered (\<lambda>x. Q x \<or> is_pool p x) b \<Longrightarrow> covered Q (pool_Close p b)"
    using covered_closed [of Q "is_pool p" "pool_Reset p b"] by (simp add: pool_Close_def pool_Reset_def)
  show "covered (\<lambda>x. Q x \<or> is_client p x) b \<Longrightarrow> covered Q (client_Close p b)"
    unfolding client_Close_def by (rule covered_closed)
qed

lemma covered_weaken: "covered Q b \<Longrightarrow> (\<And>x. Q x \<Longrightarrow> Q' x) \<Longrightarrow> covered Q' b"
  by (auto simp: covered_def)

lemma covered_cleanup: "covered (\<lambda>x. Q x \<or> gives_back f x) b \<Longrightarrow> covered Q (run_cleanup f b)"
proof (cases f)
  case (StopPostgres p c)
  assume "covered (\<lambda>x. Q x \<or> gives_back f x) b"
  then have "covered (\<lambda>x. (Q x \<or> is_container c x) \<or> is_pool p x) b"
    by (rule covered_weaken) (auto simp: StopPostgres)
  then show ?thesis by (simp add: StopPostgres pg_stop_def covered_stops)
qed (auto simp: covered_stops split: prod.split option.split dest: covered_Terminate)

section \<open>Lemmas: the helpers\<close>

lemma covered_StartPostgres:
  assumes "covered Q b" "StartPostgres opts b = (r, b')"
  shows "case r of Inl _ \<Rightarrow> covered Q b' | Inr pg \<Rightarrow> covered (\<lambda>x. Q x \<or> gives_back (StopPostgres (pgc_Pool pg) (pgc_container pg)) x) b'"
proof -
  define k where "k = (let s = fold (\<lambda>opt s. opt s) opts \<lparr>pgs_image = PostgresImage, pgs_database = ''dizen_test''\<rparr>
    in PostgresContainer (pgs_image s) (pgs_database s))"
  obtain r1 b1 where run: "container_Run k b = (r1, b1)" by force
  note start = assms(2) [unfolded StartPostgres_def Let_def, folded k_def [unfolded Let_def], unfolded run]
  show ?thesis
  proof (cases r1)
    case (Inl e)
    with start covered_Run [OF assms(1) run] show ?thesis by auto
  next
    case (Inr c)
    then have b1: "covered (\<lambda>x. Q x \<or> is_container c x) b1" using covered_Run [OF assms(1) run] by simp
    obtain r2 b2 where ask: "bn_ask b1 = (r2, b2)" by force
    have b2: "covered (\<lambda>x. Q x \<or> is_container c x) b2" using b1 covered_ask [OF ask] by simp
    obtain r3 b3 where ask3: "bn_ask b2 = (r3, b3)" by force
    have b3: "covered (\<lambda>x. Q x \<or> is_container c x) b3" using b2 covered_ask [OF ask3] by simp
    let ?p = "bn_fresh b3" and ?url = "bn_url b2 c"
    let ?b4 = "b3\<lparr>bn_open := bn_open b3 @ [Pool ?p ?url], bn_fresh := ?p + 1\<rparr>"
    have b4: "covered (\<lambda>x. (Q x \<or> is_container c x) \<or> is_pool ?p x) ?b4" using covered_opened [OF b3] by simp
    obtain r5 b5 where ask5: "bn_ask ?b4 = (r5, b5)" by force
    have b5: "covered (\<lambda>x. (Q x \<or> is_container c x) \<or> is_pool ?p x) b5" using b4 covered_ask [OF ask5] by simp
    then have "covered Q (pg_terminate c (pool_Close ?p b5))" by (intro covered_stops)
    moreover have "covered (\<lambda>x. Q x \<or> gives_back (StopPostgres ?p c) x) b5" by (rule covered_weaken [OF b5]) auto
    ultimately show ?thesis
      using start Inr ask ask3 ask5 covered_stops(1) [OF b2] covered_stops(1) [OF b3]
      by (auto simp: ConnectionString_def pool_New_def pool_Ping_def split: option.splits)
  qed
qed

lemma covered_SetupPostgres: "covered Q b \<Longrightarrow> covered Q (snd (SetupPostgres opts b))"
  using covered_StartPostgres [of Q b opts]
  by (auto simp: SetupPostgres_def intro: covered_Cleanup split: prod.split sum.split)

lemma covered_SetupAMQP: "covered Q b \<Longrightarrow> covered Q (snd (SetupAMQP b))"
proof -
  assume b: "covered Q b"
  obtain r1 b1 where run: "container_Run (RabbitContainer RabbitMQImage) b = (r1, b1)" by force
  note started = covered_Run [OF b run]
  show ?thesis
  proof (cases r1)
    case (Inl e)
    with run started show ?thesis by (simp add: SetupAMQP_def StartAMQP_def)
  next
    case (Inr c)
    obtain r2 b2 where ask: "bn_ask b1 = (r2, b2)" by force
    with started Inr have b2: "covered (\<lambda>x. Q x \<or> is_container c x) b2" by (simp add: covered_ask)
    then show ?thesis
      using run Inr ask covered_stops(2) [OF b2] covered_Cleanup [of Q "StopAMQP c" b2]
      by (auto simp: SetupAMQP_def StartAMQP_def ConnectionString_def split: option.split)
  qed
qed

lemma covered_SetupRedis: "covered Q b \<Longrightarrow> covered Q (snd (SetupRedis parse b))"
proof -
  assume b: "covered Q b"
  obtain r1 b1 where run: "container_Run (RedisContainer RedisImage) b = (r1, b1)" by force
  note started = covered_Run [OF b run]
  show ?thesis
  proof (cases r1)
    case (Inl e)
    with run started show ?thesis by (simp add: SetupRedis_def)
  next
    case (Inr c)
    then have "covered Q (registerTerminate c b1)"
      using started by (auto simp: registerTerminate_def intro!: covered_Cleanup)
    moreover obtain r2 b2 where ask: "bn_ask (registerTerminate c b1) = (r2, b2)" by force
    ultimately have b2: "covered Q b2" using covered_ask by blast
    let ?b3 = "b2\<lparr>bn_open := bn_open b2 @ [Client (bn_fresh b2) (bn_url b2 c)], bn_fresh := bn_fresh b2 + 1\<rparr>"
    have "covered (\<lambda>x. Q x \<or> gives_back (CloseClient (bn_fresh b2)) x) ?b3"
      using covered_opened [OF b2, of "is_client (bn_fresh b2)"] by simp
    then have b3: "covered Q (t_Cleanup (CloseClient (bn_fresh b2)) ?b3)" by (rule covered_Cleanup)
    obtain r4 b4 where ask4: "bn_ask (t_Cleanup (CloseClient (bn_fresh b2)) ?b3) = (r4, b4)" by force
    have "covered Q b4" using b3 covered_ask [OF ask4] by simp
    then show ?thesis
      using run Inr ask b2 ask4
      by (auto simp: SetupRedis_def ConnectionString_def client_New_def split: option.split)
  qed
qed

lemma covered_providers:
  "covered Q b \<Longrightarrow> covered Q (snd (SkipIfNoDocker b))"
  "covered Q b \<Longrightarrow> covered Q (snd (DockerAvailable b))"
proof -
  assume b: "covered Q b"
  obtain r1 b1 where ask: "bn_ask b = (r1, b1)" by force
  let ?p = "bn_fresh b1" and ?b2 = "b1\<lparr>bn_open := bn_open b1 @ [Provider (bn_fresh b1)], bn_fresh := bn_fresh b1 + 1\<rparr>"
  have b1: "covered Q b1" using b covered_ask [OF ask] by simp
  obtain r3 b3 where ask3: "bn_ask ?b2 = (r3, b3)" by force
  have "covered (\<lambda>x. Q x \<or> is_provider ?p x) b3"
    using covered_opened [OF b1, of "is_provider ?p" "Provider ?p"] covered_ask [OF ask3] by simp
  then have b3: "covered Q (provider_Close ?p b3)" unfolding provider_Close_def by (rule covered_closed)
  show "covered Q (snd (SkipIfNoDocker b))"
    using ask ask3 b1 b3 by (auto simp: SkipIfNoDocker_def NewDockerProvider_def split: option.split)
  show "covered Q (snd (DockerAvailable b))"
    using ask ask3 b1 b3 by (auto simp: DockerAvailable_def NewDockerProvider_def split: option.split)
qed

lemma covered_Exec: "pool_Exec p sql b = (r, b') \<Longrightarrow> covered Q b' = covered Q b"
  by (rule covered_cong) (auto simp: pool_Exec_def bn_call_def Let_def split: list.splits reply.splits)

lemma covered_loops:
  "covered Q (snd (apply_loop p i ss b)) = covered Q b" "covered Q (snd (TruncateTables p ts b)) = covered Q b"
proof -
  show "covered Q (snd (apply_loop p i ss b)) = covered Q b"
    by (induction ss arbitrary: i b) (auto dest: covered_Exec split: prod.split option.split)
  show "covered Q (snd (TruncateTables p ts b)) = covered Q b"
    by (induction ts arbitrary: b) (auto dest: covered_Exec split: prod.split option.split)
qed

lemma covered_snapshots:
  "covered Q (snd (Snapshot pg b)) = covered Q b" "covered Q (snd (Restore pg b)) = covered Q b"
proof -
  obtain r b1 where ask: "bn_ask (pool_Reset (pgc_Pool pg) b) = (r, b1)" by force
  have "covered Q b1 = covered Q b" using covered_ask [OF ask] by (simp add: pool_Reset_def)
  then show "covered Q (snd (Snapshot pg b)) = covered Q b" "covered Q (snd (Restore pg b)) = covered Q b"
    using ask by (auto simp: Snapshot_def SnapshotContext_def Restore_def RestoreContext_def container_Snapshot_def
        container_Restore_def fatal_on_def split: option.split)
qed

lemma snd_returned: "snd (returned r) = snd r"
  by (auto simp: returned_def split: prod.split attempt.split)

lemma covered_step: "covered Q b \<Longrightarrow> covered Q (snd (test_do parse s b))"
  by (cases s) (simp_all add: snd_returned covered_SetupPostgres covered_SetupRedis covered_SetupAMQP covered_providers
      covered_loops covered_snapshots ApplyMigrations_def)

lemma covered_body: "covered Q b \<Longrightarrow> covered Q (test_body parse ss b)"
proof (induction ss arbitrary: b)
  case (Cons s ss)
  then have "covered Q (snd (test_do parse s b))" by (intro covered_step)
  with Cons.IH show ?case by (auto split: prod.split bool.split)
qed simp

lemma Terminate_cleanups: "container_Terminate c b = (r, b') \<Longrightarrow> bn_cleanups b' = bn_cleanups b"
  by (auto simp: container_Terminate_def bn_call_def Let_def split: list.splits reply.splits)

lemma run_cleanup_cleanups: "bn_cleanups (run_cleanup f b) = bn_cleanups b"
proof -
  have pg: "bn_cleanups (pg_terminate c b) = bn_cleanups b" for c b
    by (auto simp: pg_terminate_def dest: Terminate_cleanups split: prod.split option.split)
  have "bn_cleanups (pool_Close p b) = bn_cleanups b" "bn_cleanups (client_Close p b) = bn_cleanups b" for p b
    by (simp_all add: pool_Close_def pool_Reset_def client_Close_def)
  with pg show ?thesis
    by (cases f) (auto simp: pg_stop_def amqp_stop_def Terminate_cleanups [OF prod.collapse [symmetric]]
        dest: Terminate_cleanups split: prod.split option.split)
qed

lemma covered_end:
  "covered (\<lambda>x. Q x \<or> (\<exists>f\<in>set fs. gives_back f x)) b \<Longrightarrow> covered Q (fold run_cleanup fs b)"
proof (induction fs arbitrary: b)
  case (Cons f fs)
  have "covered (\<lambda>x. (Q x \<or> (\<exists>f\<in>set fs. gives_back f x)) \<or> gives_back f x) b"
    by (rule covered_weaken [OF Cons.prems]) auto
  then show ?case using Cons.IH covered_cleanup by fastforce
qed simp

lemma fold_cleanups: "bn_cleanups (fold run_cleanup fs b) = bn_cleanups b"
  by (induction fs arbitrary: b) (simp_all add: run_cleanup_cleanups)

section \<open>Properties\<close>

text \<open>
  C27. A test leaks nothing, however it ends: after its cleanups every container, pool, client and
  provider it opened has been given back, whichever call of the libraries failed on the way and
  whether the test ran through, failed or was skipped; except a container that Docker refused to
  remove. This needs that a start that fails leaves no container (\<open>clean_starts\<close>).
\<close>

theorem test_leaks_nothing:
  assumes "bn_cleanups b = []" "clean_starts b"
  shows "\<forall>x\<in>set (bn_open (run_test parse steps b)). x \<in> set (bn_open b) \<or> (\<exists>c\<in>set (bn_refused (run_test parse steps b)). is_container c x)"
proof -
  let ?Q = "\<lambda>x. x \<in> set (bn_open b)" and ?b1 = "test_body parse steps b"
  have "covered ?Q b" using assms by (simp add: covered_def)
  then have "covered ?Q ?b1" by (rule covered_body)
  then have "covered (\<lambda>x. ?Q x \<or> (\<exists>f\<in>set (bn_cleanups ?b1). gives_back f x)) (?b1\<lparr>bn_cleanups := []\<rparr>)"
    by (auto simp: covered_def clean_starts_def stuck_def)
  then have "covered ?Q (run_test parse steps b)" unfolding run_test_def end_test_def by (rule covered_end)
  moreover have "bn_cleanups (run_test parse steps b) = []" by (simp add: run_test_def end_test_def fold_cleanups)
  ultimately show ?thesis by (auto simp: covered_def stuck_def)
qed

section \<open>Lemmas: snapshots\<close>

lemma bn_ask_quiet: "bn_script b = [] \<Longrightarrow> bn_ask b = (None, b)"
  by (simp add: bn_ask_def bn_call_def)

lemma data_of_update [simp]: "data_of url (b\<lparr>bn_data := AList.update url d (bn_data b)\<rparr>) = d"
  by (simp add: data_of_def update_conv)

text \<open>The database is used through its own pool only.\<close>

definition sole_user :: "postgres \<Rightarrow> bench \<Rightarrow> bool" where
  "sole_user pg b \<longleftrightarrow> pgc_URL pg = bn_url b (pgc_container pg) \<and> pool_url (pgc_Pool pg) (bn_open b) = pgc_URL pg
     \<and> (\<forall>p. Pool p (pgc_URL pg) \<in> set (bn_open b) \<longrightarrow> p \<in> set (bn_sessions b) \<longrightarrow> p = pgc_Pool pg)"

lemma sole_user_reset: "sole_user pg b \<Longrightarrow> \<not> in_use (pgc_container pg) (pool_Reset (pgc_Pool pg) b)"
  by (auto simp: sole_user_def in_use_def pool_Reset_def list_ex_iff split: res.splits)

lemma apply_loop_quiet:
  assumes "bn_script b = []" "pool_url p (bn_open b) = url"
  shows "\<exists>b'. apply_loop p i ss b = (Done (), b') \<and> data_of url b' = data_of url b @ ss
     \<and> bn_script b' = [] \<and> bn_open b' = bn_open b \<and> bn_url b' = bn_url b \<and> bn_snapshots b' = bn_snapshots b
     \<and> set (bn_sessions b') \<subseteq> insert p (set (bn_sessions b))"
  using assms
proof (induction ss arbitrary: i b)
  case (Cons s ss)
  let ?b = "b\<lparr>bn_data := AList.update url (data_of url b @ [s]) (bn_data b), bn_sessions := p # bn_sessions b\<rparr>"
  have exec: "pool_Exec p s b = (None, ?b)" using Cons.prems by (simp add: pool_Exec_def bn_call_def Let_def)
  have "data_of url ?b = data_of url b @ [s]" by (simp add: data_of_def update_conv)
  with Cons.IH [of ?b "i + 1"] Cons.prems exec show ?case by auto
qed auto

text \<open>
  Restoring undoes what a test did: when the calls answer and nobody else uses the database, a
  snapshot can be taken although the pool holds a connection, and after any statements
  \<open>Restore\<close> brings back exactly the contents of the moment of the snapshot.
\<close>

theorem restore_undoes_statements:
  assumes "bn_script b = []" "sole_user pg b"
  shows "\<exists>b1 b2 b3. Snapshot pg b = (Done (), b1) \<and> ApplyMigrations (pgc_Pool pg) ss b1 = (Done (), b2)
     \<and> data_of (pgc_URL pg) b2 = data_of (pgc_URL pg) b @ ss
     \<and> Restore pg b2 = (Done (), b3) \<and> data_of (pgc_URL pg) b3 = data_of (pgc_URL pg) b"
proof -
  let ?c = "pgc_container pg" and ?p = "pgc_Pool pg" and ?url = "pgc_URL pg"
  let ?b1 = "(pool_Reset ?p b)\<lparr>bn_snapshots := AList.update ?c (data_of ?url b) (bn_snapshots b)\<rparr>"
  have url: "bn_url b ?c = ?url" using assms(2) by (simp add: sole_user_def)
  have snap: "Snapshot pg b = (Done (), ?b1)"
    using sole_user_reset [OF assms(2)] assms(1) url
    by (simp add: Snapshot_def SnapshotContext_def container_Snapshot_def bn_ask_quiet fatal_on_def pool_Reset_def data_of_def)
  have "bn_script ?b1 = []" "pool_url ?p (bn_open ?b1) = ?url"
    using assms by (simp_all add: pool_Reset_def sole_user_def)
  from apply_loop_quiet [OF this, of 0 ss] obtain b2 where b2: "apply_loop ?p 0 ss ?b1 = (Done (), b2)"
    "data_of ?url b2 = data_of ?url ?b1 @ ss" "bn_script b2 = []" "bn_open b2 = bn_open b" "bn_url b2 = bn_url b"
    "bn_snapshots b2 = bn_snapshots ?b1" "set (bn_sessions b2) \<subseteq> insert ?p (set (bn_sessions ?b1))"
    by (auto simp: pool_Reset_def)
  have "sole_user pg b2"
    using assms(2) b2(4,5,7) by (auto simp: sole_user_def pool_Reset_def)
  then have free: "\<not> in_use ?c (pool_Reset ?p b2)" by (rule sole_user_reset)
  let ?b3 = "(pool_Reset ?p b2)\<lparr>bn_data := AList.update ?url (data_of ?url b) (bn_data b2)\<rparr>"
  have "Restore pg b2 = (Done (), ?b3)"
    using free b2(3,5,6) url
    by (simp add: Restore_def RestoreContext_def container_Restore_def bn_ask_quiet fatal_on_def pool_Reset_def update_conv)
  moreover have "data_of ?url ?b3 = data_of ?url b" by (simp add: data_of_def update_conv)
  moreover have "data_of ?url ?b1 = data_of ?url b" by (simp add: data_of_def pool_Reset_def)
  ultimately show ?thesis using snap b2(1,2) by (auto simp: ApplyMigrations_def)
qed

section \<open>A concrete bench\<close>

definition demo_bench :: "reply list \<Rightarrow> reply list \<Rightarrow> bench" where
  "demo_bench starts script = \<lparr>bn_open = [], bn_fresh = 0, bn_refused = [], bn_sessions = [], bn_url = (\<lambda>c. ''url'' @ Itoa (int c)),
     bn_data = [], bn_snapshots = [], bn_cleanups = [], bn_out = [], bn_starts = starts, bn_script = script\<rparr>"

definition demo_steps :: "test_step list" where
  "demo_steps = [NeedDocker, UsePostgres [WithPostGIS, WithDatabase ''tours''], UseRedis, UseAMQP]"

text \<open>The URL of Redis does not parse: the test fails with Postgres and Redis running and leaves neither.\<close>

theorem test_leaks_nothing_witness:
  "bn_open (test_body (\<lambda>u. Some ctx_DeadlineExceeded) demo_steps (demo_bench [] [])) =
     [Container 1 (PostgresContainer PostGISImage ''tours''), Pool 2 ''url1'', Container 3 (RedisContainer RedisImage)]
   \<and> bn_open (run_test (\<lambda>u. Some ctx_DeadlineExceeded) demo_steps (demo_bench [] [])) = []"
proof -
  let ?parse = "\<lambda>u. Some ctx_DeadlineExceeded"
  have body: "bn_open (test_body ?parse demo_steps (demo_bench [] [])) =
     [Container 1 (PostgresContainer PostGISImage ''tours''), Pool 2 ''url1'', Container 3 (RedisContainer RedisImage)]" by code_simp
  have pre: "bn_cleanups (demo_bench [] []) = []" "clean_starts (demo_bench [] [])" "bn_open (demo_bench [] []) = []"
    by (simp_all add: demo_bench_def clean_starts_def)
  have "bn_refused (run_test ?parse demo_steps (demo_bench [] [])) = []" by code_simp
  with test_leaks_nothing [OF pre(1,2), of ?parse demo_steps] pre(3) body show ?thesis by (simp del: set_empty add: set_empty [symmetric])
qed

text \<open>A start that fails after the container was created leaves it behind: no cleanup knows of it.\<close>

lemma failed_start_leaves_container:
  "bn_open (run_test (\<lambda>u. None) [UseRedis] (demo_bench [FailApplied ctx_DeadlineExceeded] [])) = [Container 0 (RedisContainer RedisImage)]"
  by code_simp

definition demo_postgres :: postgres where
  "demo_postgres = \<lparr>pgc_URL = ''url0'', pgc_Pool = 1, pgc_container = 0\<rparr>"

theorem restore_undoes_statements_witness:
  "fst (SetupPostgres [] (demo_bench [] [])) = Done demo_postgres
   \<and> (\<exists>b1 b2 b3. Snapshot demo_postgres (snd (SetupPostgres [] (demo_bench [] []))) = (Done (), b1)
        \<and> ApplyMigrations 1 [''insert''] b1 = (Done (), b2) \<and> Restore demo_postgres b2 = (Done (), b3) \<and> data_of ''url0'' b3 = [])"
proof -
  let ?b = "snd (SetupPostgres [] (demo_bench [] []))"
  have "fst (SetupPostgres [] (demo_bench [] [])) = Done demo_postgres" "bn_script ?b = []" "data_of ''url0'' ?b = []" by code_simp+
  moreover have "bn_open ?b = [Container 0 (PostgresContainer PostgresImage ''dizen_test''), Pool 1 ''url0'']" "bn_sessions ?b = [1]" "bn_url ?b 0 = ''url0''" by code_simp+
  then have "sole_user demo_postgres ?b" by (simp add: sole_user_def demo_postgres_def)
  ultimately show ?thesis using restore_undoes_statements [of ?b demo_postgres "[''insert'']"] by (auto simp: demo_postgres_def)
qed

end
