(* ===== verification/Spec2Isabelle.thy ===== *)
theory Spec2Isabelle
  imports Outbox_Service Amqp_Consumer Amqp_Shutdown Services Commitcheck Apicheck Tracing Event_Flow Testutils
begin

text \<open>
  A verification library for the backend of Dizen (\<open>src/\<close>, Go): the shared packages under
  \<open>pkg/\<close>, the five services under \<open>services/\<close> and the two checkers under \<open>tools/\<close>.
  This theory imports all others and holds the properties that span components.

  \<^bold>\<open>The program.\<close> A service is a process that reads its configuration
  (\<open>pkg/config\<close>), sets up reporting, logging, tracing and metrics
  (\<open>pkg/observability\<close>, \<open>pkg/logger\<close>), connects to Postgres (\<open>pkg/database\<close>), Redis
  (\<open>pkg/cache\<close>) and RabbitMQ (\<open>pkg/amqp\<close>), builds a gRPC server with a chain of
  interceptors (\<open>pkg/grpcserver\<close>) and an HTTP server with a REST gateway and probes
  (\<open>pkg/httpserver\<close>, \<open>pkg/health\<close>), and hands everything to a runner that starts and
  stops it (\<open>pkg/bootstrap\<close>). Errors of the business code reach clients through
  \<open>pkg/errors\<close>; tokens are issued and verified by \<open>pkg/jwt\<close>. Services talk through events:
  a transaction writes an event to the outbox table (\<open>pkg/outbox\<close>, \<open>internal/repository\<close>), a
  worker publishes it with confirms, a consumer of another service handles it with retries and
  a dead-letter queue.

  \<^bold>\<open>The theories and what they model.\<close>
  \<^item> \<open>Go_Prelude\<close>: what the components share. Fixed-width integers as \<open>int\<close> with the
    wrap-around written out, durations, strings as bytes, error values with \<open>errors.Is\<close> and
    \<open>errors.As\<close>, the doubling back-off, and the collections of simplification facts.
  \<^item> \<open>Dizen_Errors\<close>, \<open>Logging\<close>, \<open>Config\<close>, \<open>Metrics\<close>, \<open>Tracing\<close>, \<open>Sentry\<close>: \<open>pkg/errors\<close>,
    \<open>pkg/logger\<close>, \<open>pkg/config\<close> with \<open>pkg/version\<close>, and the three packages of
    \<open>pkg/observability\<close>. \<open>Go_Regexp\<close> is the matcher \<open>Sentry\<close>, \<open>Commitcheck\<close> and
    \<open>Apicheck\<close> use, with the languages of patterns as its specification.
  \<^item> \<open>Outbox\<close>: \<open>pkg/outbox\<close> over records of functions for \<open>Store\<close>, \<open>Inserter\<close> and
    \<open>Publisher\<close>. \<open>Outbox_Repository\<close>: the table with the SQL of the generated queries, the
    repository and its adapter. \<open>Outbox_Service\<close>: the worker as \<open>main.go\<close> builds it, over
    that table and an AMQP publisher.
  \<^item> \<open>Database\<close>: \<open>pkg/database\<close>. Connecting with retries, migrations, \<open>WithTx\<close> over a
    database with a durable and a working state.
  \<^item> \<open>Amqp_Policy\<close>, \<open>Amqp_Broker\<close>, \<open>Amqp_Publisher\<close>, \<open>Amqp_Consumer\<close>, \<open>Amqp_Shutdown\<close>:
    \<open>pkg/amqp\<close>. The retry decision and its headers; connections, channels and topology on a
    broker state; publishing with confirms; the consumer's handling of a delivery; and the
    shutdown of the consumer as a step relation on its goroutines.
  \<^item> \<open>Event_Flow\<close>: the worker of one service, the topic exchange, and the consumer of
    another, with arrivals and handling interleaved.
  \<^item> \<open>Cache\<close>, \<open>Health\<close>, \<open>Bootstrap\<close>, \<open>Grpc_Interceptors\<close>, \<open>Grpc_Server\<close>, \<open>Http_Server\<close>,
    \<open>Jwt\<close>, \<open>Jwt_Keystore\<close>: the packages of these names; \<open>Jwt_Keystore\<close> has the contract
    of the key set and \<open>cmd/keygen\<close>.
  \<^item> \<open>Identity\<close>: the identity service, business layer and \<open>cmd/server/main.go\<close>, and the
    readiness checks; \<open>open_dependencies\<close>, \<open>serve\<close> and \<open>stoppers_of\<close> open, run and stop the
    components of the other theories on one state of the process. \<open>Services\<close>: admin,
    booking, tours and mail-dispatcher, whose files are those of identity but for the gateway,
    the RPCs and the name.
  \<^item> \<open>Commitcheck\<close>, \<open>Apicheck\<close>: \<open>tools/commitcheck\<close> and \<open>tools/apicheck\<close>.
  \<^item> \<open>Testutils\<close>: \<open>pkg/testutils\<close>, the helpers of the integration tests, on a bench of
    containers, pools, clients and registered cleanups with a script of the answers of Docker.

  \<^bold>\<open>How the code is read.\<close> A struct is a \<open>record\<close>, a closed set of constants or
  cases a \<open>datatype\<close>, a method a function that takes the state and returns it changed, in
  the order of the source with every early return. An error result is an \<open>option\<close> or the
  left side of a sum, a panic a value of its own. What a call logs is part of its result in the
  consumer, the interceptors, \<open>pkg/errors\<close>, \<open>pkg/database\<close> and the processes; the log lines of
  the worker, the runner and \<open>Connection.Close\<close>, which no caller sees, are left out. A server (Postgres, the broker) is a state and a
  script of the answers it gives, so that a property quantifies over every course of failures:
  a statement may fail without effect, fail although it took effect, or succeed. A frame the consumer
  sends without waiting for an answer (acknowledgements, and its publishes to the retry and
  dead-letter queues) returns nil as soon as it is written: \<open>cw_link\<close> says after how many frames the
  channel is lost, and \<open>cw_handled\<close> is the trace of the handler's calls with their results. A
  confirmation of the broker is an acceptance, not a routing, and may come late (\<open>fate\<close>). A recovered
  panic carries what \<open>encoding/json\<close> makes of its value (\<open>panic_value\<close>). Concurrency is
  an argument (the order in which probes finish, in which components end), an explicit
  interleaving (\<open>Event_Flow\<close>) or a step relation (\<open>Amqp_Shutdown\<close>). Libraries the
  repository only calls are records of functions, and what the code relies on of them is stated
  once and named (\<open>status_lib_doc\<close>, \<open>redis_laws\<close>, \<open>codec_doc\<close>, \<open>jwt_lib_doc\<close>);
  every property with such a hypothesis has a witness on a concrete instance.

  \<^bold>\<open>The contracts between components\<close> are locales, interpreted on the model:
  \<open>outbox_parts\<close> and its extension \<open>outbox_loop\<close> (what the worker asks of its store,
  its publisher and the wait; interpreted on the repository and the AMQP publisher in
  \<open>Outbox_Service\<close>), \<open>tx_runner\<close> (what the repositories ask of a transaction;
  interpreted on \<open>WithTx\<close>), \<open>key_store\<close> (what issuer and verifier ask of the keys;
  interpreted on \<open>KeySet\<close>, which is also shown to refine a map with an active key) and
  \<open>custodian\<close> (what the path of an event asks of broker and consumer together; interpreted
  on both in \<open>Event_Flow\<close>).

  \<^bold>\<open>What is shown.\<close>
  \<^item> Events: an event is not lost between the table of one service and the handler of another
    (\<open>event_never_lost\<close>, \<open>backlog_reaches_consumer\<close> below), from the transaction that
    registers a user on (\<open>registered_user_reaches_consumer\<close>); the worker marks only what the
    broker has accepted, provided no confirmation comes after its call has given up, drains its
    backlog in order, and backs off; a failed delivery stays unacknowledged or goes to the retry or
    the dead-letter queue, and to no other, and a message that keeps failing ends in the dead-letter
    queue; the shutdown of a consumer takes boundedly many steps and ends with \<open>Consume\<close> returning,
    unless its drain gave up while deliveries were still coming, in which case it can block until
    the connection is closed or lost (\<open>drain_timeout_does_not_bound_stop\<close>).
  \<^item> Storage: transactions are atomic; a claim returns what it should; connecting is bounded.
    The cache returns a value until it expires, unless the read fails, and forgets the keys under a
    prefix without glob characters.
  \<^item> Requests: an unexpected error tells the client nothing; a panic is contained and
    logged with what the JSON encoder makes of its value, but not accounted for: the gauge of calls
    in flight stays up and no access line is written; the handler runs exactly if the request is admitted; verified tokens are
    genuine, issued ones verify, and survive the rotation of keys.
  \<^item> Processes: loading the configuration is all or nothing, with an error that names every field
    the validator rejects, or what the parser reported before it; readiness follows the critical
    dependencies; whatever ends a run, everything started is stopped in reverse order and every
    connection, channel and pool is given back; the process ends once the components have returned
    (\<open>ServeDraining\<close> while one has not). A test leaves no container behind, unless the
    container library fails after creating one (the hypothesis \<open>clean_starts\<close>).
  \<^item> Reports and tools: no event leaves for the error tracker with the secrets the patterns
    describe; the two checkers accept exactly what their rules say.

  \<^bold>\<open>Bounds and fuel.\<close> \<open>Outbox.Run\<close> takes the number of rounds as fuel: the safety
  property holds for every fuel with which it returns, and one more than the number of due
  events is enough to drain the table. The scan loop of the cache ends within the number of
  round trips the server's cursor takes. \<open>Connect\<close>, \<open>Healthcheck\<close> and the PEM loop recurse
  on their own counters or input. The measure \<open>shut_rank\<close> bounds the steps of a
  shutdown. Back-off is computed in int64 with its overflow; the closed form is shown for the
  delays a configuration can hold.

  \<^bold>\<open>What is not modelled.\<close> \<open>pkg/contract\<close> holds tests only;
  \<open>pkg/genproto\<close> and the repository mocks are generated; \<open>internal/db/migrations\<close>
  embeds SQL files, whose outcome is an argument; \<open>gen/\<close>, \<open>proto/\<close>, \<open>api-client/\<close>,
  \<open>deploy/\<close> and the scripts hold no Go code. The files of \<open>internal/repository\<close>,
  \<open>internal/db\<close> and \<open>internal/config\<close> exist once per service with the same text and are
  modelled once, from identity. Strings are bytes: \<open>strings.ToLower\<close>, \<open>TrimSpace\<close>
  and the patterns are exact on ASCII. Sockets, signals, clocks and the Go runtime appear as the
  answers they give.
\<close>

section \<open>Properties across components\<close>

text \<open>
  C1. No event is lost between two services. A worker runs over the outbox table of one service, with
  any failures of the database and any answers of the broker, refusals and losses of the channel
  included, except that no confirmation arrives after its \<open>Publish\<close> has given up
  (\<open>confirms_in_time\<close>; \<open>stale_confirmation_loses_event\<close> shows what happens otherwise). A consumer of
  another service has started with a queue whose binding matches the event's routing key; arrivals of
  messages and the consumer's work interleave in any order, with any refusals, failures and losses of
  the channel. Then the event is still in the table as it was recorded; and it is not yet marked as
  published, or the handler was called on a message with its body and accepted it, or the broker
  holds a copy of it in a queue or unacknowledged. Events of equal bodies do not stand in for each
  other: the messages of a body that the broker took for this queue are at most the calls of the handler that
  accepted the body and the copies the broker holds, together.
\<close>

theorem event_never_lost:
  assumes "pg_wf (sv_db w)" "confirms_in_time (sv_pub w)"
    and "\<forall>i. pg_marked (sv_db w) i \<longrightarrow> (\<exists>m. pg_content (sv_db w) i = Some m \<and> m \<in> svc_taken cfg w)"
    and "Run n (svc_worker cfg ctx wcfg) svc_env w = Some w'"
    and "NewConsumer uuid cn spec log b0 = (Inr c, b)" "qs_Name spec \<noteq> ''''" "tags_fresh b"
    and "am_Exchange cfg \<noteq> ''''" "am_Exchange (cn_cfg cn) = am_Exchange cfg"
    and "pg_content (sv_db w) i = Some (key, body)" "pattern \<in> set (qs_RoutingKeys spec)" "topic_matches pattern key"
    and "arrivals steps = ps_taken (sv_pub w')"
    and "cw = flow c f2i now ctx' handler steps \<lparr>cw_broker = b, cw_log = [], cw_link = link, cw_handled = []\<rparr>"
  shows "pg_content (sv_db w') i = Some (key, body)
     \<and> (\<not> pg_marked (sv_db w') i \<or> (\<exists>m. (m, None) \<in> set (cw_handled cw) \<and> msg_Body m = body)
        \<or> 1 \<le> copies body (cw_broker cw))
     \<and> length (filter (\<lambda>m. reaches c m \<and> pb_Body m = body) (ps_taken (sv_pub w')))
         \<le> accepted body (cw_handled cw) + copies body (cw_broker cw)"
proof -
  have "svc_outbox.safe cfg w"
    using assms(1-3) by (simp add: svc_outbox.safe_def svc_defs)
  from svc_outbox.Run_safe [OF _ _ this assms(4), of ctx]
  have run: "pg_content (sv_db w') = pg_content (sv_db w)"
    and marked: "pg_marked (sv_db w') i \<Longrightarrow> (key, body) \<in> svc_taken cfg w'"
    using assms(10) by (auto simp: svc_outbox.safe_def svc_marked_def svc_content_def)
  note c = NewConsumer_fields [OF assms(5)] started_serving [OF assms(5-7)]
  have all: "length (filter (\<lambda>m. reaches c m \<and> pb_Body m = body) (ps_taken (sv_pub w')))
      \<le> accepted body (cw_handled cw) + copies body (cw_broker cw)"
    unfolding assms(13) [symmetric] by (rule flow_keeps [OF _ _ assms(14)]) (simp_all add: c(2))
  have "0 < accepted body (cw_handled cw) \<or> 1 \<le> copies body (cw_broker cw)" if mk: "pg_marked (sv_db w') i"
  proof -
    obtain m where m: "m \<in> set (ps_taken (sv_pub w'))" "pb_Exchange m = am_Exchange cfg" "pb_Key m = key" "pb_Body m = body"
      using marked [OF mk] by (auto simp: svc_taken_def)
    then have "reaches c m" using assms(8,9,11,12) c(1) by (auto simp: reaches_def)
    with m(1,4) have "filter (\<lambda>m. reaches c m \<and> pb_Body m = body) (ps_taken (sv_pub w')) \<noteq> []" by (auto simp: filter_empty_conv)
    with all show ?thesis by (cases "accepted body (cw_handled cw)") (auto simp: length_greater_0_conv [symmetric] simp del: length_greater_0_conv)
  qed
  moreover have "pg_content (sv_db w') i = Some (key, body)" by (simp add: run assms(10))
  ultimately show ?thesis using all unfolding accepted_pos by blast
qed

text \<open>
  C2. The backlog reaches the consumer: when everything answers, the worker drains the table,
  the queue of a consumer receives exactly the due events one of its bindings matches, in
  insertion order, each once, behind what was waiting in it; and a consumer whose handler accepts
  those messages (no others need be accepted) empties the queue with as many deliveries, the
  handler being called on each of them once and in order, leaving every other queue as it was and nothing
  new unacknowledged.
\<close>

theorem backlog_reaches_consumer:
  fixes c :: consumer and b :: broker
  defines "q \<equiv> qs_Name (co_spec c)"
  assumes "healthy w" "sv_cancel_at w = Some t" "t \<le> pg_now (sv_db w) + wc_PollInterval (wc_withDefaults wcfg)"
    and "length (claimable (sv_db w)) < n" "am_Exchange cfg \<noteq> ''''" "serving c b" "br_script b = []"
  shows "\<exists>w' new es. Run n (svc_worker cfg ctx wcfg) svc_env w = Some w' \<and> ps_taken (sv_pub w') = ps_taken (sv_pub w) @ new
     \<and> msgs (fold route new b) q = msgs b q @ es
     \<and> map (\<lambda>m. (msg_RoutingKey m, msg_Body m)) es = map (\<lambda>r. (row_RoutingKey r, row_Payload r))
         (filter (\<lambda>r. q \<in> set (bound_queues b (am_Exchange cfg) (row_RoutingKey r)))
           (sort_key row_ID (filter (row_due (sv_db w)) (pg_rows (sv_db w)))))
     \<and> ((\<forall>ctx m. m \<in> set (msgs b q @ es) \<longrightarrow> handler ctx m = None) \<longrightarrow>
         (\<exists>cw. Consume c f2i now ctx' handler (replicate (length (msgs b q @ es)) Delivered) \<lparr>cw_broker = fold route new b, cw_log = [], cw_link = None, cw_handled = []\<rparr> = (None, cw)
           \<and> msgs (cw_broker cw) q = [] \<and> br_unacked (cw_broker cw) = br_unacked (fold route new b)
           \<and> (\<forall>q'. q' \<noteq> q \<longrightarrow> msgs (cw_broker cw) q' = msgs (fold route new b) q')
           \<and> cw_handled cw = map (\<lambda>m. (m, None)) (msgs b q @ es)))"
proof -
  have exists: "map_of (br_queues b) q \<noteq> None" unfolding q_def by (rule serving_queue [OF assms(7)])
  obtain w' new es where run: "Run n (svc_worker cfg ctx wcfg) svc_env w = Some w'" "ps_taken (sv_pub w') = ps_taken (sv_pub w) @ new"
    and queue: "msgs (fold route new b) q = msgs b q @ es"
    and content: "map (\<lambda>m. (msg_RoutingKey m, msg_Body m)) es = map (\<lambda>r. (row_RoutingKey r, row_Payload r))
      (filter (\<lambda>r. q \<in> set (bound_queues b (am_Exchange cfg) (row_RoutingKey r)))
        (sort_key row_ID (filter (row_due (sv_db w)) (pg_rows (sv_db w)))))"
    by (rule backlog_routed [OF assms(2-6) exists]) (rule that)
  let ?b = "fold route new b"
  have b: "serving c ?b" "br_script ?b = []" using serving_fold_route [OF assms(7)] assms(8) by simp_all
  have drained: "\<exists>cw. Consume c f2i now ctx' handler (replicate (length (msgs b q @ es)) Delivered) \<lparr>cw_broker = ?b, cw_log = [], cw_link = None, cw_handled = []\<rparr> = (None, cw)
      \<and> msgs (cw_broker cw) q = [] \<and> br_unacked (cw_broker cw) = br_unacked ?b \<and> (\<forall>q'. q' \<noteq> q \<longrightarrow> msgs (cw_broker cw) q' = msgs ?b q')
      \<and> cw_handled cw = map (\<lambda>m. (m, None)) (msgs b q @ es)"
    if accepts: "\<forall>ctx m. m \<in> set (msgs b q @ es) \<longrightarrow> handler ctx m = None"
  proof -
    have "\<And>ctx m. m \<in> set (msgs ?b q) \<Longrightarrow> handler ctx m = None" using accepts by (simp only: queue)
    with Consume_accepts [of c "\<lparr>cw_broker = ?b, cw_log = [], cw_link = None, cw_handled = []\<rparr>" handler "length (msgs b q @ es)" f2i now ctx', folded q_def] b
    show ?thesis by (auto simp: queue)
  qed
  show ?thesis
    using run queue content drained
    by (intro exI [of _ w'] exI [of _ new] exI [of _ es] conjI impI) assumption+
qed

text \<open>The body of the transaction that registers a user: what it records joins the transaction.\<close>

definition recording :: "string \<Rightarrow> pg \<Rightarrow> fn_out \<times> pg" where
  "recording userID db =
     (case RecordUserRegistered userID db of (None, db') \<Rightarrow> (FnNil, db') | (Some err, db') \<Rightarrow> (FnErr err, db'))"

lemma recorded_row:
  assumes "recording userID db = (FnNil, db')" "pg_jsonb db (mustPayload [(''user_id'', userID)]) = Some json"
  shows "\<exists>r\<in>set (pg_rows db'). row_due db' r \<and> row_RoutingKey r = RoutingKeyUserRegistered \<and> row_Payload r = json"
proof -
  let ?arg = "\<lparr>ip_Aggregate = ''user'', ip_AggregateID = Outbox_Repository.nullable userID, ip_RoutingKey = RoutingKeyUserRegistered,
    ip_Payload = mustPayload [(''user_id'', userID)]\<rparr>"
  obtain row where ins: "InsertOutboxEvent ?arg db = (Inr row, db')"
    using assms(1) by (auto simp: recording_def RecordUserRegistered_def repo_Insert_def split: if_splits prod.splits sum.splits option.splits)
  obtain reply db1 where call: "pg_call db = (reply, db1)" by force
  have "pg_jsonb db1 = pg_jsonb db" using pg_call_frame [OF call] by simp
  with ins call assms(2) have "pg_rows db' = pg_rows db1 @ [new_row ?arg json db1]" "pg_now db' = pg_now db1"
    by (auto simp: InsertOutboxEvent_def pg_write_def Let_def split: reply.splits)
  then show ?thesis by (auto simp: new_row_def row_due_def)
qed

text \<open>
  C26. From a registration to another service: when the transaction that records a user's
  registration commits, and everything answers, the worker publishes the event and the queue of
  a consumer whose binding matches \<open>user.registered\<close> holds a message with that key and the stored payload.
\<close>

theorem registered_user_reaches_consumer:
  fixes c :: consumer and b :: broker
  defines "q \<equiv> qs_Name (co_spec c)"
  assumes "working t = None" "Repository_WithTx (recording userID) t = (Returned None, t')"
    and "pg_jsonb (durable t) (mustPayload [(''user_id'', userID)]) = Some json"
    and "sv_db w = durable t'" "healthy w" "sv_cancel_at w = Some stop" "stop \<le> pg_now (sv_db w) + wc_PollInterval (wc_withDefaults wcfg)"
    and "length (claimable (sv_db w)) < n" "am_Exchange cfg \<noteq> ''''" "serving c b"
    and "am_Exchange (cn_cfg (co_conn c)) = am_Exchange cfg" "pattern \<in> set (qs_RoutingKeys (co_spec c))"
    and "topic_matches pattern RoutingKeyUserRegistered"
  shows "\<exists>w' new. Run n (svc_worker cfg ctx wcfg) svc_env w = Some w' \<and> ps_taken (sv_pub w') = ps_taken (sv_pub w) @ new
     \<and> (\<exists>m\<in>set (msgs (fold route new b) q). msg_RoutingKey m = RoutingKeyUserRegistered \<and> msg_Body m = json)"
proof -
  have "fst (recording userID (durable t)) = FnNil" "durable t' = snd (recording userID (durable t))"
    using with_tx.returned_nil [OF assms(2), of "recording userID"] assms(3) by (simp_all add: Repository_WithTx_def)
  then have "recording userID (durable t) = (FnNil, sv_db w)" using assms(5) by (metis prod.collapse)
  from recorded_row [OF this assms(4)] obtain r where r: "r \<in> set (pg_rows (sv_db w))" "row_due (sv_db w) r"
    "row_RoutingKey r = RoutingKeyUserRegistered" "row_Payload r = json" by blast
  have "(q, pattern, am_Exchange cfg) \<in> set (br_bindings b)"
    using assms(11-13) by (auto simp: serving_def q_def)
  then have bound: "q \<in> set (bound_queues b (am_Exchange cfg) RoutingKeyUserRegistered)"
    using assms(14) by (force simp: bound_queues_def)
  have exists: "map_of (br_queues b) q \<noteq> None" unfolding q_def by (rule serving_queue [OF assms(11)])
  obtain w' new es where run: "Run n (svc_worker cfg ctx wcfg) svc_env w = Some w'" "ps_taken (sv_pub w') = ps_taken (sv_pub w) @ new"
    and queue: "msgs (fold route new b) q = msgs b q @ es"
    and content: "map (\<lambda>m. (msg_RoutingKey m, msg_Body m)) es = map (\<lambda>r. (row_RoutingKey r, row_Payload r))
      (filter (\<lambda>r. q \<in> set (bound_queues b (am_Exchange cfg) (row_RoutingKey r)))
        (sort_key row_ID (filter (row_due (sv_db w)) (pg_rows (sv_db w)))))"
    by (rule backlog_routed [OF assms(6-10) exists]) (rule that)
  have "(RoutingKeyUserRegistered, json) \<in> set (map (\<lambda>m. (msg_RoutingKey m, msg_Body m)) es)"
    unfolding content using r bound by force
  then have "\<exists>m\<in>set (msgs (fold route new b) q). msg_RoutingKey m = RoutingKeyUserRegistered \<and> msg_Body m = json"
    unfolding queue by (auto intro!: bexI)
  with run show ?thesis by blast
qed

section \<open>Witnesses\<close>

lemma demo_unmarked: "\<forall>i. pg_marked (sv_db (demo_svc fs)) i \<longrightarrow>
    (\<exists>m. pg_content (sv_db (demo_svc fs)) i = Some m \<and> m \<in> svc_taken demo_cfg (demo_svc fs))"
  by (simp add: pg_marked_def demo_defs)

theorem event_never_lost_witness:
  "\<exists>w' cw. Run 4 (svc_worker demo_cfg demo_ctx demo_wcfg) svc_env (demo_svc [Answered False]) = Some w' \<and> pg_marked (sv_db w') 2
     \<and> cw = flow mail_consumer (\<lambda>x. 0) ''now'' demo_goctx demo_failing
          (map Arrives (ps_taken (sv_pub w')) @ [Works (Called (Some 1) [Delivered, Expired, Delivered])])
          \<lparr>cw_broker = mail_broker, cw_log = [], cw_link = None, cw_handled = []\<rparr>
     \<and> ((\<exists>m. (m, None) \<in> set (cw_handled cw) \<and> msg_Body m = ''{}'') \<or> 1 \<le> copies ''{}'' (cw_broker cw))"
proof -
  let ?w = "demo_svc [Answered False]"
  let ?run = "Run 4 (svc_worker demo_cfg demo_ctx demo_wcfg) svc_env ?w"
  have "map_option (\<lambda>w. pg_marked (sv_db w) 2) ?run = Some True" by code_simp
  then obtain w' where w': "?run = Some w'" "pg_marked (sv_db w') 2" by auto
  have wf: "pg_wf (sv_db ?w)" "confirms_in_time (sv_pub ?w)" by code_simp+
  have spec: "qs_Name mail_spec \<noteq> ''''" "am_Exchange demo_cfg \<noteq> ''''" "am_Exchange (cn_cfg mail_connection) = am_Exchange demo_cfg"
    "''b.#'' \<in> set (qs_RoutingKeys mail_spec)" "topic_matches ''b.#'' ''b''" by code_simp+
  have content: "pg_content (sv_db ?w) 2 = Some (''b'', ''{}'')" by code_simp
  from event_never_lost [OF wf demo_unmarked w'(1) mail_started spec(1) _ spec(2,3) content spec(4,5) _ refl,
      of "map Arrives (ps_taken (sv_pub w')) @ [Works (Called (Some 1) [Delivered, Expired, Delivered])]" "\<lambda>x. 0" "''now''" demo_goctx demo_failing None]
    w' mail_serving
  show ?thesis by auto
qed

theorem backlog_reaches_consumer_witness:
  "\<exists>w' new es. Run 4 (svc_worker demo_cfg demo_ctx demo_wcfg) svc_env (demo_svc []) = Some w'
     \<and> msgs (fold route new mail_broker) ''mail'' = es \<and> map (\<lambda>m. (msg_RoutingKey m, msg_Body m)) es = [(''b'', ''{}'')]
     \<and> (\<exists>cw. Consume mail_consumer (\<lambda>x. 0) ''now'' demo_goctx (\<lambda>ctx m. None) (replicate (length es) Delivered)
             \<lparr>cw_broker = fold route new mail_broker, cw_log = [], cw_link = None, cw_handled = []\<rparr> = (None, cw) \<and> msgs (cw_broker cw) ''mail'' = [])"
proof -
  have pre: "healthy (demo_svc [])" "length (claimable (sv_db (demo_svc []))) < 4" "am_Exchange demo_cfg \<noteq> ''''"
    "sv_cancel_at (demo_svc []) = Some 20" "20 \<le> pg_now (sv_db (demo_svc [])) + wc_PollInterval (wc_withDefaults demo_wcfg)"
    by code_simp+
  have rows: "map (\<lambda>r. (row_RoutingKey r, row_Payload r))
      (filter (\<lambda>r. qs_Name (co_spec mail_consumer) \<in> set (bound_queues mail_broker (am_Exchange demo_cfg) (row_RoutingKey r)))
        (sort_key row_ID (filter (row_due (sv_db (demo_svc []))) (pg_rows (sv_db (demo_svc [])))))) = [(''b'', ''{}'')]" by code_simp
  have mail: "qs_Name (co_spec mail_consumer) = ''mail''" "msgs mail_broker ''mail'' = []" by code_simp+
  from backlog_reaches_consumer [where ctx = demo_ctx and handler = "\<lambda>ctx m. None" and f2i = "\<lambda>x. 0" and now = "''now''" and ctx' = demo_goctx,
      OF pre(1,4,5,2,3) conjunct1 [OF mail_serving] conjunct1 [OF conjunct2 [OF mail_serving]]]
  have "\<exists>w' new es. Run 4 (svc_worker demo_cfg demo_ctx demo_wcfg) svc_env (demo_svc []) = Some w'
      \<and> msgs (fold route new mail_broker) ''mail'' = msgs mail_broker ''mail'' @ es \<and> map (\<lambda>m. (msg_RoutingKey m, msg_Body m)) es = [(''b'', ''{}'')]
      \<and> (\<exists>cw. Consume mail_consumer (\<lambda>x. 0) ''now'' demo_goctx (\<lambda>ctx m. None) (replicate (length (msgs mail_broker ''mail'' @ es)) Delivered)
             \<lparr>cw_broker = fold route new mail_broker, cw_log = [], cw_link = None, cw_handled = []\<rparr> = (None, cw) \<and> msgs (cw_broker cw) ''mail'' = [])"
    unfolding mail(1) rows [unfolded mail(1)] by (elim ex_forward) blast
  then show ?thesis by (simp only: mail(2) append_Nil)
qed

theorem registered_user_reaches_consumer_witness:
  "\<exists>t' w' new. Repository_WithTx (recording ''u1'') \<lparr>durable = demo_db, working = None, tx_script = []\<rparr> = (Returned None, t')
     \<and> Run 5 (svc_worker demo_cfg demo_ctx demo_wcfg) svc_env ((demo_svc [])\<lparr>sv_db := durable t'\<rparr>) = Some w'
     \<and> ps_taken (sv_pub w') = new
     \<and> (\<exists>m\<in>set (msgs (fold route new mail_broker) ''mail''). msg_RoutingKey m = ''user.registered'' \<and> msg_Body m = mustPayload [(''user_id'', ''u1'')])"
proof -
  let ?t = "\<lparr>durable = demo_db, working = None, tx_script = []\<rparr>"
  let ?t' = "snd (Repository_WithTx (recording ''u1'') ?t)"
  let ?w = "(demo_svc [])\<lparr>sv_db := durable ?t'\<rparr>"
  have res: "fst (Repository_WithTx (recording ''u1'') ?t) = Returned None" by code_simp
  then have tx: "Repository_WithTx (recording ''u1'') ?t = (Returned None, ?t')" by (metis prod.collapse)
  have w: "healthy ?w" "sv_cancel_at ?w = Some 20" "20 \<le> pg_now (sv_db ?w) + wc_PollInterval (wc_withDefaults demo_wcfg)"
    "length (claimable (sv_db ?w)) < 5" "am_Exchange demo_cfg \<noteq> ''''" "ps_taken (sv_pub ?w) = []" by code_simp+
  have c: "am_Exchange (cn_cfg (co_conn mail_consumer)) = am_Exchange demo_cfg" "''user.*'' \<in> set (qs_RoutingKeys (co_spec mail_consumer))"
    "topic_matches ''user.*'' RoutingKeyUserRegistered" "qs_Name (co_spec mail_consumer) = ''mail''" "RoutingKeyUserRegistered = ''user.registered''" by code_simp+
  have json: "pg_jsonb (durable ?t) (mustPayload [(''user_id'', ''u1'')]) = Some (mustPayload [(''user_id'', ''u1'')])" by (simp add: demo_db_def)
  have "\<exists>w' new. Run 5 (svc_worker demo_cfg demo_ctx demo_wcfg) svc_env ?w = Some w' \<and> ps_taken (sv_pub w') = ps_taken (sv_pub ?w) @ new
     \<and> (\<exists>m\<in>set (msgs (fold route new mail_broker) (qs_Name (co_spec mail_consumer))). msg_RoutingKey m = RoutingKeyUserRegistered \<and> msg_Body m = mustPayload [(''user_id'', ''u1'')])"
    by (rule registered_user_reaches_consumer [OF _ tx json _ w(1-5) conjunct1 [OF mail_serving] c(1-3)]) simp_all
  then show ?thesis using tx unfolding w(6) c(4,5) append_Nil by blast
qed

end
